(* ===== verification/Plum_Prelude.thy ===== *)
theory Plum_Prelude
  imports Main "HOL-Library.Word" "HOL-Library.List_Lexorder"
begin

text \<open>
  The vocabulary shared by all components of the development.

  A fallible Rust function returns \<open>Result<T, E>\<close> and may also panic (a failed \<open>assert!\<close>, an
  index out of range, an arithmetic overflow when overflow checks are compiled in). The type
  \<open>result\<close> has one constructor for each of the three outcomes, and \<open>and_then\<close> is the sequencing
  that the \<open>?\<close> operator and ordinary statement sequencing perform.

  Machine integers are words. The arithmetic operators that Rust checks in debug builds and wraps in
  release builds take the build profile as their first argument: \<open>oc\<close> is true when the program is
  compiled with overflow checks.
\<close>

unbundle bit_operations_syntax

type_synonym u8 = "8 word"
type_synonym u32 = "32 word"
type_synonym u64 = "64 word"
type_synonym bytes = "u8 list"

datatype ('a, 'e) result = Ok 'a | Err 'e | Panic

named_theorems result_simps \<open>rewriting of outcomes\<close>

primrec and_then :: "('a, 'e) result \<Rightarrow> ('a \<Rightarrow> ('b, 'e) result) \<Rightarrow> ('b, 'e) result" where
  "and_then (Ok x) f = f x"
| "and_then (Err e) f = Err e"
| "and_then Panic f = Panic"

primrec map_err :: "('e \<Rightarrow> 'f) \<Rightarrow> ('a, 'e) result \<Rightarrow> ('a, 'f) result" where
  "map_err f (Ok x) = Ok x"
| "map_err f (Err e) = Err (f e)"
| "map_err f Panic = Panic"

primrec map_ok :: "('a \<Rightarrow> 'b) \<Rightarrow> ('a, 'e) result \<Rightarrow> ('b, 'e) result" where
  "map_ok f (Ok x) = Ok (f x)"
| "map_ok f (Err e) = Err e"
| "map_ok f Panic = Panic"

primrec is_ok :: "('a, 'e) result \<Rightarrow> bool" where
  "is_ok (Ok x) = True"
| "is_ok (Err e) = False"
| "is_ok Panic = False"

primrec unwrap :: "('a, 'f) result \<Rightarrow> ('a, 'e) result" where
  "unwrap (Ok x) = Ok x"
| "unwrap (Err e) = Panic"
| "unwrap Panic = Panic"

fun ok_or :: "'a option \<Rightarrow> 'e \<Rightarrow> ('a, 'e) result" where
  "ok_or (Some x) e = Ok x"
| "ok_or None e = Err e"

definition assertion :: "bool \<Rightarrow> (unit, 'e) result" where
  "assertion b = (if b then Ok () else Panic)"

definition ensure :: "bool \<Rightarrow> 'e \<Rightarrow> (unit, 'e) result" where
  "ensure b e = (if b then Ok () else Err e)"

text \<open>Indexing a vector or a slice.\<close>

definition index_at :: "'a list \<Rightarrow> nat \<Rightarrow> ('a, 'e) result" where
  "index_at xs i = (if i < length xs then Ok (xs ! i) else Panic)"

text \<open>Checked or wrapping arithmetic, according to the build profile.\<close>

definition add_w :: "bool \<Rightarrow> 'l::len word \<Rightarrow> 'l word \<Rightarrow> ('l word, 'e) result" where
  "add_w oc a b = (if oc \<and> 2 ^ LENGTH('l) \<le> unat a + unat b then Panic else Ok (a + b))"

definition sub_w :: "bool \<Rightarrow> 'l::len word \<Rightarrow> 'l word \<Rightarrow> ('l word, 'e) result" where
  "sub_w oc a b = (if oc \<and> a < b then Panic else Ok (a - b))"

definition mul_w :: "bool \<Rightarrow> 'l::len word \<Rightarrow> 'l word \<Rightarrow> ('l word, 'e) result" where
  "mul_w oc a b = (if oc \<and> 2 ^ LENGTH('l) \<le> unat a * unat b then Panic else Ok (a * b))"


subsection \<open>Outcomes\<close>

lemma and_then_cong [fundef_cong]:
  assumes "m = m'" "\<And>x. m' = Ok x \<Longrightarrow> f x = g x"
  shows "and_then m f = and_then m' g"
  using assms by (cases m') auto

lemma and_then_eq_Ok_iff [result_simps]:
  "and_then m f = Ok y \<longleftrightarrow> (\<exists>x. m = Ok x \<and> f x = Ok y)"
  by (cases m) auto

lemma and_then_eq_Panic_iff [result_simps]:
  "and_then m f = Panic \<longleftrightarrow> m = Panic \<or> (\<exists>x. m = Ok x \<and> f x = Panic)"
  by (cases m) auto

lemma and_then_eq_Err_iff [result_simps]:
  "and_then m f = Err e \<longleftrightarrow> m = Err e \<or> (\<exists>x. m = Ok x \<and> f x = Err e)"
  by (cases m) auto

lemma and_then_assoc: "and_then (and_then m f) g = and_then m (\<lambda>x. and_then (f x) g)"
  by (cases m) auto

lemma and_then_Ok [simp]: "and_then m Ok = m"
  by (cases m) auto

lemma map_ok_eq_Ok_iff [result_simps]: "map_ok f m = Ok y \<longleftrightarrow> (\<exists>x. m = Ok x \<and> f x = y)"
  by (cases m) auto

lemma map_ok_eq_Panic_iff [result_simps]: "map_ok f m = Panic \<longleftrightarrow> m = Panic"
  by (cases m) auto

lemma map_ok_eq_Err_iff [result_simps]: "map_ok f m = Err e \<longleftrightarrow> m = Err e"
  by (cases m) auto

lemma map_err_eq_Ok_iff [result_simps]: "map_err f m = Ok y \<longleftrightarrow> m = Ok y"
  by (cases m) auto

lemma map_err_eq_Panic_iff [result_simps]: "map_err f m = Panic \<longleftrightarrow> m = Panic"
  by (cases m) auto

lemma map_err_eq_Err_iff [result_simps]:
  "map_err f m = Err e \<longleftrightarrow> (\<exists>e'. m = Err e' \<and> f e' = e)"
  by (cases m) auto

lemma assertion_simps [simp]: "assertion True = Ok ()" "assertion False = Panic"
  by (simp_all add: assertion_def)

lemma ensure_simps [simp]: "ensure True e = Ok ()" "ensure False e = Err e"
  by (simp_all add: ensure_def)

lemma assertion_eq_Ok_iff [result_simps]: "assertion b = Ok u \<longleftrightarrow> b"
  by (simp add: assertion_def)

lemma assertion_eq_Panic_iff [result_simps]: "assertion b = Panic \<longleftrightarrow> \<not> b"
  by (simp add: assertion_def)

lemma ensure_eq_Ok_iff [result_simps]: "ensure b e = Ok u \<longleftrightarrow> b"
  by (simp add: ensure_def)

lemma ensure_neq_Panic [result_simps]: "ensure b e \<noteq> Panic"
  by (simp add: ensure_def)

lemma index_at_Ok [simp]: "i < length xs \<Longrightarrow> index_at xs i = Ok (xs ! i)"
  by (simp add: index_at_def)

lemma index_at_Panic [simp]: "length xs \<le> i \<Longrightarrow> index_at xs i = Panic"
  by (simp add: index_at_def)

lemma index_at_eq_Ok_iff [result_simps]: "index_at xs i = Ok y \<longleftrightarrow> i < length xs \<and> xs ! i = y"
  by (simp add: index_at_def)


subsection \<open>Machine arithmetic\<close>

text \<open>Code equations on \<open>int\<close>, where the bound is not a unary number.\<close>

lemma add_w_code [code]:
  "add_w oc a b = (if oc \<and> 2 ^ LENGTH('l) \<le> uint a + uint (b :: 'l::len word) then Panic else Ok (a + b))"
proof -
  have "2 ^ LENGTH('l) \<le> unat a + unat b \<longleftrightarrow> 2 ^ LENGTH('l) \<le> uint a + uint b"
    by (simp flip: of_nat_le_iff [where 'a = int])
  then show ?thesis by (simp add: add_w_def)
qed

lemma mul_w_code [code]:
  "mul_w oc a b = (if oc \<and> 2 ^ LENGTH('l) \<le> uint a * uint (b :: 'l::len word) then Panic else Ok (a * b))"
proof -
  have "2 ^ LENGTH('l) \<le> unat a * unat b \<longleftrightarrow> 2 ^ LENGTH('l) \<le> uint a * uint b"
    by (simp flip: of_nat_le_iff [where 'a = int])
  then show ?thesis by (simp add: mul_w_def)
qed

lemma add_w_Ok: "unat a + unat b < 2 ^ LENGTH('l) \<Longrightarrow> add_w oc (a::'l::len word) b = Ok (a + b)"
  by (simp add: add_w_def)

lemma add_w_wrap [simp]: "add_w False a b = Ok (a + b)"
  by (simp add: add_w_def)

lemma sub_w_Ok: "b \<le> a \<Longrightarrow> sub_w oc a b = Ok (a - b)"
  by (auto simp: sub_w_def)

lemma sub_w_wrap [simp]: "sub_w False a b = Ok (a - b)"
  by (simp add: sub_w_def)

lemma add_w_checked_unat:
  "add_w True (a::'l::len word) b = Ok c \<Longrightarrow> unat c = unat a + unat b"
  by (auto simp: add_w_def not_le unat_add_lem [THEN iffD1] split: if_splits)

lemma add_w_neq_Err [simp]: "add_w oc a b \<noteq> Err e"
  by (simp add: add_w_def)

lemma sub_w_neq_Err [simp]: "sub_w oc a b \<noteq> Err e"
  by (simp add: sub_w_def)

lemma unat_u64_bound: "unat (w::u64) < 2 ^ 64"
  using unsigned_less [where 'a = nat, of w] by simp

lemma unat_u8_bound: "unat (w::u8) < 256"
  using unsigned_less [where 'a = nat, of w] by simp

lemma ucast_ucast_8: "ucast (ucast b :: u64) = (b :: u8)"
  by (rule bit_word_eqI) (simp add: bit_simps)

lemma ucast_8_64: "ucast (ucast w :: u8) = take_bit 8 (w :: u64)"
  by (rule bit_word_eqI) (auto simp: bit_simps)

lemma word_succ_unat:
  "unat (a::'l::len word) + 1 < 2 ^ LENGTH('l) \<Longrightarrow> unat (a + 1) = unat a + 1"
  by (metis unat_1 unat_add_lem)


lemma uint_word_of_int_fits: "0 \<le> i \<Longrightarrow> i < 2 ^ LENGTH('a) \<Longrightarrow> uint (word_of_int i :: 'a::len word) = i"
  by (simp add: uint_word_of_int_eq take_bit_int_eq_self)

lemma sint_word_of_int_fits:
  "- (2 ^ (LENGTH('a) - 1)) \<le> i \<Longrightarrow> i < 2 ^ (LENGTH('a) - 1) \<Longrightarrow> sint (word_of_int i :: 'a::len word) = i"
  by (simp add: sint_sbintrunc' signed_take_bit_int_eq_self)

lemma ucast_word_of_int_fits:
  "0 \<le> i \<Longrightarrow> i < 2 ^ LENGTH('a) \<Longrightarrow> ucast (word_of_int i :: 'a::len word) = (word_of_int i :: 'b::len word)"
  by (metis uint_word_of_int_fits word_of_int_uint ucast_eq)

lemma scast_word_of_int_fits:
  "- (2 ^ (LENGTH('a) - 1)) \<le> i \<Longrightarrow> i < 2 ^ (LENGTH('a) - 1) \<Longrightarrow>
   scast (word_of_int i :: 'a::len word) = (word_of_int i :: 'b::len word)"
  by (metis sint_word_of_int_fits scast_eq)


subsection \<open>Lists\<close>

lemma find_upt_Some_iff:
  "List.find P [a..<b] = Some q \<longleftrightarrow> a \<le> q \<and> q < b \<and> P q \<and> (\<forall>i. a \<le> i \<and> i < q \<longrightarrow> \<not> P i)"
proof (induction "b - a" arbitrary: a)
  case 0
  then show ?case by auto
next
  case (Suc n)
  then have "a < b" and *: "List.find P [Suc a..<b] = Some q \<longleftrightarrow>
      Suc a \<le> q \<and> q < b \<and> P q \<and> (\<forall>i. Suc a \<le> i \<and> i < q \<longrightarrow> \<not> P i)"
    by auto
  show ?case
  proof (cases "P a")
    case True
    then show ?thesis using \<open>a < b\<close> by (auto simp: upt_conv_Cons)
  next
    case False
    then show ?thesis
      using \<open>a < b\<close> * by (auto simp: upt_conv_Cons Suc_le_eq) (metis le_neq_implies_less)+
  qed
qed

lemma find_upt_None_iff: "List.find P [a..<b] = None \<longleftrightarrow> (\<forall>i. a \<le> i \<and> i < b \<longrightarrow> \<not> P i)"
  by (auto simp: find_None_iff)


subsection \<open>Positions in a byte vector\<close>

lemma div_mod_8: "n div 8 * 8 + n mod 8 = n" "n mod 8 < 8" for n :: nat
  by simp_all

lemma div_mod_8_unique:
  "r < 8 \<Longrightarrow> (q * 8 + r) div 8 = q" "r < 8 \<Longrightarrow> (q * 8 + r) mod 8 = r" for q r :: nat
  by simp_all

lemma div_8_add: "p mod 8 + c < 8 \<Longrightarrow> (p + c) div 8 = p div 8" for p :: nat
  using div_mod_8_unique(1) [of "p mod 8 + c" "p div 8"] by (simp only: add.assoc [symmetric] div_mod_8)

lemma mod_8_add: "p mod 8 + c < 8 \<Longrightarrow> (p + c) mod 8 = p mod 8 + c" for p :: nat
  using div_mod_8_unique(2) [of "p mod 8 + c" "p div 8"] by (simp only: add.assoc [symmetric] div_mod_8)

lemma ceil_div_8: "(n + 7) div 8 = (if n mod 8 = 0 then n div 8 else n div 8 + 1)" for n :: nat
proof (cases "n mod 8")
  case 0
  then show ?thesis using div_8_add [of n 7] by simp
next
  case (Suc r)
  have "n + 7 = (n div 8 + 1) * 8 + r"
    using div_mod_8(1) [of n] unfolding Suc by simp
  moreover have "r < 8" using div_mod_8(2) [of n] unfolding Suc by simp
  ultimately show ?thesis using div_mod_8_unique(1) [of r "n div 8 + 1"] Suc by simp
qed

lemma next_byte_8: "n < (n + 1) div 8 * 8 + 7" "n \<le> n div 8 * 8 + 8" for n :: nat
  using div_mod_8 [of n] div_mod_8 [of "n + 1"] by linarith+

lemma map_of_filter_key: "map_of (filter (\<lambda>e. fst e \<noteq> n) m) = (map_of m)(n := None)"
  by (induction m) auto

end
