(* ===== verification/Rle_Bitset.thy ===== *)
theory Rle_Bitset
  imports Plum_Prelude
begin

text \<open>
  The growable bit set of the RLE+ crate (\<open>primitives/bitfield/rle/src/bitset.rs\<close>).

  A \<open>DynamicBitSet\<close> is a byte vector together with the number of bits pushed so far. Its
  specification is the list of its bits: \<open>bits_of\<close> is the abstraction function, \<open>bitset_wf\<close> the
  representation invariant, and the refinement lemmas say that \<open>push\<close> appends one bit,
  \<open>bit\<close> reads one, \<open>find_next\<close> finds the next set bit, and that the bytes taken out and put
  back in give the same bits padded with zeros to a whole number of bytes.

  Bit counts are natural numbers: they are \<open>usize\<close> in the code, and a vector never has
  more than \<open>isize::MAX\<close> bytes.
\<close>

definition BYTE_LEN :: nat where
  "BYTE_LEN = 8"

definition MASK :: nat where
  "MASK = BYTE_LEN - 1"

record DynamicBitSet =
  content :: bytes
  bit_count :: nat

definition index :: "nat \<Rightarrow> nat" where
  "index pos = pos div BYTE_LEN"

definition offset :: "nat \<Rightarrow> nat" where
  "offset pos = pos AND MASK"

definition bit_mask :: "nat \<Rightarrow> u8" where
  "bit_mask pos = push_bit (offset pos) 1"

definition bitset_new :: DynamicBitSet where
  "bitset_new = \<lparr>content = [], bit_count = 0\<rparr>"

text \<open>\<open>Vec::insert\<close>, which panics when the index is past the end.\<close>

definition vec_insert :: "'a list \<Rightarrow> nat \<Rightarrow> 'a \<Rightarrow> ('a list, 'e) result" where
  "vec_insert xs i x = (if i \<le> length xs then Ok (take i xs @ x # drop i xs) else Panic)"

definition push :: "DynamicBitSet \<Rightarrow> bool \<Rightarrow> (DynamicBitSet, 'e) result" where
  "push self b =
    (let i = index (bit_count self) in
     and_then (if i < length (content self) then Ok (content self) else vec_insert (content self) i 0)
       (\<lambda>c. and_then
          (if b then
             and_then (index_at c i)
               (\<lambda>cur. Ok (c[i := cur OR push_bit (offset (bit_count self)) 1]))
           else Ok c)
          (\<lambda>c'. Ok (self\<lparr>content := c', bit_count := bit_count self + 1\<rparr>))))"

definition clear :: "DynamicBitSet \<Rightarrow> DynamicBitSet" where
  "clear self = self\<lparr>content := [], bit_count := 0\<rparr>"

definition bitset_size :: "DynamicBitSet \<Rightarrow> nat" where
  "bitset_size self = bit_count self"

definition bitset_bit :: "DynamicBitSet \<Rightarrow> nat \<Rightarrow> (bool, 'e) result" where
  "bitset_bit self pos =
    and_then (assertion (pos < bit_count self))
      (\<lambda>_. and_then (index_at (content self) (index pos))
        (\<lambda>byte. Ok (byte AND bit_mask pos \<noteq> 0)))"

text \<open>
  The inner loop of \<open>find_next\<close>. The mask is an \<open>u8\<close> shifted left once per round, so eight
  rounds see every bit of the byte; the loop is entered with a nonzero byte only.
\<close>

primrec scan_byte :: "nat \<Rightarrow> u8 \<Rightarrow> u8 \<Rightarrow> nat \<Rightarrow> nat option" where
  "scan_byte 0 fore msk cnt = None"
| "scan_byte (Suc fuel) fore msk cnt =
    (if fore AND msk = 0 then scan_byte fuel fore (push_bit 1 msk) (cnt + 1) else Some cnt)"

text \<open>
  The bound \<open>self.bit_count - 1\<close> is computed before the test for an empty set: on an empty set it
  panics with overflow checks, and wraps to \<open>usize::MAX\<close> without them, where the second disjunct
  then gives \<open>None\<close>.
\<close>

function find_next :: "bool \<Rightarrow> DynamicBitSet \<Rightarrow> nat \<Rightarrow> (nat option, 'e) result" where
  "find_next oc self pos =
    (if bit_count self = 0 then (if oc then Panic else Ok None)
     else if pos \<ge> bit_count self - 1 then Ok None
     else
       let pos = pos + 1; i = index pos in
       and_then (index_at (content self) i)
         (\<lambda>byte.
            let fore = drop_bit (offset pos) byte in
            if fore > 0 then
              (case scan_byte 8 fore 1 0 of
                 Some cnt \<Rightarrow> Ok (Some (pos + cnt))
               | None \<Rightarrow> Panic)
            else find_next oc self (i * BYTE_LEN + (BYTE_LEN - 1))))"
  by pat_completeness auto

lemma index_next_byte: "pos < index (pos + 1) * BYTE_LEN + (BYTE_LEN - 1)"
  using next_byte_8(1) [of pos] by (simp add: index_def BYTE_LEN_def)

termination find_next
proof (relation "measure (\<lambda>(oc, self, pos). bit_count self - pos)", goal_cases)
  case (2 oc self pos)
  then show ?case
    using index_next_byte [of pos] by (simp add: diff_less_mono2)
qed simp

declare find_next.simps [simp del]

definition into_vec :: "DynamicBitSet \<Rightarrow> bytes" where
  "into_vec self = content self"

definition from_vec :: "bytes \<Rightarrow> DynamicBitSet" where
  "from_vec v = \<lparr>content = v, bit_count = length v * BYTE_LEN\<rparr>"


subsection \<open>The bits of a bit set\<close>

definition byte_bits :: "bytes \<Rightarrow> nat \<Rightarrow> bool" where
  "byte_bits c i = bit (c ! (i div 8)) (i mod 8)"

definition bits_of :: "DynamicBitSet \<Rightarrow> bool list" where
  "bits_of self = map (byte_bits (content self)) [0..<bit_count self]"

definition bitset_wf :: "DynamicBitSet \<Rightarrow> bool" where
  "bitset_wf self \<longleftrightarrow>
     length (content self) = (bit_count self + 7) div 8 \<and>
     (\<forall>i \<in> {bit_count self..<8 * length (content self)}. \<not> byte_bits (content self) i)"

lemma offset_mod: "offset pos = pos mod 8"
  using take_bit_eq_mask [of 3 pos]
  by (simp add: offset_def MASK_def BYTE_LEN_def take_bit_eq_mod mask_eq_exp_minus_1)

lemma index_div: "index pos = pos div 8"
  by (simp add: index_def BYTE_LEN_def)

lemma length_bits_of [simp]: "length (bits_of self) = bit_count self"
  by (simp add: bits_of_def)

lemma nth_bits_of: "i < bit_count self \<Longrightarrow> bits_of self ! i = byte_bits (content self) i"
  by (simp add: bits_of_def)

lemma bitset_wf_new [simp]: "bitset_wf bitset_new"
  by (simp add: bitset_wf_def bitset_new_def)

lemma bits_of_new [simp]: "bits_of bitset_new = []"
  by (simp add: bits_of_def bitset_new_def)

lemma clear_eq_new: "clear self = bitset_new"
  by (simp add: clear_def bitset_new_def)

lemma bitset_wf_from_vec [simp]: "bitset_wf (from_vec v)"
  by (simp add: bitset_wf_def from_vec_def BYTE_LEN_def)

lemma bitset_wf_length: "bitset_wf self \<Longrightarrow> i < bit_count self \<Longrightarrow> i div 8 < length (content self)"
  by (simp add: bitset_wf_def)

lemma byte_bits_append_zero:
  "byte_bits (c @ [0]) i = (i div 8 < length c \<and> byte_bits c i)" if "i div 8 \<le> length c"
  using that by (auto simp: byte_bits_def nth_append)

lemma byte_bits_set:
  assumes "n div 8 < length c"
  shows "byte_bits (c[n div 8 := c ! (n div 8) OR push_bit (n mod 8) 1]) i = (byte_bits c i \<or> i = n)"
proof (cases "i div 8 = n div 8")
  case True
  then have "i = n \<longleftrightarrow> i mod 8 = n mod 8"
    by (metis div_mult_mod_eq)
  with True assms show ?thesis
    by (auto simp: byte_bits_def bit_simps)
next
  case False
  then show ?thesis
    using assms by (auto simp: byte_bits_def)
qed

text \<open>The two ways \<open>push\<close> finds its byte: it is already there, or the vector grows by a zero byte.\<close>

definition grown :: "DynamicBitSet \<Rightarrow> bytes" where
  "grown self = (if bit_count self mod 8 = 0 then content self @ [0] else content self)"

lemma grown_props:
  assumes "bitset_wf self"
  shows "length (grown self) = (bit_count self + 8) div 8"
    and "\<And>i. i < 8 * length (grown self) \<Longrightarrow>
           byte_bits (grown self) i = (i < bit_count self \<and> byte_bits (content self) i)"
proof -
  have len: "length (content self) = (bit_count self + 7) div 8"
    and zero: "\<And>i. bit_count self \<le> i \<Longrightarrow> i < 8 * length (content self) \<Longrightarrow> \<not> byte_bits (content self) i"
    using assms by (auto simp: bitset_wf_def)
  show "length (grown self) = (bit_count self + 8) div 8"
    using len by (simp add: grown_def ceil_div_8 div_add_self2)
  fix i assume i: "i < 8 * length (grown self)"
  show "byte_bits (grown self) i = (i < bit_count self \<and> byte_bits (content self) i)"
  proof (cases "bit_count self mod 8 = 0")
    case True
    then have "bit_count self = 8 * length (content self)"
      using len div_mod_8 [of "bit_count self"] by (simp add: ceil_div_8)
    with True i show ?thesis
      by (simp add: grown_def) (subst byte_bits_append_zero, auto)
  next
    case False
    with i zero [of i] show ?thesis by (cases "i < bit_count self") (auto simp: grown_def)
  qed
qed

lemma push_eq:
  assumes "bitset_wf self"
  shows "(push self b :: (DynamicBitSet, 'e) result) =
    Ok (self\<lparr>content := (if b then (grown self)[bit_count self div 8 :=
                                   grown self ! (bit_count self div 8) OR push_bit (bit_count self mod 8) 1]
                         else grown self),
             bit_count := bit_count self + 1\<rparr>)"
proof -
  have len: "length (content self) = (bit_count self + 7) div 8"
    using assms by (simp add: bitset_wf_def)
  have grow: "(if index (bit_count self) < length (content self) then Ok (content self)
         else vec_insert (content self) (index (bit_count self)) 0) = (Ok (grown self) :: (bytes, 'e) result)"
  proof (cases "bit_count self mod 8 = 0")
    case True
    then have "bit_count self div 8 = length (content self)" using len by (simp add: ceil_div_8)
    with True show ?thesis by (simp add: grown_def index_div vec_insert_def)
  next
    case False
    then have "bit_count self div 8 < length (content self)" using len by (simp add: ceil_div_8)
    with False show ?thesis by (simp add: grown_def index_div)
  qed
  have "bit_count self div 8 < length (grown self)"
    using grown_props(1) [OF assms] by simp
  then show ?thesis
    unfolding push_def Let_def grow by (simp add: index_div offset_mod)
qed

lemma push_refines:
  assumes "bitset_wf self"
  obtains self' where "push self b = Ok self'" "bitset_wf self'" "bits_of self' = bits_of self @ [b]"
proof -
  let ?n = "bit_count self"
  let ?c = "if b then (grown self)[?n div 8 := grown self ! (?n div 8) OR push_bit (?n mod 8) 1]
            else grown self"
  let ?s = "self\<lparr>content := ?c, bit_count := ?n + 1\<rparr>"
  have len: "length ?c = (?n + 8) div 8"
    using grown_props(1) [OF assms] by simp
  have bits: "byte_bits ?c i = (i < ?n \<and> byte_bits (content self) i \<or> b \<and> i = ?n)"
    if "i < 8 * length ?c" for i
    using that grown_props [OF assms] byte_bits_set [of ?n "grown self" i] by (auto split: if_splits)
  have "bitset_wf ?s"
    using len bits by (auto simp: bitset_wf_def)
  moreover have "bits_of ?s = bits_of self @ [b]"
  proof (rule nth_equalityI)
    fix i assume i: "i < length (bits_of ?s)"
    then have "i < 8 * length ?c" using len by simp
    from bits [OF this] i show "bits_of ?s ! i = (bits_of self @ [b]) ! i"
      by (cases "i < ?n") (auto simp: nth_bits_of nth_append less_Suc_eq)
  qed simp
  ultimately show ?thesis
    using that push_eq [OF assms, of b] by blast
qed

lemma bitset_bit_refines:
  assumes "bitset_wf self"
  shows "bitset_bit self pos = (if pos < length (bits_of self) then Ok (bits_of self ! pos) else Panic)"
  using bitset_wf_length [OF assms, of pos]
  by (auto simp: bitset_bit_def bit_mask_def index_div offset_mod nth_bits_of byte_bits_def
      bit_iff_and_push_bit_not_eq_0)


lemma scan_byte_find:
  "k + fuel \<le> 8 \<Longrightarrow> scan_byte fuel w (push_bit k 1) k = List.find (bit w) [k..<k + fuel]"
proof (induction fuel arbitrary: k)
  case (Suc fuel)
  have "w AND push_bit k 1 = 0 \<longleftrightarrow> \<not> bit w k"
    by (simp add: bit_iff_and_push_bit_not_eq_0)
  then show ?case
    using Suc.IH [of "Suc k"] Suc.prems
    by (simp add: upt_conv_Cons push_bit_push_bit del: push_bit_of_1 upt_Suc)
qed simp

lemma scan_byte_Some:
  assumes "w \<noteq> 0"
  obtains c where "scan_byte 8 w 1 0 = Some c" "bit w c" "\<And>i. i < c \<Longrightarrow> \<not> bit w i"
proof -
  have eq: "scan_byte 8 w 1 0 = List.find (bit w) [0..<8]"
    using scan_byte_find [of 0 8 w] by simp
  moreover have "List.find (bit w) [0..<8] \<noteq> None"
    using assms by (auto simp: find_None_iff bit_eq_iff bit_simps dest: bit_imp_le_length)
  ultimately show ?thesis
    using that by (auto simp: find_upt_Some_iff)
qed

lemma bit_drop_byte:
  "p mod 8 + c < 8 \<Longrightarrow> bit (drop_bit (p mod 8) (cs ! (p div 8))) c \<longleftrightarrow> byte_bits cs (p + c)"
  by (simp add: byte_bits_def bit_simps div_8_add mod_8_add)

lemma find_next_unfold:
  assumes "bitset_wf self" "pos + 1 < bit_count self"
  shows "find_next oc self pos =
    (let p = pos + 1; fore = drop_bit (p mod 8) (content self ! (p div 8)) in
     if fore = 0 then find_next oc self (p div 8 * 8 + 7)
     else (case scan_byte 8 fore 1 0 of Some cnt \<Rightarrow> Ok (Some (p + cnt)) | None \<Rightarrow> Panic))"
proof -
  have "(pos + 1) div 8 < length (content self)"
    and "\<not> bit_count self - 1 \<le> pos" "bit_count self \<noteq> 0"
    using bitset_wf_length assms by auto
  then show ?thesis
    by (subst find_next.simps) (simp add: Let_def index_div offset_mod BYTE_LEN_def word_gt_0)
qed

text \<open>The byte holds a set bit at or after the position: the scan returns the first of them.\<close>

lemma find_next_in_byte:
  assumes "bitset_wf self" "p < bit_count self"
    and fore: "fore = drop_bit (p mod 8) (content self ! (p div 8))" "fore \<noteq> 0"
  obtains c where "scan_byte 8 fore 1 0 = Some c"
    "List.find (\<lambda>i. bits_of self ! i) [p..<bit_count self] = Some (p + c)"
proof -
  obtain c where c: "scan_byte 8 fore 1 0 = Some c" "bit fore c" "\<And>j. j < c \<Longrightarrow> \<not> bit fore j"
    using scan_byte_Some [OF fore(2)] by auto
  then have c8: "p mod 8 + c < 8"
    by (auto simp: fore(1) bit_simps dest: bit_imp_le_length)
  have set: "byte_bits (content self) (p + c)"
    using bit_drop_byte [OF c8] c(2) by (simp add: fore(1))
  have "p + c < 8 * length (content self)"
    using c8 bitset_wf_length [OF assms(1,2)] div_mod_8 [of p] by linarith
  with set assms(1) have q: "p + c < bit_count self"
    unfolding bitset_wf_def by (meson atLeastLessThan_iff not_le)
  have "\<not> bits_of self ! j" if "p \<le> j" "j < p + c" for j
    using that c8 q c(3) [of "j - p"] bit_drop_byte [of p "j - p" "content self"]
    by (simp add: nth_bits_of fore(1))
  then have "List.find (\<lambda>i. bits_of self ! i) [p..<bit_count self] = Some (p + c)"
    using q set by (auto simp: find_upt_Some_iff nth_bits_of)
  then show ?thesis using that c(1) by blast
qed

text \<open>The rest of the byte is zero: the search restarts at the next byte.\<close>

lemma find_next_skip_byte:
  assumes "bitset_wf self" "drop_bit (p mod 8) (content self ! (p div 8)) = 0"
  shows "List.find (\<lambda>i. bits_of self ! i) [p div 8 * 8 + 8..<bit_count self] =
         List.find (\<lambda>i. bits_of self ! i) [p..<bit_count self]" (is "?l = ?r")
proof -
  have none: "\<not> bits_of self ! j" if "p \<le> j" "j < p div 8 * 8 + 8" "j < bit_count self" for j
  proof -
    have "p mod 8 + (j - p) < 8" using that div_mod_8 [of p] by linarith
    then show ?thesis
      using bit_drop_byte [of p "j - p" "content self"] that assms(2) by (simp add: nth_bits_of)
  qed
  have p: "p \<le> p div 8 * 8 + 8" by (rule next_byte_8)
  have "?r = Some q" if "?l = Some q" for q
    using that none p unfolding find_upt_Some_iff by (meson le_trans less_trans not_less)
  moreover have "?r = None" if "?l = None"
    using that none p unfolding find_upt_None_iff by (meson not_less)
  ultimately show ?thesis by (cases ?l) auto
qed

lemma find_next_refines:
  assumes wf: "bitset_wf self" and "bit_count self > 0"
  shows "find_next oc self pos = Ok (List.find (\<lambda>i. bits_of self ! i) [pos + 1..<bit_count self])"
proof (induction "bit_count self - pos" arbitrary: pos rule: less_induct)
  case less
  let ?p = "pos + 1" and ?fore = "drop_bit ((pos + 1) mod 8) (content self ! ((pos + 1) div 8))"
  show ?case
  proof (cases "?p < bit_count self")
    case False
    then have "bit_count self - 1 \<le> pos" by simp
    then show ?thesis using False assms(2) by (subst find_next.simps) simp
  next
    case p: True
    show ?thesis
    proof (cases "?fore = 0")
      case True
      have "pos < ?p div 8 * 8 + 7" by (rule next_byte_8)
      with p less [of "?p div 8 * 8 + 7"] True show ?thesis
        using find_next_skip_byte [OF wf True]
        by (simp add: find_next_unfold [OF wf p] Let_def add.commute [of 8])
    next
      case False
      then obtain c where "scan_byte 8 ?fore 1 0 = Some c"
        "List.find (\<lambda>i. bits_of self ! i) [?p..<bit_count self] = Some (?p + c)"
        using find_next_in_byte [OF wf p refl] by blast
      then show ?thesis using False by (simp add: find_next_unfold [OF wf p] Let_def)
    qed
  qed
qed


lemma from_into_vec_bits:
  assumes "bitset_wf self"
  obtains k where "bits_of (from_vec (into_vec self)) = bits_of self @ replicate k False"
proof
  let ?m = "8 * length (content self)" and ?n = "bit_count self"
  have "?n \<le> ?m"
    using assms div_mod_8 [of ?n] by (auto simp: bitset_wf_def ceil_div_8)
  then have "[0..<?m] = [0..<?n] @ [?n..<?m]"
    by (metis le_add_diff_inverse upt_add_eq_append zero_le)
  moreover have "map (byte_bits (content self)) [?n..<?m] = replicate (?m - ?n) False"
    using assms by (intro replicate_eqI) (auto simp: bitset_wf_def)
  ultimately show "bits_of (from_vec (into_vec self)) = bits_of self @ replicate (?m - ?n) False"
    by (simp add: bits_of_def from_vec_def into_vec_def BYTE_LEN_def mult.commute)
qed

end
