(* ===== verification/Rle_Encode.thy ===== *)
theory Rle_Encode
  imports Rle_Bitset
begin

text \<open>
  The RLE+ encoder (\<open>primitives/bitfield/rle/src/encode.rs\<close>) at the item type \<open>u64\<close>, the
  one at which bit fields use it.

  \<open>get_periods\<close> turns the ascending items into the lengths of the alternating runs of absent
  and present positions, and \<open>encode\<close> writes each length as a single bit, a four-bit
  block or a variable-length block. The lemmas give the specification of both halves: the
  periods are those of \<open>runs\<close>, whose expansion is the input, and the bits written are
  the header followed by the blocks of the periods.
\<close>

definition SMALL_BLOCK_LENGTH :: nat where
  "SMALL_BLOCK_LENGTH = 4"

definition PACK_BYTE_SHIFT :: nat where
  "PACK_BYTE_SHIFT = 7"

definition BYTE_BITS_COUNT :: nat where
  "BYTE_BITS_COUNT = 8"

definition LONG_BLOCK_VALUE :: u64 where
  "LONG_BLOCK_VALUE = 16"

definition UNPACK_BYTE_MASK :: u64 where
  "UNPACK_BYTE_MASK = 127"

definition BYTE_SLICE_VALUE :: u64 where
  "BYTE_SLICE_VALUE = 128"

definition OBJECT_MAX_SIZE :: nat where
  "OBJECT_MAX_SIZE = 1048576"

lemmas rle_config =
  SMALL_BLOCK_LENGTH_def PACK_BYTE_SHIFT_def BYTE_BITS_COUNT_def LONG_BLOCK_VALUE_def
  UNPACK_BYTE_MASK_def BYTE_SLICE_VALUE_def OBJECT_MAX_SIZE_def

fun periods_loop :: "bool \<Rightarrow> u64 \<Rightarrow> u64 list \<Rightarrow> u64 list \<Rightarrow> (u64 list, 'e) result" where
  "periods_loop oc prev periods [] = Ok periods"
| "periods_loop oc prev periods (item # input) =
    and_then (sub_w oc item prev) (\<lambda>diff.
    and_then
      (if diff = 1 then
         (if periods = [] then Ok periods
          else and_then (add_w oc (last periods) 1) (\<lambda>l. Ok (butlast periods @ [l])))
       else if diff > 1 then
         and_then (sub_w oc diff 1) (\<lambda>d. Ok (periods @ [d] @ [1]))
       else Ok periods)
      (\<lambda>periods'. periods_loop oc item periods' input))"

definition get_periods :: "bool \<Rightarrow> u64 list \<Rightarrow> (u64 option \<times> u64 list, 'e) result" where
  "get_periods oc input =
    (case input of
       [] \<Rightarrow> Ok (None, [])
     | prev # input' \<Rightarrow>
         and_then (periods_loop oc prev ((if prev \<noteq> 0 then [prev] else []) @ [1]) input')
           (\<lambda>periods. Ok (Some prev, periods)))"

text \<open>A loop that pushes computed bits one after the other.\<close>

primrec push_bits :: "DynamicBitSet \<Rightarrow> bool list \<Rightarrow> (DynamicBitSet, 'e) result" where
  "push_bits c [] = Ok c"
| "push_bits c (b # bs) = and_then (push c b) (\<lambda>c'. push_bits c' bs)"

definition init_content :: "DynamicBitSet \<Rightarrow> (DynamicBitSet, 'e) result" where
  "init_content c = push_bits (clear c) [False, False]"

definition push_small_block :: "DynamicBitSet \<Rightarrow> u64 \<Rightarrow> (DynamicBitSet, 'e) result" where
  "push_small_block c block =
    and_then (push_bits c [False, True]) (\<lambda>c.
      push_bits c
        (map (\<lambda>i. drop_bit i (block AND push_bit i 1) = 1) [0..<SMALL_BLOCK_LENGTH]))"

definition push_byte :: "DynamicBitSet \<Rightarrow> u8 \<Rightarrow> (DynamicBitSet, 'e) result" where
  "push_byte c byte = push_bits c (map (\<lambda>i. drop_bit i byte AND 1 \<noteq> 0) [0..<BYTE_LEN])"

function push_slices :: "DynamicBitSet \<Rightarrow> u64 \<Rightarrow> (DynamicBitSet, 'e) result" where
  "push_slices c sl =
    (if sl \<ge> BYTE_SLICE_VALUE then
       and_then (push_byte c (ucast (sl OR BYTE_SLICE_VALUE)))
         (\<lambda>c'. push_slices c' (drop_bit PACK_BYTE_SHIFT sl))
     else push_byte c (ucast sl))"
  by pat_completeness auto

lemma drop_bit_7_less: "(sl::u64) \<ge> 128 \<Longrightarrow> unat (drop_bit 7 sl) < unat sl"
  unfolding unat_drop_bit_eq by (simp add: drop_bit_eq_div word_le_nat_alt)

termination push_slices
  by (relation "measure (\<lambda>(c, sl). unat sl)") (auto simp: rle_config drop_bit_7_less)

declare push_slices.simps [simp del]

definition push_long_block :: "DynamicBitSet \<Rightarrow> u64 \<Rightarrow> (DynamicBitSet, 'e) result" where
  "push_long_block c block =
    and_then (push_bits c [False, False]) (\<lambda>c. push_slices c block)"

definition encode_block :: "DynamicBitSet \<Rightarrow> u64 \<Rightarrow> (DynamicBitSet, 'e) result" where
  "encode_block c value =
    (if value = 1 then push c True
     else if value < LONG_BLOCK_VALUE then push_small_block c value
     else if value \<ge> LONG_BLOCK_VALUE then push_long_block c value
     else Ok c)"

primrec encode_blocks :: "DynamicBitSet \<Rightarrow> u64 list \<Rightarrow> (DynamicBitSet, 'e) result" where
  "encode_blocks c [] = Ok c"
| "encode_blocks c (value # periods) =
    and_then (encode_block c value) (\<lambda>c'. encode_blocks c' periods)"

definition encode :: "bool \<Rightarrow> u64 list \<Rightarrow> (bytes, 'e) result" where
  "encode oc input =
    and_then (get_periods oc input) (\<lambda>(first, periods).
    and_then (init_content bitset_new) (\<lambda>content.
      let flag = (case map_option (\<lambda>i. i = 0) first of Some b \<Rightarrow> b | None \<Rightarrow> False) in
      and_then (push content flag) (\<lambda>content.
      and_then (encode_blocks content periods) (\<lambda>content.
        Ok (into_vec content)))))"


subsection \<open>The bits that are written\<close>

definition word_bits :: "nat \<Rightarrow> 'l::len word \<Rightarrow> bool list" where
  "word_bits n w = map (bit w) [0..<n]"

function long_bytes :: "u64 \<Rightarrow> bytes" where
  "long_bytes sl =
    (if sl \<ge> 128 then ucast (sl OR 128) # long_bytes (drop_bit 7 sl) else [ucast sl])"
  by pat_completeness auto
termination
  by (relation "measure unat") (auto simp: drop_bit_7_less)

declare long_bytes.simps [simp del]

definition block_bits :: "u64 \<Rightarrow> bool list" where
  "block_bits p =
    (if p = 1 then [True]
     else if p < 16 then [False, True] @ word_bits 4 p
     else [False, False] @ concat (map (word_bits 8) (long_bytes p)))"

lemma length_word_bits [simp]: "length (word_bits n w) = n"
  by (simp add: word_bits_def)

text \<open>\<open>appends r c bs\<close>: the operation succeeds and appends the bits \<open>bs\<close>.\<close>

definition appends :: "(DynamicBitSet, 'e) result \<Rightarrow> DynamicBitSet \<Rightarrow> bool list \<Rightarrow> bool" where
  "appends r c bs \<longleftrightarrow> (\<exists>c'. r = Ok c' \<and> bitset_wf c' \<and> bits_of c' = bits_of c @ bs)"

lemma appends_push: "bitset_wf c \<Longrightarrow> appends (push c b) c [b]"
  unfolding appends_def by (metis push_refines)

lemma appends_Ok: "bitset_wf c \<Longrightarrow> appends (Ok c) c []"
  by (simp add: appends_def)

lemma appends_then:
  assumes "appends r c bs" "\<And>c'. bitset_wf c' \<Longrightarrow> appends (f c') c' bs'"
  shows "appends (and_then r f) c (bs @ bs')"
proof -
  obtain c' where "r = Ok c'" "bitset_wf c'" "bits_of c' = bits_of c @ bs"
    using assms(1) by (auto simp: appends_def)
  then show ?thesis using assms(2) [of c'] by (auto simp: appends_def)
qed

lemma appends_push_bits: "bitset_wf c \<Longrightarrow> appends (push_bits c bs) c bs"
proof (induction bs arbitrary: c)
  case (Cons b bs)
  show ?case
    using appends_then [OF appends_push [OF Cons.prems, of b] Cons.IH] by simp
qed (simp add: appends_Ok)

lemma drop_and_bit: "drop_bit i (w AND push_bit i 1) = 1 \<longleftrightarrow> bit w i" if "i < LENGTH('l)" for w :: "'l::len word"
proof -
  have "drop_bit i (w AND push_bit i 1) = (drop_bit i w) AND 1"
    by (rule bit_word_eqI) (use that in \<open>auto simp: bit_simps\<close>)
  then show ?thesis by (simp add: and_one_eq bit_iff_odd_drop_bit odd_iff_mod_2_eq_one)
qed

lemma drop_bit_and_one: "drop_bit i w AND 1 \<noteq> 0 \<longleftrightarrow> bit w i" for w :: "'l::len word"
  by (simp add: and_one_eq bit_iff_odd_drop_bit mod_2_eq_odd)

lemma appends_push_byte: "bitset_wf c \<Longrightarrow> appends (push_byte c byte) c (word_bits 8 byte)"
  unfolding push_byte_def word_bits_def BYTE_LEN_def drop_bit_and_one by (rule appends_push_bits)

lemma appends_push_slices:
  "bitset_wf c \<Longrightarrow> appends (push_slices c p) c (concat (map (word_bits 8) (long_bytes p)))"
proof (induction p arbitrary: c rule: long_bytes.induct)
  case (1 p)
  show ?case
  proof (cases "p \<ge> 128")
    case True
    then show ?thesis
      using appends_then [OF appends_push_byte [OF "1.prems", of "ucast (p OR 128)"] "1.IH"]
      by (subst push_slices.simps, subst long_bytes.simps) (simp add: rle_config)
  next
    case False
    then show ?thesis
      using appends_push_byte [OF "1.prems"]
      by (subst push_slices.simps, subst long_bytes.simps) (simp add: rle_config)
  qed
qed

lemma appends_encode_block: "bitset_wf c \<Longrightarrow> appends (encode_block c p) c (block_bits p)"
proof -
  assume wf: "bitset_wf c"
  have small: "map (\<lambda>i. drop_bit i (p AND push_bit i 1) = 1) [0..<4] = word_bits 4 p"
    unfolding word_bits_def by (intro map_cong refl drop_and_bit) auto
  show ?thesis
    using appends_push [OF wf, of True] appends_then [OF appends_push_bits [OF wf] appends_push_bits]
      appends_then [OF appends_push_bits [OF wf] appends_push_slices]
    by (auto simp only: encode_block_def block_bits_def push_small_block_def push_long_block_def
        rle_config small not_less split: if_split)
qed

lemma appends_encode_blocks:
  "bitset_wf c \<Longrightarrow> appends (encode_blocks c ps) c (concat (map block_bits ps))"
proof (induction ps arbitrary: c)
  case (Cons p ps)
  show ?case
    using appends_then [OF appends_encode_block [OF Cons.prems, of p] Cons.IH] by simp
qed (simp add: appends_Ok)


subsection \<open>The periods of an ascending sequence\<close>

text \<open>
  \<open>runs prev l xs\<close> are the periods still to come when the current run of present positions has
  length \<open>l\<close> and ends at \<open>prev\<close>; \<open>expand\<close> lists the present positions that a sequence of
  periods stands for.
\<close>

fun runs :: "u64 \<Rightarrow> u64 \<Rightarrow> u64 list \<Rightarrow> u64 list" where
  "runs prev l [] = [l]"
| "runs prev l (x # xs) =
    (if x = prev + 1 then runs x (l + 1) xs else l # (x - prev - 1) # runs x 1 xs)"

definition interval :: "u64 \<Rightarrow> u64 \<Rightarrow> u64 list" where
  "interval v n = map (\<lambda>i. v + of_nat i) [0..<unat n]"

fun expand :: "bool \<Rightarrow> u64 \<Rightarrow> u64 list \<Rightarrow> u64 list" where
  "expand mag v [] = []"
| "expand mag v (p # ps) = (if mag then interval v p else []) @ expand (\<not> mag) (v + p) ps"

definition periods_of :: "u64 list \<Rightarrow> u64 list" where
  "periods_of xs =
    (case xs of [] \<Rightarrow> [] | x # xs' \<Rightarrow> (if x \<noteq> 0 then [x] else []) @ runs x 1 xs')"

lemma unat_sub_le: "b \<le> a \<Longrightarrow> unat (a - b) = unat a - unat b" for a b :: "'l::len word"
  by (rule unat_sub)

lemma unat_succ_lt: "unat (a + 1) = unat a + 1" if "a < b" for a b :: u64
  using that unat_u64_bound [of b] by (intro word_succ_unat) (simp add: word_less_nat_alt)

lemma word_gt_1: "0 < a \<Longrightarrow> a \<noteq> 1 \<Longrightarrow> 1 < a" for a :: "'l::len word"
  by (simp add: word_less_nat_alt word_unat_eq_iff [of a 1])

lemma unat_succ: "unat (l + 1) = unat l + 1" if "unat l + Suc n < 2 ^ 64" for l :: u64
  using that by (intro word_succ_unat) simp

lemma periods_loop_runs:
  assumes "sorted_wrt (<) (prev # xs)" "unat l + length xs < 2 ^ 64"
  shows "(periods_loop oc prev (ps @ [l]) xs :: (u64 list, 'e) result) = Ok (ps @ runs prev l xs)"
  using assms
proof (induction xs arbitrary: prev l ps)
  case (Cons x xs)
  have lt: "prev < x" and sorted: "sorted_wrt (<) (x # xs)" using Cons.prems by auto
  have sub: "(sub_w oc x prev :: (u64, 'e) result) = Ok (x - prev)" using lt by (intro sub_w_Ok) auto
  show ?case
  proof (cases "x - prev = 1")
    case True
    then have x: "x = prev + 1" by (metis add.commute diff_add_cancel)
    have "(add_w oc l 1 :: (u64, 'e) result) = Ok (l + 1)" "unat (l + 1) = unat l + 1"
      using Cons.prems(2) unat_succ [of l "length xs"] by (auto intro!: add_w_Ok)
    then show ?thesis
      using Cons.IH [OF sorted, of "l + 1" ps] Cons.prems(2) True x sub by simp
  next
    case False
    have "0 < x - prev" using lt by (simp add: word_gt_0)
    then have gt: "1 < x - prev" using False by (rule word_gt_1)
    then have "(sub_w oc (x - prev) 1 :: (u64, 'e) result) = Ok (x - prev - 1)" by (intro sub_w_Ok) auto
    moreover have "x \<noteq> prev + 1" using False by auto
    ultimately show ?thesis
      using Cons.IH [OF sorted, of 1 "ps @ [l, x - prev - 1]"] Cons.prems(2) False gt sub by simp
  qed
qed simp

lemma get_periods_of:
  assumes "sorted_wrt (<) xs" "length xs < 2 ^ 64"
  shows "(get_periods oc xs :: (_, 'e) result) = Ok (case xs of [] \<Rightarrow> None | x # _ \<Rightarrow> Some x, periods_of xs)"
proof (cases xs)
  case (Cons x xs')
  then show ?thesis
    using assms periods_loop_runs [where 'e = 'e, of x xs' 1 oc "if x \<noteq> 0 then [x] else []"]
    by (cases "x = 0") (simp_all add: get_periods_def periods_of_def)
qed (simp add: get_periods_def periods_of_def)

lemma interval_snoc:
  assumes "unat l + 1 < 2 ^ 64"
  shows "interval v (l + 1) = interval v l @ [v + l]"
  using word_succ_unat [of l] assms by (simp add: interval_def)

lemma interval_1 [simp]: "interval v 1 = [v]"
  by (simp add: interval_def)

lemma expand_runs:
  assumes "sorted_wrt (<) (prev # xs)" "unat l + length xs < 2 ^ 64" 
  shows "expand True (prev + 1 - l) (runs prev l xs) = interval (prev + 1 - l) l @ xs"
  using assms
proof (induction xs arbitrary: prev l)
  case (Cons x xs)
  have lt: "prev < x" and sorted: "sorted_wrt (<) (x # xs)" using Cons.prems by auto
  show ?case
  proof (cases "x = prev + 1")
    case True
    have l: "unat l + 1 < 2 ^ 64" "unat (l + 1) = unat l + 1"
      using Cons.prems(2) unat_succ [of l "length xs"] by simp_all
    then show ?thesis
      using Cons.IH [OF sorted, of "l + 1"] True Cons.prems(2) interval_snoc [OF l(1)]
      by (simp add: algebra_simps)
  next
    case False
    then show ?thesis
      using Cons.IH [OF sorted, of 1] Cons.prems(2) by simp
  qed
qed simp

lemma expand_periods_of:
  assumes "sorted_wrt (<) xs" "length xs < 2 ^ 64"
  shows "expand (xs \<noteq> [] \<and> hd xs = 0) 0 (periods_of xs) = xs"
proof (cases xs)
  case (Cons x xs')
  then show ?thesis
    using assms expand_runs [of x xs' 1] by (cases "x = 0") (simp_all add: periods_of_def)
qed (simp add: periods_of_def)

text \<open>No period is zero, and together they reach one past the last item.\<close>

lemma runs_pos:
  assumes "sorted_wrt (<) (prev # xs)" "unat l + length xs < 2 ^ 64" "0 < l"
  shows "\<forall>p \<in> set (runs prev l xs). 0 < p"
  using assms
proof (induction xs arbitrary: prev l)
  case (Cons x xs)
  have "unat (l + 1) = unat l + 1" using Cons.prems(2) unat_succ [of l "length xs"] by simp
  moreover have "x \<noteq> prev + 1 \<Longrightarrow> 0 < x - prev - 1"
    by (auto simp: word_gt_0 diff_eq_eq add.commute)
  ultimately show ?case
    using Cons.IH [of x "l + 1"] Cons.IH [of x 1] Cons.prems by (auto simp: word_gt_0 simp flip: unat_eq_0)
qed simp

lemma sum_runs:
  assumes "sorted_wrt (<) (prev # xs)" "unat l + length xs < 2 ^ 64" "0 < l"
  shows "sum_list (map unat (runs prev l xs)) + unat prev = unat l + unat (last (prev # xs))"
  using assms
proof (induction xs arbitrary: prev l)
  case (Cons x xs)
  have lt: "prev < x" and sorted: "sorted_wrt (<) (x # xs)" using Cons.prems by auto
  have l: "unat (l + 1) = unat l + 1" using Cons.prems(2) unat_succ [of l "length xs"] by simp
  have p: "unat (prev + 1) = unat prev + 1" using unat_succ_lt [OF lt] .
  then have "unat (x - (prev + 1)) = unat x - (unat prev + 1)" "unat prev + 1 \<le> unat x"
    using lt by (auto simp: unat_sub_le word_le_nat_alt word_less_nat_alt)
  then have gap: "unat (x - prev - 1) + unat prev + 1 = unat x"
    by (simp add: diff_diff_eq)
  show ?case
    using Cons.IH [OF sorted, of "l + 1"] Cons.IH [OF sorted, of 1] Cons.prems(2) l p gap
    by (auto simp: word_gt_0 simp flip: unat_eq_0 split: if_splits)
qed simp

lemma periods_of_pos:
  assumes "sorted_wrt (<) xs" "length xs < 2 ^ 64"
  shows "\<forall>p \<in> set (periods_of xs). 0 < p"
  using assms runs_pos [of "hd xs" "tl xs" 1]
  by (cases xs) (auto simp: periods_of_def word_gt_0)

lemma sum_periods_of:
  assumes "sorted_wrt (<) xs" "length xs < 2 ^ 64" "xs \<noteq> []"
  shows "sum_list (map unat (periods_of xs)) = unat (last xs) + 1"
  using assms sum_runs [of "hd xs" "tl xs" 1]
  by (cases xs) (auto simp: periods_of_def)

lemma encode_bits:
  assumes "sorted_wrt (<) xs" "length xs < 2 ^ 64"
  obtains c k where "(encode oc xs :: (bytes, 'e) result) = Ok c"
    "bits_of (from_vec c) =
       [False, False, xs \<noteq> [] \<and> hd xs = 0] @ concat (map block_bits (periods_of xs)) @ replicate k False"
proof -
  let ?flag = "xs \<noteq> [] \<and> hd xs = 0"
  have flag: "(case map_option (\<lambda>i. i = 0) (case xs of [] \<Rightarrow> None | x # _ \<Rightarrow> Some x) of
      Some b \<Rightarrow> b | None \<Rightarrow> False) = ?flag"
    by (cases xs) auto
  have "appends
      (and_then (init_content bitset_new) (\<lambda>content.
       and_then (push content ?flag) (\<lambda>content. encode_blocks content (periods_of xs)))
         :: (DynamicBitSet, 'e) result)
      bitset_new ([False, False] @ [?flag] @ concat (map block_bits (periods_of xs)))"
    unfolding init_content_def clear_eq_new
    by (intro appends_then appends_push_bits appends_push appends_encode_blocks) simp_all
  then obtain s0 s1 s where s: "(init_content bitset_new :: (_, 'e) result) = Ok s0"
      "(push s0 ?flag :: (_, 'e) result) = Ok s1" "(encode_blocks s1 (periods_of xs) :: (_, 'e) result) = Ok s"
      "bitset_wf s" "bits_of s = [False, False, ?flag] @ concat (map block_bits (periods_of xs))"
    by (auto simp: appends_def and_then_eq_Ok_iff)
  from s(4) obtain k where "bits_of (from_vec (into_vec s)) = bits_of s @ replicate k False"
    by (rule from_into_vec_bits)
  moreover have "(encode oc xs :: (bytes, 'e) result) = Ok (into_vec s)"
    unfolding encode_def get_periods_of [OF assms] Let_def and_then.simps case_prod_conv flag
    by (simp add: s)
  ultimately show ?thesis using that s(5) by simp
qed

end
