(* ===== verification/Rle_Decode.thy ===== *)
theory Rle_Decode
  imports Rle_Encode
begin

text \<open>
  The RLE+ decoder (\<open>primitives/bitfield/rle/src/decode.rs\<close>) at the item type \<open>u64\<close>.

  The decoder walks over a bit set with a cursor. The refinement lemmas read the walk as the
  consumption of a list of bits, and the round trip follows block by block: whatever the encoder
  wrote for a period, the decoder reads back as that period.
\<close>

datatype RleDecodeError = VersionMismatch | DataIndexFailure | UnpackOverflow | MaxSizeExceed

type_synonym 'a rle_result = "('a, RleDecodeError) result"

record BitSetHelper =
  bitset :: DynamicBitSet
  helper_index :: nat
  magnitude :: bool

definition helper_new :: "DynamicBitSet \<Rightarrow> BitSetHelper" where
  "helper_new bs = \<lparr>bitset = bs, helper_index = 0, magnitude = False\<rparr>"

primrec span_loop :: "nat \<Rightarrow> DynamicBitSet \<Rightarrow> nat \<Rightarrow> u64 \<Rightarrow> u64 \<Rightarrow> u64 rle_result" where
  "span_loop 0 bs i value shift = Ok value"
| "span_loop (Suc n) bs i value shift =
    and_then (bitset_bit bs i) (\<lambda>b.
      span_loop n bs (i + 1) (value OR push_bit (unat shift) (if b then 1 else 0)) (shift + 1))"

definition get_span :: "BitSetHelper \<Rightarrow> nat \<Rightarrow> (u64 \<times> BitSetHelper) rle_result" where
  "get_span helper n =
    (let end = helper_index helper + n in
     if bitset_size (bitset helper) < end then Err DataIndexFailure
     else
       and_then (span_loop n (bitset helper) (helper_index helper) 0 0) (\<lambda>value.
         Ok (value, helper\<lparr>helper_index := helper_index helper + n\<rparr>)))"

text \<open>The loops that emit a run: push the current value, then increment it.\<close>

primrec push_run :: "bool \<Rightarrow> nat \<Rightarrow> u64 \<Rightarrow> u64 list \<Rightarrow> (u64 \<times> u64 list) rle_result" where
  "push_run oc 0 value output = Ok (value, output)"
| "push_run oc (Suc n) value output =
    and_then (add_w oc value 1) (\<lambda>value'. push_run oc n value' (output @ [value]))"

type_synonym decode_state = "BitSetHelper \<times> u64 \<times> u64 list"

definition decode_single_block :: "bool \<Rightarrow> decode_state \<Rightarrow> decode_state rle_result" where
  "decode_single_block oc = (\<lambda>(helper, value, output).
    let output = (if magnitude helper then output @ [value] else output);
        helper = helper\<lparr>magnitude := \<not> magnitude helper\<rparr> in
    and_then (add_w oc value 1) (\<lambda>value. Ok (helper, value, output)))"

definition emit_block :: "bool \<Rightarrow> u64 \<Rightarrow> decode_state \<Rightarrow> decode_state rle_result" where
  "emit_block oc len = (\<lambda>(helper, value, output).
    and_then
      (if magnitude helper then push_run oc (unat len) value output
       else and_then (add_w oc value len) (\<lambda>value. Ok (value, output)))
      (\<lambda>(value, output). Ok (helper\<lparr>magnitude := \<not> magnitude helper\<rparr>, value, output)))"

definition decode_small_block :: "bool \<Rightarrow> decode_state \<Rightarrow> decode_state rle_result" where
  "decode_small_block oc = (\<lambda>(helper, value, output).
    and_then (get_span helper SMALL_BLOCK_LENGTH) (\<lambda>(len, helper).
      emit_block oc len (helper, value, output)))"

fun unpack_loop :: "bytes \<Rightarrow> nat \<Rightarrow> u64 \<Rightarrow> u64 rle_result" where
  "unpack_loop [] shift value = Ok value"
| "unpack_loop (byte # data) shift value =
    (if shift > 8 * BYTE_BITS_COUNT then Err UnpackOverflow
     else
       let byte = ucast byte :: u64 in
       if byte < BYTE_SLICE_VALUE then Ok (value OR push_bit shift byte)
       else
         unpack_loop data (shift + PACK_BYTE_SHIFT)
           (value OR push_bit shift (byte AND UNPACK_BYTE_MASK)))"

definition unpack :: "bytes \<Rightarrow> u64 rle_result" where
  "unpack data = unpack_loop data 0 0"

lemma get_span_Ok:
  "get_span helper n = Ok (value, helper') \<Longrightarrow>
     helper' = helper\<lparr>helper_index := helper_index helper + n\<rparr> \<and>
     helper_index helper' \<le> bit_count (bitset helper)"
  by (auto simp: get_span_def Let_def bitset_size_def result_simps split: if_splits)

function read_slices :: "BitSetHelper \<Rightarrow> bytes \<Rightarrow> (bytes \<times> BitSetHelper) rle_result" where
  "read_slices helper bytes =
    and_then (get_span helper BYTE_BITS_COUNT) (\<lambda>(value, helper).
      let sl = ucast value :: u8; bytes = bytes @ [sl] in
      if sl AND ucast BYTE_SLICE_VALUE = 0 then Ok (bytes, helper)
      else read_slices helper bytes)"
  by pat_completeness auto
termination
  by (relation "measure (\<lambda>(helper, bytes). bit_count (bitset helper) - helper_index helper)")
    (auto simp: BYTE_BITS_COUNT_def dest!: get_span_Ok)

declare read_slices.simps [simp del]

definition decode_long_block :: "bool \<Rightarrow> decode_state \<Rightarrow> decode_state rle_result" where
  "decode_long_block oc = (\<lambda>(helper, value, output).
    and_then (read_slices helper []) (\<lambda>(bytes, helper).
    and_then (unpack bytes) (\<lambda>len.
      emit_block oc len (helper, value, output))))"

text \<open>One round of the main loop: the header bits select the kind of block.\<close>

definition decode_block :: "bool \<Rightarrow> decode_state \<Rightarrow> decode_state rle_result" where
  "decode_block oc = (\<lambda>(helper, value, output).
    and_then (get_span helper 1) (\<lambda>(header, helper).
      if header = 1 then decode_single_block oc (helper, value, output)
      else if header = 0 then
        and_then (get_span helper 1) (\<lambda>(block_header, helper).
          if block_header = 0 then decode_long_block oc (helper, value, output)
          else decode_small_block oc (helper, value, output))
      else Ok (helper, value, output)))"

text \<open>Every round consumes at least one bit, so the main loop ends.\<close>

lemma emit_block_Ok:
  "emit_block oc len (helper, value, output) = Ok (helper', st) \<Longrightarrow>
     bitset helper' = bitset helper \<and> helper_index helper' = helper_index helper"
  by (auto simp: emit_block_def result_simps split: if_splits prod.splits)

lemma read_slices_Ok:
  "read_slices helper bytes = Ok (bytes', helper') \<Longrightarrow>
     bitset helper' = bitset helper \<and> helper_index helper < helper_index helper' \<and>
     helper_index helper' \<le> bit_count (bitset helper)"
proof (induction helper bytes rule: read_slices.induct)
  case (1 helper bytes)
  from "1.prems" obtain v h where g: "get_span helper 8 = Ok (v, h)"
    by (subst (asm) read_slices.simps) (auto simp: result_simps BYTE_BITS_COUNT_def)
  note h = get_span_Ok [OF g]
  show ?case
  proof (cases "(ucast v :: u8) AND ucast BYTE_SLICE_VALUE = 0")
    case True
    then show ?thesis
      using "1.prems" g h by (subst (asm) read_slices.simps) (auto simp: BYTE_BITS_COUNT_def Let_def)
  next
    case False
    then have "read_slices h (bytes @ [ucast v]) = Ok (bytes', helper')"
      using "1.prems" g by (subst (asm) read_slices.simps) (simp add: BYTE_BITS_COUNT_def Let_def)
    then show ?thesis
      using "1.IH" [of "(v, h)" v h] g h False by (fastforce simp: BYTE_BITS_COUNT_def)
  qed
qed

lemma decode_block_Ok:
  assumes "decode_block oc (helper, value, output) = Ok (helper', st)"
  shows "bitset helper' = bitset helper \<and> helper_index helper < helper_index helper' \<and>
         helper_index helper' \<le> bit_count (bitset helper)"
  using assms
  by (auto simp: decode_block_def decode_single_block_def decode_small_block_def decode_long_block_def
      result_simps Let_def SMALL_BLOCK_LENGTH_def
      split: if_splits prod.splits dest!: get_span_Ok read_slices_Ok emit_block_Ok)

function decode_loop :: "bool \<Rightarrow> decode_state \<Rightarrow> u64 list rle_result" where
  "decode_loop oc (helper, value, output) =
    and_then (find_next oc (bitset helper) (helper_index helper - 1)) (\<lambda>found.
      if found \<noteq> None then
        and_then (decode_block oc (helper, value, output)) (decode_loop oc)
      else Ok output)"
  by pat_completeness auto
termination
  by (relation "measure (\<lambda>(oc, helper, value, output). bit_count (bitset helper) - helper_index helper)")
    (auto dest!: decode_block_Ok)

declare decode_loop.simps [simp del]

definition decode :: "bool \<Rightarrow> bytes \<Rightarrow> u64 list rle_result" where
  "decode oc data =
    (let helper = helper_new (from_vec data) in
     and_then (get_span helper 2) (\<lambda>(two, helper).
       if bitset_size (bitset helper) < SMALL_BLOCK_LENGTH \<or> two = 1 then Err VersionMismatch
       else
         and_then (get_span helper 1) (\<lambda>(one, helper).
         and_then (decode_loop oc (helper\<lparr>magnitude := (one = 1)\<rparr>, 0, [])) (\<lambda>output.
           if length output > OBJECT_MAX_SIZE div 8 then Err MaxSizeExceed
           else Ok output))))"


subsection \<open>The decoder as a consumer of bits\<close>

definition rest :: "BitSetHelper \<Rightarrow> bool list" where
  "rest h = drop (helper_index h) (bits_of (bitset h))"

abbreviation advance :: "BitSetHelper \<Rightarrow> nat \<Rightarrow> BitSetHelper" where
  "advance h n \<equiv> h\<lparr>helper_index := helper_index h + n\<rparr>"

definition bits_val :: "bool list \<Rightarrow> u64" where
  "bits_val bs = horner_sum of_bool 2 bs"

lemma bits_val_Cons: "bits_val (b # bs) = of_bool b OR push_bit 1 (bits_val bs)"
  by (cases b) (simp_all add: bits_val_def one_or_eq push_bit_double flip: push_bit_of_1)

lemma span_loop_bits:
  assumes "bitset_wf bs" "i + n \<le> bit_count bs" "k + n \<le> 64"
  shows "span_loop n bs i v (of_nat k) = Ok (v OR push_bit k (bits_val (take n (drop i (bits_of bs)))))"
  using assms
proof (induction n arbitrary: i v k)
  case 0
  then show ?case by (simp add: bits_val_def)
next
  case (Suc n)
  have take: "take (Suc n) (drop i (bits_of bs)) = bits_of bs ! i # take n (drop (Suc i) (bits_of bs))"
    using Suc.prems by (simp add: Cons_nth_drop_Suc [symmetric])
  have k: "unat (of_nat k :: u64) = k"
    using Suc.prems by (simp add: unat_of_nat)
  show ?case
    using Suc.IH [of "Suc i" "Suc k"] Suc.prems
    unfolding take bits_val_Cons
    by (simp add: bitset_bit_refines k push_bit_or or.assoc push_bit_push_bit add.commute of_bool_def)
qed

lemma get_span_rest:
  assumes "bitset_wf (bitset h)" "rest h = bs @ ts" "n = length bs" "0 < n" "n \<le> 8"
  shows "get_span h n = Ok (bits_val bs, advance h n)" "rest (advance h n) = ts"
proof -
  have i: "helper_index h + n \<le> bit_count (bitset h)"
  proof -
    have "bit_count (bitset h) - helper_index h = length bs + length ts"
      using assms(2) by (metis length_append length_bits_of length_drop rest_def)
    then show ?thesis using assms(3,4) by linarith
  qed
  then show "get_span h n = Ok (bits_val bs, advance h n)"
    using assms span_loop_bits [of "bitset h" "helper_index h" n 0 0]
    by (simp add: get_span_def bitset_size_def rest_def)
  show "rest (advance h n) = ts"
    using assms by (simp add: rest_def add.commute flip: drop_drop)
qed

lemma bits_val_word_bits: "n \<le> LENGTH('l) \<Longrightarrow> bits_val (word_bits n w) = take_bit n (ucast (w::'l::len word))"
  by (rule bit_word_eqI)
    (auto simp: bits_val_def word_bits_def bit_horner_sum_bit_word_iff bit_simps)

lemma ucast_take_bit_8: "take_bit 8 (ucast (b :: u8) :: u64) = ucast b"
  by (simp add: take_bit_word_eq_self flip: unsigned_take_bit_eq)

lemma bits_val_byte: "bits_val (word_bits 8 b) = ucast (b :: u8)"
  using bits_val_word_bits [of 8 b] by (simp add: ucast_take_bit_8)

text \<open>The effect of one period on the decoder's output.\<close>

definition period_effect :: "u64 \<Rightarrow> decode_state \<Rightarrow> decode_state" where
  "period_effect p = (\<lambda>(h, v, out).
    (h\<lparr>magnitude := \<not> magnitude h\<rparr>, v + p, out @ (if magnitude h then interval v p else [])))"

lemma push_run_Ok:
  assumes "oc \<longrightarrow> unat v + n < 2 ^ 64"
  shows "push_run oc n v out = Ok (v + of_nat n, out @ map (\<lambda>i. v + of_nat i) [0..<n])"
  using assms
proof (induction n arbitrary: v out)
  case (Suc n)
  have "(add_w oc v 1 :: u64 rle_result) = Ok (v + 1)" "oc \<longrightarrow> unat (v + 1) + n < 2 ^ 64"
    using Suc.prems unat_succ [of v n] by (auto intro!: add_w_Ok simp: add_w_def)
  moreover have "map (\<lambda>i. v + of_nat i) [0..<Suc n] = v # map (\<lambda>i. v + 1 + of_nat i) [0..<n]"
    by (simp add: upt_conv_Cons map_Suc_upt [symmetric] o_def algebra_simps del: upt_Suc)
  ultimately show ?case
    using Suc.IH [of "v + 1" "out @ [v]"] by (simp add: algebra_simps del: upt_Suc)
qed simp

lemma emit_block_period:
  assumes "oc \<longrightarrow> unat v + unat p < 2 ^ 64"
  shows "emit_block oc p (h, v, out) = Ok (period_effect p (h, v, out))"
  using assms push_run_Ok [of oc v "unat p" out]
  by (auto simp: emit_block_def period_effect_def interval_def add_w_def)

lemma decode_single_block_period:
  assumes "oc \<longrightarrow> unat v + 1 < 2 ^ 64"
  shows "decode_single_block oc (h, v, out) = Ok (period_effect 1 (h, v, out))"
  using assms by (auto simp: decode_single_block_def period_effect_def add_w_def Let_def)

lemma bit_128: "bit (128 :: 'l::len word) n \<longleftrightarrow> n = 7 \<and> 7 < LENGTH('l)"
  using bit_exp_iff [of 7 n, where 'a = "'l word"] by auto

lemma bit_128_int: "bit (128 :: int) n \<longleftrightarrow> n = 7"
  using bit_exp_iff [of 7 n, where 'a = int] by auto

lemma word_less_128: "(w::u64) < 128 \<longleftrightarrow> take_bit 7 w = w"
  by (simp add: word_unat_eq_iff word_less_nat_alt unsigned_take_bit_eq take_bit_nat_eq_self_iff)

lemma and_127: "w AND 127 = take_bit 7 w" for w :: u64
  using take_bit_eq_mask [of 7 w] by (simp add: mask_eq_exp_minus_1)

lemma bit_slice_more:
  "bit (ucast (w OR 128 :: u64) :: u8) n \<longleftrightarrow> n < 8 \<and> (bit w n \<or> n = 7)"
  "bit (ucast (ucast (w OR 128 :: u64) :: u8) :: u64) n \<longleftrightarrow> n < 8 \<and> (bit w n \<or> n = 7)"
  by (auto simp: bit_simps bit_128_int)

lemma slice_more:
  fixes w :: u64
  shows "(ucast (w OR 128) :: u8) AND 128 \<noteq> 0"
    and "take_bit 7 (ucast (ucast (w OR 128) :: u8)) = take_bit 7 w"
    and "\<not> (ucast (ucast (w OR 128) :: u8) :: u64) < 128"
proof -
  have "bit ((ucast (w OR 128) :: u8) AND 128) 7"
    unfolding bit_and_iff bit_slice_more bit_128 by simp
  then show "(ucast (w OR 128) :: u8) AND 128 \<noteq> 0" by (metis bit_0_eq bot_apply bot_bool_def)
  show "take_bit 7 (ucast (ucast (w OR 128) :: u8)) = take_bit 7 w"
    by (rule bit_word_eqI) (auto simp only: bit_take_bit_iff bit_slice_more)
  show "\<not> (ucast (ucast (w OR 128) :: u8) :: u64) < 128"
    unfolding word_less_128 by (metis bit_slice_more(2) bit_take_bit_iff less_irrefl numeral_less_iff semiring_norm(76) semiring_norm(81))
qed

lemma slice_last:
  fixes w :: u64
  assumes "w < 128"
  shows "(ucast w :: u8) AND 128 = 0" "ucast (ucast w :: u8) = w"
proof -
  have w: "bit w n \<Longrightarrow> n < 7" for n
    using assms unfolding word_less_128 by (metis bit_take_bit_iff)
  show "(ucast w :: u8) AND 128 = 0"
    using w [of 7] by (intro bit_word_eqI) (auto simp: bit_simps bit_128_int)
  show "ucast (ucast w :: u8) = w"
    by (rule bit_word_eqI) (use w in \<open>auto simp: bit_simps\<close>, fastforce)
qed

lemma read_slices_long:
  assumes "bitset_wf (bitset h)" "rest h = concat (map (word_bits 8) (long_bytes p)) @ ts"
  shows "\<exists>n. read_slices h acc = Ok (acc @ long_bytes p, advance h n) \<and> rest (advance h n) = ts"
  using assms
proof (induction p arbitrary: h acc rule: long_bytes.induct)
  case (1 p)
  show ?case
  proof (cases "p \<ge> 128")
    case True
    let ?b = "ucast (p OR 128) :: u8" and ?bs = "long_bytes (drop_bit 7 p)"
    have lb: "long_bytes p = ?b # ?bs" using True by (subst long_bytes.simps) simp
    have "rest h = word_bits 8 ?b @ concat (map (word_bits 8) ?bs) @ ts"
      using "1.prems"(2) lb by simp
    note g = get_span_rest [OF "1.prems"(1) this]
    have span: "get_span h 8 = Ok (ucast ?b, advance h 8)"
      using g(1) [of 8] bits_val_byte [of ?b] by simp
    have "read_slices h acc = read_slices (advance h 8) (acc @ [?b])"
      using span slice_more(1) [of p] ucast_ucast_8 [of ?b]
      by (subst read_slices.simps) (simp add: BYTE_BITS_COUNT_def BYTE_SLICE_VALUE_def Let_def)
    moreover obtain n where
      "read_slices (advance h 8) (acc @ [?b]) = Ok ((acc @ [?b]) @ ?bs, advance (advance h 8) n)"
      "rest (advance (advance h 8) n) = ts"
      using "1.IH" [OF True, of "advance h 8" "acc @ [?b]"] "1.prems"(1) g(2) [of 8] by auto
    ultimately show ?thesis
      using lb by (intro exI [of _ "8 + n"]) (simp add: add.assoc)
  next
    case False
    then have lb: "long_bytes p = [ucast p]" by (subst long_bytes.simps) simp
    then have "rest h = word_bits 8 (ucast p :: u8) @ ts" using "1.prems"(2) by simp
    note g = get_span_rest [OF "1.prems"(1) this]
    have "get_span h 8 = Ok (ucast (ucast p :: u8), advance h 8)"
      using g(1) [of 8] bits_val_byte [of "ucast p"] by simp
    then have "read_slices h acc = Ok (acc @ [ucast p], advance h 8)"
      using slice_last [of p] False ucast_ucast_8 [of "ucast p"]
      by (subst read_slices.simps) (simp add: BYTE_BITS_COUNT_def BYTE_SLICE_VALUE_def Let_def)
    then show ?thesis using lb g(2) [of 8] by auto
  qed
qed


lemma split_at_7: "push_bit k (take_bit 7 p) OR push_bit (k + 7) (drop_bit 7 p) = push_bit k (p :: u64)"
proof -
  have "take_bit 7 p OR push_bit 7 (drop_bit 7 p) = p"
  proof (rule bit_word_eqI)
    fix n assume "n < LENGTH(64)"
    then show "bit (take_bit 7 p OR push_bit 7 (drop_bit 7 p)) n = bit p n"
      by (cases "n < 7") (auto simp: bit_simps)
  qed
  then show ?thesis by (metis add.commute push_bit_or push_bit_push_bit)
qed

lemma unat_drop_7: "unat (drop_bit 7 p) = unat p div 128" for p :: u64
  unfolding unat_drop_bit_eq by (simp add: drop_bit_eq_div)

lemma shift_bound:
  fixes m :: nat
  assumes "128 \<le> m" "m < 2 ^ k"
  shows "7 < k" "m div 128 < 2 ^ (k - 7)"
proof -
  show k: "7 < k"
  proof (rule ccontr)
    assume "\<not> 7 < k"
    then have "(2::nat) ^ k \<le> 2 ^ 7" by (intro power_increasing) auto
    then show False using assms by simp
  qed
  have "(2::nat) ^ k = 2 ^ (k - 7) * 128"
    using k power_add [of "2::nat" "k - 7" 7] by simp
  then show "m div 128 < 2 ^ (k - 7)"
    using assms(2) by (simp add: less_mult_imp_div_less)
qed

lemma unpack_long:
  assumes "k < 64" "unat p < 2 ^ (64 - k)"
  shows "unpack_loop (long_bytes p) k v = Ok (v OR push_bit k p)"
  using assms
proof (induction p arbitrary: k v rule: long_bytes.induct)
  case (1 p)
  show ?case
  proof (cases "p \<ge> 128")
    case True
    have "128 \<le> unat p" using True by (simp add: word_le_nat_alt)
    note b = shift_bound [OF this "1.prems"(2)]
    have "unpack_loop (long_bytes (drop_bit 7 p)) (k + 7) (v OR push_bit k (take_bit 7 p)) =
        Ok ((v OR push_bit k (take_bit 7 p)) OR push_bit (k + 7) (drop_bit 7 p))"
      using b unat_drop_7 [of p] by (intro "1.IH" [OF True]) simp_all
    then show ?thesis
      using True "1.prems"(1) slice_more [of p] split_at_7 [of k p]
      by (subst long_bytes.simps) (simp add: rle_config and_127 or.assoc)
  next
    case False
    then show ?thesis
      using "1.prems"(1) slice_last [of p] by (subst long_bytes.simps) (simp add: rle_config)
  qed
qed


lemma bits_val_single [simp]: "bits_val [b] = of_bool b"
  by (simp add: bits_val_def)

lemma decode_block_period:
  assumes wf: "bitset_wf (bitset h)" and r: "rest h = block_bits p @ ts"
    and "0 < p" "oc \<longrightarrow> unat v + unat p < 2 ^ 64"
  shows "\<exists>n. decode_block oc (h, v, out) = Ok (period_effect p (advance h n, v, out)) \<and> rest (advance h n) = ts"
proof -
  consider "p = 1" | "p \<noteq> 1" "p < 16" | "p \<noteq> 1" "\<not> p < 16" by blast
  then show ?thesis
  proof cases
    case 1
    note g = get_span_rest [OF wf, of "[True]" ts 1]
    have "decode_block oc (h, v, out) = Ok (period_effect p (advance h 1, v, out))"
      using g(1) r 1 assms(4) by (simp add: decode_block_def decode_single_block_period block_bits_def)
    then show ?thesis using g(2) r 1 by (intro exI [of _ 1]) (simp add: block_bits_def)
  next
    case 2
    let ?t = "True # word_bits 4 p @ ts"
    note g = get_span_rest [OF wf, of "[False]" ?t 1]
    note g' = get_span_rest [of "advance h 1" "[True]" "word_bits 4 p @ ts" 1]
    note g'' = get_span_rest [of "advance h 2" "word_bits 4 p" ts 4]
    have "take_bit 4 p = p"
      using 2 by (simp add: word_unat_eq_iff word_less_nat_alt unsigned_take_bit_eq take_bit_nat_eq_self_iff)
    then have len: "bits_val (word_bits 4 p) = p" by (simp add: bits_val_word_bits)
    have "decode_block oc (h, v, out) = Ok (period_effect p (advance h 6, v, out))"
      using g g' g'' r wf 2 len assms(4)
      by (simp add: decode_block_def decode_small_block_def emit_block_period block_bits_def rle_config
          add.commute [of 6])
    then show ?thesis using g g' g'' r wf 2 by (intro exI [of _ 6]) (simp add: block_bits_def add.commute [of 6])
  next
    case 3
    let ?c = "concat (map (word_bits 8) (long_bytes p))"
    note g = get_span_rest [OF wf, of "[False]" "False # ?c @ ts" 1]
    note g' = get_span_rest [of "advance h 1" "[False]" "?c @ ts" 1]
    obtain n where n: "read_slices (advance h 2) [] = Ok (long_bytes p, advance (advance h 2) n)"
      "rest (advance (advance h 2) n) = ts"
      using read_slices_long [of "advance h 2" p ts "[]"] g g' r wf 3 by (auto simp: block_bits_def)
    have "unpack (long_bytes p) = Ok p"
      using unpack_long [of 0 p 0] unat_u64_bound [of p] by (simp add: unpack_def)
    then have "decode_block oc (h, v, out) = Ok (period_effect p (advance (advance h 2) n, v, out))"
      using g g' n r wf 3 assms(4)
      by (simp add: decode_block_def decode_long_block_def emit_block_period block_bits_def)
    then show ?thesis using n(2) by (intro exI [of _ "2 + n"]) (simp add: add.assoc)
  qed
qed

lemma True_in_long: "p \<noteq> 0 \<Longrightarrow> \<exists>b \<in> set (long_bytes p). True \<in> set (word_bits 8 b)"
proof -
  assume "p \<noteq> 0"
  show ?thesis
  proof (cases "p \<ge> 128")
    case True
    then have "ucast (p OR 128) \<in> set (long_bytes p)" by (subst long_bytes.simps) simp
    moreover have "True \<in> set (word_bits 8 (ucast (p OR 128) :: u8))"
      using bit_slice_more(1) [of p 7] by (force simp: word_bits_def image_iff)
    ultimately show ?thesis by blast
  next
    case False
    then have mem: "ucast p \<in> set (long_bytes p)" by (subst long_bytes.simps) simp
    have "ucast p \<noteq> (0 :: u8)"
      using slice_last(2) [of p] False \<open>p \<noteq> 0\<close> by (metis not_le unsigned_0)
    then obtain i where "bit (ucast p :: u8) i" "i < 8"
      by (auto simp: bit_eq_iff dest: bit_imp_le_length)
    then have "True \<in> set (word_bits 8 (ucast p :: u8))"
      by (force simp: word_bits_def image_iff)
    with mem show ?thesis by blast
  qed
qed

lemma True_in_block: "0 < p \<Longrightarrow> True \<in> set (block_bits p)"
  using True_in_long [of p] by (auto simp: block_bits_def word_gt_0)

lemma find_rest:
  assumes "0 < helper_index h"
  shows "List.find (\<lambda>i. bits_of (bitset h) ! i) [helper_index h - 1 + 1..<bit_count (bitset h)] = None \<longleftrightarrow>
         True \<notin> set (rest h)"
proof -
  have "True \<in> set (rest h) \<longleftrightarrow> (\<exists>i. helper_index h \<le> i \<and> i < bit_count (bitset h) \<and> bits_of (bitset h) ! i)"
    unfolding rest_def in_set_conv_nth
    by (auto simp: less_diff_conv2) (metis add.commute le_Suc_ex less_diff_conv nth_drop le_add1)+
  then show ?thesis using assms by (auto simp: find_upt_None_iff)
qed

lemma decode_loop_periods:
  assumes "bitset_wf (bitset h)" "0 < bit_count (bitset h)" "0 < helper_index h"
    and "rest h = concat (map block_bits ps) @ replicate k False" "\<forall>p \<in> set ps. 0 < p"
    and "oc \<longrightarrow> unat v + sum_list (map unat ps) < 2 ^ 64"
  shows "decode_loop oc (h, v, out) = Ok (out @ expand (magnitude h) v ps)"
  using assms
proof (induction ps arbitrary: h v out)
  case Nil
  then show ?case
    using find_rest [OF Nil.prems(3)] by (subst decode_loop.simps) (simp add: find_next_refines)
next
  case (Cons p ps)
  have "True \<in> set (rest h)" using Cons.prems(4,5) True_in_block [of p] by simp
  then have unf: "decode_loop oc (h, v, out) = and_then (decode_block oc (h, v, out)) (decode_loop oc)"
    using find_rest [OF Cons.prems(3)] Cons.prems(1,2)
    by (subst decode_loop.simps) (simp add: find_next_refines)
  have pv: "oc \<longrightarrow> unat v + unat p < 2 ^ 64" using Cons.prems(6) by auto
  obtain n where n: "decode_block oc (h, v, out) = Ok (period_effect p (advance h n, v, out))"
      "rest (advance h n) = concat (map block_bits ps) @ replicate k False"
    using decode_block_period [OF Cons.prems(1) _ _ pv] Cons.prems(4,5) by fastforce
  let ?h = "(advance h n)\<lparr>magnitude := \<not> magnitude h\<rparr>"
  have "oc \<longrightarrow> unat (v + p) + sum_list (map unat ps) < 2 ^ 64"
    using Cons.prems(6) pv by (auto simp: unat_add_lem [THEN iffD1])
  moreover have "rest ?h = rest (advance h n)" by (simp add: rest_def)
  ultimately have "decode_loop oc (?h, v + p, out @ (if magnitude h then interval v p else [])) =
      Ok ((out @ (if magnitude h then interval v p else [])) @ expand (\<not> magnitude h) (v + p) ps)"
    using Cons.IH [of ?h "v + p"] Cons.prems(1-3,5) n(2) by simp
  then show ?case using unf n(1) by (simp add: period_effect_def)
qed

text \<open>Whatever the encoder writes for an ascending sequence, the decoder reads back.\<close>

lemma decode_encode:
  assumes "sorted_wrt (<) xs" "length xs \<le> OBJECT_MAX_SIZE div 8"
    and "oc \<longrightarrow> xs = [] \<or> unat (last xs) + 1 < 2 ^ 64"
  shows "and_then (encode oc' xs) (decode oc) = Ok xs"
proof -
  let ?flag = "xs \<noteq> [] \<and> hd xs = 0"
  have len: "length xs < 2 ^ 64" using assms(2) by (simp add: OBJECT_MAX_SIZE_def)
  obtain c k where c: "(encode oc' xs :: bytes rle_result) = Ok c"
    "bits_of (from_vec c) =
       [False, False, ?flag] @ concat (map block_bits (periods_of xs)) @ replicate k False"
    using encode_bits [OF assms(1) len] by metis
  let ?h = "helper_new (from_vec c)"
  have wf: "bitset_wf (bitset ?h)" by (simp add: helper_new_def)
  have r: "rest ?h = [False, False] @ [?flag] @ concat (map block_bits (periods_of xs)) @ replicate k False"
    using c(2) by (simp add: rest_def helper_new_def)
  note g = get_span_rest [OF wf r, of 2]
  note g' = get_span_rest [of "advance ?h 2", OF _ g(2), of 1]
  have "3 \<le> bit_count (from_vec c)" using arg_cong [OF c(2), of length] by simp
  then have "8 \<le> bit_count (from_vec c)"
    by (cases c) (auto simp: from_vec_def BYTE_LEN_def)
  then have size: "\<not> bitset_size (from_vec c) < SMALL_BLOCK_LENGTH" "0 < bit_count (from_vec c)"
    by (auto simp: bitset_size_def SMALL_BLOCK_LENGTH_def)
  have sum: "oc \<longrightarrow> unat (0::u64) + sum_list (map unat (periods_of xs)) < 2 ^ 64"
    using assms(1,3) sum_periods_of [OF assms(1) len] by (cases "xs = []") (auto simp: periods_of_def)
  let ?h3 = "(advance (advance ?h 2) 1)\<lparr>magnitude := ?flag\<rparr>"
  have "decode_loop oc (?h3, 0, []) = Ok ([] @ expand ?flag 0 (periods_of xs))"
    using g' wf size(2) periods_of_pos [OF assms(1) len] sum
    by (subst decode_loop_periods [where k = k]) (auto simp: helper_new_def rest_def)
  then have "decode oc c = Ok xs"
    using g(1) g'(1) wf size(1) assms(2) expand_periods_of [OF assms(1) len]
    by (simp add: decode_def Let_def helper_new_def bits_val_def)
  then show ?thesis using c(1) by simp
qed


subsection \<open>Safety of the decoder on arbitrary input\<close>

lemma get_span_no_panic:
  assumes "bitset_wf (bitset h)" "n \<le> 64"
  shows "get_span h n \<noteq> Panic"
  using assms span_loop_bits [of "bitset h" "helper_index h" n 0 0]
  by (auto simp: get_span_def Let_def bitset_size_def result_simps)

lemma push_run_wrap: "push_run False n v out \<noteq> Panic"
  using push_run_Ok [of False v n out] by simp

lemma emit_block_no_panic: "emit_block False len st \<noteq> Panic"
  by (cases st) (auto simp: emit_block_def result_simps push_run_wrap)

lemma unpack_no_panic: "unpack_loop data k v \<noteq> Panic"
  by (induction data k v rule: unpack_loop.induct) (simp_all add: Let_def)

lemma read_slices_no_panic: "bitset_wf (bitset h) \<Longrightarrow> read_slices h acc \<noteq> Panic"
proof (induction h acc rule: read_slices.induct)
  case (1 h acc)
  have "read_slices b (acc @ [ucast a]) \<noteq> Panic"
    if "get_span h 8 = Ok (a, b)" "(ucast a :: u8) AND ucast BYTE_SLICE_VALUE \<noteq> 0" for a b
    using "1.IH" [of "(a, b)" a b] get_span_Ok [OF that(1)] that "1.prems" by (simp add: BYTE_BITS_COUNT_def)
  then show ?case
    using "1.prems" get_span_no_panic [of h 8]
    by (subst read_slices.simps) (auto simp: result_simps BYTE_BITS_COUNT_def Let_def)
qed

lemma decode_block_no_panic:
  "bitset_wf (bitset h) \<Longrightarrow> decode_block False (h, v, out) \<noteq> Panic"
  using get_span_no_panic [of h 1]
  by (auto simp: decode_block_def decode_single_block_def decode_small_block_def decode_long_block_def
      result_simps Let_def emit_block_no_panic unpack_def unpack_no_panic read_slices_no_panic
      get_span_no_panic SMALL_BLOCK_LENGTH_def dest!: get_span_Ok read_slices_Ok)

lemma decode_loop_no_panic:
  "bitset_wf (bitset h) \<Longrightarrow> 0 < bit_count (bitset h) \<Longrightarrow> decode_loop False (h, v, out) \<noteq> Panic"
proof (induction "bit_count (bitset h) - helper_index h" arbitrary: h v out rule: less_induct)
  case less
  have "decode_loop False (h', v', out') \<noteq> Panic"
    if "decode_block False (h, v, out) = Ok (h', v', out')" for h' v' out'
    using decode_block_Ok [OF that] less.prems less.hyps [of h' v' out']
    by (auto simp: diff_less_mono2)
  then show ?case
    using less.prems decode_block_no_panic [of h v out]
    by (subst decode_loop.simps) (auto simp: find_next_refines result_simps)
qed

lemma decode_no_panic: "decode False data \<noteq> Panic"
proof -
  let ?h = "helper_new (from_vec data)"
  have wf: "bitset_wf (bitset ?h)" by (simp add: helper_new_def)
  show ?thesis
    using get_span_no_panic [OF wf, of 2]
    by (auto simp: decode_def Let_def result_simps helper_new_def bitset_size_def SMALL_BLOCK_LENGTH_def
        get_span_no_panic decode_loop_no_panic dest!: get_span_Ok)
qed

definition ascending_below :: "u64 \<Rightarrow> u64 list \<Rightarrow> bool" where
  "ascending_below v out \<longleftrightarrow> sorted_wrt (<) out \<and> (\<forall>x \<in> set out. x < v)"

lemma ascending_below_mono: "ascending_below v out \<Longrightarrow> v \<le> v' \<Longrightarrow> ascending_below v' out"
  by (auto simp: ascending_below_def)

lemma add_w_checked_less: "add_w True v p = Ok v' \<Longrightarrow> v \<le> v' \<and> (0 < p \<longrightarrow> v < v')"
  by (drule add_w_checked_unat) (simp add: word_le_nat_alt word_less_nat_alt)

lemma ascending_below_snoc:
  "ascending_below v out \<Longrightarrow> add_w True v 1 = Ok v' \<Longrightarrow> ascending_below v' (out @ [v])"
  by (drule add_w_checked_less) (auto simp: ascending_below_def sorted_wrt_append intro: less_trans)

lemma push_run_ascending:
  "push_run True n v out = Ok (v', out') \<Longrightarrow> ascending_below v out \<Longrightarrow> ascending_below v' out'"
proof (induction n arbitrary: v out)
  case (Suc n)
  then obtain w where "(add_w True v 1 :: u64 rle_result) = Ok w" "push_run True n w (out @ [v]) = Ok (v', out')"
    by (auto simp: result_simps)
  with Suc.IH Suc.prems(2) ascending_below_snoc show ?case by blast
qed simp

lemma emit_block_ascending:
  "emit_block True len (h, v, out) = Ok (h', v', out') \<Longrightarrow> ascending_below v out \<Longrightarrow> ascending_below v' out'"
  by (auto simp: emit_block_def result_simps split: if_splits
      intro: push_run_ascending ascending_below_mono dest!: add_w_checked_less)

lemma decode_block_ascending:
  "decode_block True (h, v, out) = Ok (h', v', out') \<Longrightarrow> ascending_below v out \<Longrightarrow> ascending_below v' out'"
  by (auto simp: decode_block_def decode_single_block_def decode_small_block_def decode_long_block_def
      result_simps Let_def split: if_splits
      intro: emit_block_ascending ascending_below_snoc ascending_below_mono dest: add_w_checked_less)

lemma decode_loop_ascending:
  "decode_loop True (h, v, out) = Ok out' \<Longrightarrow> ascending_below v out \<Longrightarrow> \<exists>v'. ascending_below v' out'"
proof (induction "bit_count (bitset h) - helper_index h" arbitrary: h v out rule: less_induct)
  case less
  show ?case
  proof (cases "\<exists>st. decode_block True (h, v, out) = Ok st \<and> decode_loop True st = Ok out'")
    case True
    then obtain h1 v1 out1 where 1: "decode_block True (h, v, out) = Ok (h1, v1, out1)"
      "decode_loop True (h1, v1, out1) = Ok out'" by auto
    then show ?thesis
      using decode_block_Ok [OF 1(1)] decode_block_ascending [OF 1(1) less.prems(2)] less.hyps [of h1 v1 out1]
      by auto
  next
    case False
    then have "out' = out"
      using less.prems(1) by (subst (asm) decode_loop.simps) (auto simp: result_simps split: if_splits)
    then show ?thesis using less.prems(2) by blast
  qed
qed

lemma decode_ascending: "decode True data = Ok out \<Longrightarrow> \<exists>v. ascending_below v out"
  by (auto simp: decode_def Let_def result_simps split: if_splits
      dest!: decode_loop_ascending [where out = "[]"]) (auto simp: ascending_below_def)

lemma decode_size: "decode oc data = Ok out \<Longrightarrow> length out \<le> OBJECT_MAX_SIZE div 8"
  by (auto simp: decode_def Let_def result_simps split: if_splits)

text \<open>Evaluating the decoder on a concrete input, header first.\<close>

lemma decode_header:
  assumes "map_ok fst (get_span (helper_new (from_vec data)) 2) = Ok two" "two \<noteq> 1"
    and "map_ok fst (get_span \<lparr>bitset = from_vec data, helper_index = 2, magnitude = False\<rparr> 1) = Ok one"
    and "SMALL_BLOCK_LENGTH \<le> bit_count (from_vec data)"
    and "decode_loop oc (\<lparr>bitset = from_vec data, helper_index = 3, magnitude = (one = 1)\<rparr>, 0, []) = res"
  shows "decode oc data =
    and_then res (\<lambda>output. if length output > OBJECT_MAX_SIZE div 8 then Err MaxSizeExceed else Ok output)"
proof -
  let ?h = "\<lambda>i. \<lparr>bitset = from_vec data, helper_index = i, magnitude = False\<rparr>"
  have "get_span (?h 0) 2 = Ok (two, ?h 2)"
    using assms(1) get_span_Ok [of "?h 0" 2] by (auto simp: result_simps helper_new_def)
  moreover have "get_span (?h 2) 1 = Ok (one, ?h 3)"
    using assms(3) get_span_Ok [of "?h 2" 1] by (auto simp: result_simps)
  ultimately show ?thesis
    using assms by (simp add: decode_def Let_def helper_new_def bitset_size_def)
qed


subsection \<open>Properties\<close>






text \<open>
  In a build with overflow checks the codec loses \<open>u64::MAX\<close>: its encoding is written without
  complaint but the decoder panics on it, while the release build reads it back.
\<close>

lemma rle_max_value:
  "\<exists>b. (encode True [- 1] :: bytes rle_result) = Ok b \<and> decode True b = Panic \<and> decode False b = Ok [- 1]"
proof -
  have "(encode True [- 1] :: bytes rle_result) = Ok [224, 255, 255, 255, 255, 255, 255, 255, 255, 63, 32]"
    by code_simp
  moreover have "decode True [224, 255, 255, 255, 255, 255, 255, 255, 255, 63, 32] = Panic"
    by (subst decode_header [where two = 0 and one = 0 and res = "Panic"])
      (code_simp, simp, code_simp, code_simp, code_simp, simp add: OBJECT_MAX_SIZE_def)
  moreover have "decode False [224, 255, 255, 255, 255, 255, 255, 255, 255, 63, 32] = Ok [- 1]"
    by (subst decode_header [where two = 0 and one = 0 and res = "Ok [- 1]"])
      (code_simp, simp, code_simp, code_simp, code_simp, simp add: OBJECT_MAX_SIZE_def)
  ultimately show ?thesis by blast
qed

text \<open>
  The version field is not checked as a version: of the two-bit header values only 1 is
  refused, and the values 2 and 3, which the encoder never writes, are accepted as version 0 is.
\<close>

lemma rle_version_check:
  "decode True [0x15, 1] = Err VersionMismatch \<and>
   decode True [0x14, 1] = Ok [0, 1, 2, 3, 4, 5, 6, 7] \<and>
   decode True [0x16, 1] = Ok [0, 1, 2, 3, 4, 5, 6, 7] \<and>
   decode True [0x17, 1] = Ok [0, 1, 2, 3, 4, 5, 6, 7]"
proof (intro conjI)
  have "map_ok fst (get_span (helper_new (from_vec [0x15, 1])) 2) = Ok 1" by code_simp
  then show "decode True [0x15, 1] = Err VersionMismatch"
    by (auto simp: decode_def Let_def result_simps)
  show "decode True [0x14, 1] = Ok [0, 1, 2, 3, 4, 5, 6, 7]"
    by (subst decode_header [where two = 0 and one = 1 and res = "Ok [0, 1, 2, 3, 4, 5, 6, 7]"])
      (code_simp, simp, code_simp, code_simp, code_simp, simp add: OBJECT_MAX_SIZE_def)
  show "decode True [0x16, 1] = Ok [0, 1, 2, 3, 4, 5, 6, 7]"
    by (subst decode_header [where two = 2 and one = 1 and res = "Ok [0, 1, 2, 3, 4, 5, 6, 7]"])
      (code_simp, simp, code_simp, code_simp, code_simp, simp add: OBJECT_MAX_SIZE_def)
  show "decode True [0x17, 1] = Ok [0, 1, 2, 3, 4, 5, 6, 7]"
    by (subst decode_header [where two = 3 and one = 1 and res = "Ok [0, 1, 2, 3, 4, 5, 6, 7]"])
      (code_simp, simp, code_simp, code_simp, code_simp, simp add: OBJECT_MAX_SIZE_def)
qed

end
