(* ===== verification/Codec_Libs.thy ===== *)
theory Codec_Libs
  imports Plum_Prelude
begin

text \<open>
  The interface of the external libraries that the CBOR codecs of the repository call: the
  \<open>minicbor\<close> encoder and decoder, the codec and the hash-based constructor of the \<open>cid\<close> crate, and
  the big-endian conversions of \<open>num_bigint\<close>.

  None of these is part of the repository, so they are a parameter \<open>lib\<close> of every codec. An encoder
  appends to a byte vector, hence an encoding operation is the byte sequence it appends; a
  decoding operation reads a prefix of its input and returns the rest. The documented
  behaviour the codecs rely on is collected in the locale \<open>codec_libs\<close>: what was written by an
  operation is read back by its counterpart, whatever follows in the input.

  \<open>e_vec\<close> and \<open>d_vec\<close> are the library's codec of \<open>Vec<T>\<close>. Encoding gets the encodings
  of the elements; decoding gets the step that reads one element, and returns the inputs at which
  the elements start, with the remaining input.
\<close>

datatype cbor_error = Message string | TypeMismatch u8 string | Library string

type_synonym 'a cbor = "('a, cbor_error) result"

datatype sign = Plus | Minus | NoSign

record 'cid libs =
  e_array :: "u64 \<Rightarrow> bytes"
  d_array :: "bytes \<Rightarrow> (u64 option \<times> bytes) cbor"
  e_bytes :: "bytes \<Rightarrow> bytes"
  d_bytes :: "bytes \<Rightarrow> (bytes \<times> bytes) cbor"
  e_str :: "string \<Rightarrow> bytes"
  d_str :: "bytes \<Rightarrow> (string \<times> bytes) cbor"
  e_u8 :: "u8 \<Rightarrow> bytes"
  d_u8 :: "bytes \<Rightarrow> (u8 \<times> bytes) cbor"
  e_u64 :: "u64 \<Rightarrow> bytes"
  d_u64 :: "bytes \<Rightarrow> (u64 \<times> bytes) cbor"
  e_i64 :: "u64 \<Rightarrow> bytes"
  d_i64 :: "bytes \<Rightarrow> (u64 \<times> bytes) cbor"
  e_vec :: "bytes list \<Rightarrow> bytes"
  d_vec :: "(bytes \<Rightarrow> bytes cbor) \<Rightarrow> bytes \<Rightarrow> (bytes list \<times> bytes) cbor"
  e_cid :: "'cid \<Rightarrow> bytes"
  d_cid :: "bytes \<Rightarrow> ('cid \<times> bytes) cbor"
  cid_v1_dag_cbor :: "bytes \<Rightarrow> 'cid"
  to_bytes_be :: "int \<Rightarrow> sign \<times> bytes"
  from_bytes_be :: "sign \<Rightarrow> bytes \<Rightarrow> int"
  u_to_bytes_be :: "nat \<Rightarrow> bytes"
  u_from_bytes_be :: "bytes \<Rightarrow> nat"
  cid_le :: "'cid \<Rightarrow> 'cid \<Rightarrow> bool"

text \<open>
  A codec of the values that satisfy \<open>ok\<close>: the decoder reads back what the encoder wrote and leaves
  the rest of the input alone.
\<close>

definition codec :: "('a \<Rightarrow> bool) \<Rightarrow> ('a \<Rightarrow> bytes) \<Rightarrow> (bytes \<Rightarrow> ('a \<times> bytes, 'e) result) \<Rightarrow> bool" where
  "codec ok enc dec \<longleftrightarrow> (\<forall>x r. ok x \<longrightarrow> dec (enc x @ r) = Ok (x, r))"

abbreviation anything :: "'a \<Rightarrow> bool" where
  "anything \<equiv> \<lambda>_. True"

definition encode_vec :: "'cid libs \<Rightarrow> ('a \<Rightarrow> bytes) \<Rightarrow> 'a list \<Rightarrow> bytes" where
  "encode_vec lib enc xs = e_vec lib (map enc xs)"

fun decode_all :: "(bytes \<Rightarrow> ('a \<times> bytes, 'e) result) \<Rightarrow> bytes list \<Rightarrow> ('a list, 'e) result" where
  "decode_all dec [] = Ok []"
| "decode_all dec (b # bs) =
    and_then (dec b) (\<lambda>(x, _). and_then (decode_all dec bs) (\<lambda>xs. Ok (x # xs)))"

definition decode_vec :: "'cid libs \<Rightarrow> (bytes \<Rightarrow> ('a \<times> bytes) cbor) \<Rightarrow> bytes \<Rightarrow> ('a list \<times> bytes) cbor" where
  "decode_vec lib dec b =
    and_then (d_vec lib (\<lambda>b. map_ok snd (dec b)) b) (\<lambda>(starts, r).
      and_then (decode_all dec starts) (\<lambda>xs. Ok (xs, r)))"

text \<open>\<open>let n = d.array()?; assert_eq!(n, Some(k))\<close>, the opening of most decoders.\<close>

definition d_array_exact :: "'cid libs \<Rightarrow> u64 \<Rightarrow> bytes \<Rightarrow> bytes cbor" where
  "d_array_exact lib k b =
    and_then (d_array lib b) (\<lambda>(n, r). and_then (assertion (n = Some k)) (\<lambda>_. Ok r))"

locale codec_libs =
  fixes lib :: "'cid libs"
  assumes array_rt: "d_array lib (e_array lib n @ r) = Ok (Some n, r)"
    and bytes_rt: "d_bytes lib (e_bytes lib b @ r) = Ok (b, r)"
    and str_rt: "d_str lib (e_str lib s @ r) = Ok (s, r)"
    and u8_rt: "d_u8 lib (e_u8 lib w @ r) = Ok (w, r)"
    and u64_rt: "d_u64 lib (e_u64 lib x @ r) = Ok (x, r)"
    and i64_rt: "d_i64 lib (e_i64 lib x @ r) = Ok (x, r)"
    and vec_rt: "(\<And>e r. e \<in> set es \<Longrightarrow> step (e @ r) = Ok r) \<Longrightarrow>
      \<exists>rs. length rs = length es \<and> d_vec lib step (e_vec lib es @ r) = Ok (map2 (@) es rs, r)"
    and cid_rt: "d_cid lib (e_cid lib c @ r) = Ok (c, r)"
    and sign_pos: "0 < i \<Longrightarrow> fst (to_bytes_be lib i) = Plus"
    and sign_neg: "i < 0 \<Longrightarrow> fst (to_bytes_be lib i) = Minus"
    and sign_zero: "fst (to_bytes_be lib 0) = NoSign"
    and bytes_be_rt: "i \<noteq> 0 \<Longrightarrow> from_bytes_be lib (fst (to_bytes_be lib i)) (snd (to_bytes_be lib i)) = i"
    and u_bytes_be_zero: "u_to_bytes_be lib m = [0] \<longleftrightarrow> m = 0"
    and u_bytes_be_nil: "u_from_bytes_be lib [] = 0"
    and u_bytes_be_rt: "u_from_bytes_be lib (0 # u_to_bytes_be lib m) = m"
    and cid_le_total: "cid_le lib c d \<or> cid_le lib d c"
    and cid_le_trans: "cid_le lib c d \<Longrightarrow> cid_le lib d e \<Longrightarrow> cid_le lib c e"
    and cid_le_antisym: "cid_le lib c d \<Longrightarrow> cid_le lib d c \<Longrightarrow> c = d"
begin

lemma array_exact_rt: "d_array_exact lib k (e_array lib n @ r) = (if n = k then Ok r else Panic)"
  by (simp add: d_array_exact_def array_rt)

lemma vec_codec:
  assumes "codec ok enc dec"
  shows "codec (list_all ok) (encode_vec lib enc) (decode_vec lib dec)"
  unfolding codec_def
proof (intro allI impI)
  fix xs r assume ok: "list_all ok xs"
  have all: "decode_all dec (map2 (@) (map enc xs) rs) = Ok xs" if "length rs = length xs" for rs
    using that ok
  proof (induction xs arbitrary: rs)
    case (Cons x xs)
    then show ?case using assms by (cases rs) (auto simp: codec_def)
  qed simp
  have "map_ok snd (dec (e @ r)) = Ok r" if "e \<in> set (map enc xs)" for e r
    using that assms ok by (auto simp: codec_def list_all_iff)
  from vec_rt [OF this] obtain rs where "length rs = length (map enc xs)"
    "d_vec lib (\<lambda>b. map_ok snd (dec b)) (e_vec lib (map enc xs) @ r) = Ok (map2 (@) (map enc xs) rs, r)"
    by blast
  then show "decode_vec lib dec (encode_vec lib enc xs @ r) = Ok (xs, r)"
    using all by (simp add: decode_vec_def encode_vec_def)
qed

lemma vec_codec_rt:
  "codec ok enc dec \<Longrightarrow> list_all ok xs \<Longrightarrow> decode_vec lib dec (encode_vec lib enc xs @ r) = Ok (xs, r)"
  using vec_codec [of ok enc dec] by (simp add: codec_def)

lemma cid_codec: "codec anything (e_cid lib) (d_cid lib)"
  by (simp add: codec_def cid_rt)

lemmas rt = array_rt bytes_rt str_rt u8_rt u64_rt i64_rt cid_rt array_exact_rt vec_codec_rt [OF cid_codec]

end

lemma codecD: "codec ok enc dec \<Longrightarrow> ok x \<Longrightarrow> dec (enc x @ r) = Ok (x, r)"
  by (simp add: codec_def)

lemma codecI: "(\<And>x r. ok x \<Longrightarrow> dec (enc x @ r) = Ok (x, r)) \<Longrightarrow> codec ok enc dec"
  by (simp add: codec_def)

lemma codec_prefix_free:
  assumes "codec ok enc dec" "ok x" "ok y" "enc x @ r = enc y @ r'"
  shows "x = y \<and> r = r'"
  using assms by (metis codecD prod.inject result.inject(1))

lemma codec_inject: "codec ok enc dec \<Longrightarrow> ok x \<Longrightarrow> ok y \<Longrightarrow> enc x = enc y \<Longrightarrow> x = y"
  using codec_prefix_free [of ok enc dec x y "[]" "[]"] by simp

end
