(* ===== verification/Codec_Rfc7049.thy ===== *)
theory Codec_Rfc7049
  imports Codec_Libs
begin

text \<open>
  A concrete implementation of the external codec interface: the data item heads of RFC 7049 with
  shortest-form integers, byte and text strings, arrays, and big-endian integers. It
  interprets the interface, so the hypotheses that the codec theorems make about the libraries
  can hold, and it is the instance at which they are applied to concrete values.

  A content identifier is a byte string here, written as DAG-CBOR writes it: tag 42 on a byte string
  that starts with a zero byte. Lengths of more than \<open>2 ^ 64 - 1\<close>, which no \<open>Vec\<close> has, are
  written in unary after a head with the reserved additional information 28.
\<close>

primrec be_bytes :: "nat \<Rightarrow> u64 \<Rightarrow> bytes" where
  "be_bytes 0 w = []"
| "be_bytes (Suc k) w = be_bytes k (drop_bit 8 w) @ [ucast w]"

definition be_val :: "bytes \<Rightarrow> u64" where
  "be_val bs = foldl (\<lambda>acc b. push_bit 8 acc OR ucast b) 0 bs"

definition enc_head :: "u8 \<Rightarrow> u64 \<Rightarrow> bytes" where
  "enc_head major n =
    (let h = push_bit 5 major in
     if n < 24 then [h OR ucast n]
     else if n < 2 ^ 8 then (h OR 24) # be_bytes 1 n
     else if n < 2 ^ 16 then (h OR 25) # be_bytes 2 n
     else if n < 2 ^ 32 then (h OR 26) # be_bytes 4 n
     else (h OR 27) # be_bytes 8 n)"

definition dec_head :: "bytes \<Rightarrow> ((u8 \<times> u64) \<times> bytes) cbor" where
  "dec_head b =
    (case b of
       [] \<Rightarrow> Err (Library ''end of input'')
     | h # r \<Rightarrow>
         let info = take_bit 5 h; major = drop_bit 5 h;
             wide = (\<lambda>k. if length r < k then Err (Library ''end of input'')
                          else Ok ((major, be_val (take k r)), drop k r)) in
         if info < 24 then Ok ((major, ucast info), r)
         else if info = 24 then wide 1
         else if info = 25 then wide 2
         else if info = 26 then wide 4
         else if info = 27 then wide 8
         else Err (Library ''unexpected type''))"

definition expect :: "u8 \<Rightarrow> bytes \<Rightarrow> (u64 \<times> bytes) cbor" where
  "expect major b =
    and_then (dec_head b) (\<lambda>((m, n), r).
      if m = major then Ok (n, r) else Err (Library ''unexpected type''))"

text \<open>The length of a string or an array.\<close>

definition enc_len :: "u8 \<Rightarrow> nat \<Rightarrow> bytes" where
  "enc_len major n =
    (if n < 2 ^ 64 then enc_head major (of_nat n) else (push_bit 5 major OR 28) # replicate n 1 @ [0])"

fun dec_unary :: "bytes \<Rightarrow> (nat \<times> bytes) cbor" where
  "dec_unary [] = Err (Library ''end of input'')"
| "dec_unary (h # r) =
    (if h = 1 then and_then (dec_unary r) (\<lambda>(n, r). Ok (Suc n, r)) else Ok (0, r))"

definition dec_len :: "u8 \<Rightarrow> bytes \<Rightarrow> (nat \<times> bytes) cbor" where
  "dec_len major b =
    (case b of
       [] \<Rightarrow> Err (Library ''end of input'')
     | h # r \<Rightarrow>
         if h = push_bit 5 major OR 28 then dec_unary r
         else and_then (expect major b) (\<lambda>(n, r). Ok (unat n, r)))"

definition enc_string :: "u8 \<Rightarrow> bytes \<Rightarrow> bytes" where
  "enc_string major b = enc_len major (length b) @ b"

definition dec_string :: "u8 \<Rightarrow> bytes \<Rightarrow> (bytes \<times> bytes) cbor" where
  "dec_string major b =
    and_then (dec_len major b) (\<lambda>(n, r).
      if length r < n then Err (Library ''end of input'') else Ok (take n r, drop n r))"

definition enc_cid :: "bytes \<Rightarrow> bytes" where
  "enc_cid c = enc_head 6 42 @ enc_string 2 (0 # c)"

definition dec_cid :: "bytes \<Rightarrow> (bytes \<times> bytes) cbor" where
  "dec_cid b =
    and_then (expect 6 b) (\<lambda>(n, r).
      if n = 42 then
        and_then (dec_string 2 r) (\<lambda>(c, r).
          if c \<noteq> [] \<and> hd c = 0 then Ok (List.tl c, r) else Err (Library ''invalid CID''))
      else Err (Library ''unexpected type''))"

definition enc_i64 :: "u64 \<Rightarrow> bytes" where
  "enc_i64 w = (if bit w 63 then enc_head 1 (NOT w) else enc_head 0 w)"

definition dec_i64 :: "bytes \<Rightarrow> (u64 \<times> bytes) cbor" where
  "dec_i64 b =
    and_then (dec_head b) (\<lambda>((m, n), r).
      if bit n 63 then Err (Library ''integer overflow'')
      else if m = 0 then Ok (n, r)
      else if m = 1 then Ok (NOT n, r)
      else Err (Library ''unexpected type''))"

definition enc_vec :: "bytes list \<Rightarrow> bytes" where
  "enc_vec es = enc_len 4 (length es) @ concat es"

primrec dec_items :: "nat \<Rightarrow> (bytes \<Rightarrow> bytes cbor) \<Rightarrow> bytes \<Rightarrow> (bytes list \<times> bytes) cbor" where
  "dec_items 0 step b = Ok ([], b)"
| "dec_items (Suc n) step b =
    and_then (step b) (\<lambda>r. and_then (dec_items n step r) (\<lambda>(bs, r). Ok (b # bs, r)))"

definition dec_vec :: "(bytes \<Rightarrow> bytes cbor) \<Rightarrow> bytes \<Rightarrow> (bytes list \<times> bytes) cbor" where
  "dec_vec step b = and_then (dec_len 4 b) (\<lambda>(n, r). dec_items n step r)"

definition ascii_bytes :: "string \<Rightarrow> bytes" where
  "ascii_bytes s = map (\<lambda>c. of_nat (of_char c)) s"

definition bytes_ascii :: "bytes \<Rightarrow> string" where
  "bytes_ascii b = map (\<lambda>x. char_of (unat x)) b"

text \<open>Big-endian digits of a natural number in base 256, without leading zeros.\<close>

function nat_bytes :: "nat \<Rightarrow> bytes" where
  "nat_bytes n = (if n = 0 then [] else nat_bytes (n div 256) @ [of_nat n])"
  by pat_completeness auto
termination by (relation "measure id") auto

declare nat_bytes.simps [simp del]

definition bytes_nat :: "bytes \<Rightarrow> nat" where
  "bytes_nat bs = foldl (\<lambda>acc b. 256 * acc + unat b) 0 bs"

definition int_sign :: "int \<Rightarrow> sign" where
  "int_sign i = (if 0 < i then Plus else if i < 0 then Minus else NoSign)"

definition int_bytes :: "int \<Rightarrow> sign \<times> bytes" where
  "int_bytes i = (int_sign i, nat_bytes (nat (abs i)))"

definition bytes_int :: "sign \<Rightarrow> bytes \<Rightarrow> int" where
  "bytes_int s b = (case s of Plus \<Rightarrow> int (bytes_nat b) | Minus \<Rightarrow> - int (bytes_nat b) | NoSign \<Rightarrow> 0)"

definition rfc7049 :: "bytes libs" where
  "rfc7049 =
    \<lparr>e_array = enc_head 4,
     d_array = (\<lambda>b. map_ok (\<lambda>(n, r). (Some n, r)) (expect 4 b)),
     e_bytes = enc_string 2,
     d_bytes = dec_string 2,
     e_str = (\<lambda>s. enc_string 3 (ascii_bytes s)),
     d_str = (\<lambda>b. map_ok (\<lambda>(s, r). (bytes_ascii s, r)) (dec_string 3 b)),
     e_u8 = (\<lambda>w. enc_head 0 (ucast w)),
     d_u8 = (\<lambda>b. map_ok (\<lambda>(n, r). (ucast n, r)) (expect 0 b)),
     e_u64 = enc_head 0,
     d_u64 = expect 0,
     e_i64 = enc_i64,
     d_i64 = dec_i64,
     e_vec = enc_vec,
     d_vec = dec_vec,
     e_cid = enc_cid,
     d_cid = dec_cid,
     cid_v1_dag_cbor = id,
     to_bytes_be = int_bytes,
     from_bytes_be = bytes_int,
     u_to_bytes_be = (\<lambda>n. if n = 0 then [0] else nat_bytes n),
     u_from_bytes_be = bytes_nat,
     cid_le = (\<le>)\<rparr>"

lemma length_be_bytes [simp]: "length (be_bytes k w) = k"
  by (induction k arbitrary: w) auto

lemma be_val_be_bytes: "be_val (be_bytes k w) = take_bit (8 * k) w"
proof (induction k arbitrary: w)
  case (Suc k)
  have "be_val (be_bytes (Suc k) w) = push_bit 8 (take_bit (8 * k) (drop_bit 8 w)) OR ucast (ucast w :: u8)"
    using Suc.IH [of "drop_bit 8 w"] by (simp add: be_val_def)
  also have "\<dots> = take_bit (8 * Suc k) w"
  proof (rule bit_word_eqI)
    fix n assume "n < LENGTH(64)"
    then show "bit (push_bit 8 (take_bit (8 * k) (drop_bit 8 w)) OR ucast (ucast w :: u8)) n =
        bit (take_bit (8 * Suc k) w) n"
      by (cases "n < 8") (auto simp: bit_simps)
  qed
  finally show ?case .
qed (simp add: be_val_def)

lemma take_bit_small: "unat n < 2 ^ m \<Longrightarrow> take_bit m n = n" for n :: "'l::len word"
  by (simp add: word_unat_eq_iff unsigned_take_bit_eq take_bit_nat_eq_self_iff)

lemma head_byte:
  fixes m k :: u8
  assumes "m < 8" "k < 32"
  shows "take_bit 5 (push_bit 5 m OR k) = k" "drop_bit 5 (push_bit 5 m OR k) = m"
proof -
  have k: "bit k n \<Longrightarrow> n < 5" for n
  proof -
    have "take_bit 5 k = k"
      using assms(2) by (intro take_bit_small) (simp add: word_less_nat_alt)
    then show "bit k n \<Longrightarrow> n < 5" by (metis bit_take_bit_iff)
  qed
  have m: "bit m n \<Longrightarrow> n < 3" for n
  proof -
    have "take_bit 3 m = m"
      using assms(1) by (intro take_bit_small) (simp add: word_less_nat_alt)
    then show "bit m n \<Longrightarrow> n < 3" by (metis bit_take_bit_iff)
  qed
  show "take_bit 5 (push_bit 5 m OR k) = k"
    by (rule bit_word_eqI) (use k in \<open>auto simp: bit_simps\<close>)
  show "drop_bit 5 (push_bit 5 m OR k) = m"
    by (rule bit_word_eqI) (use k m in \<open>fastforce simp: bit_simps\<close>)
qed

lemma take_bit_nat_eq_self: "m < 2 ^ n \<Longrightarrow> take_bit n m = m" for m :: nat
  by (simp add: take_bit_nat_eq_self_iff)

lemma dec_head_short:
  "take_bit 5 h = k \<Longrightarrow> drop_bit 5 h = m \<Longrightarrow> k < 24 \<Longrightarrow> dec_head (h # r) = Ok ((m, ucast k), r)"
  by (auto simp: dec_head_def Let_def)

lemma dec_head_wide:
  assumes "take_bit 5 h = i" "drop_bit 5 h = m" "(i, k) \<in> {(24, 1), (25, 2), (26, 4), (27, 8)}"
    and "take_bit (8 * k) n = n"
  shows "dec_head (h # be_bytes k n @ r) = Ok ((m, n), r)"
  using assms(3,4) unfolding dec_head_def list.case Let_def assms(1,2)
  by (auto simp: be_val_be_bytes simp del: be_bytes.simps)

lemma dec_enc_head:
  assumes "m < 8"
  shows "dec_head (enc_head m n @ r) = Ok ((m, n), r)"
proof -
  note hb = head_byte [OF assms] and wide = dec_head_wide [OF head_byte [OF assms]]
  consider "n < 24" | "\<not> n < 24" "n < 256" | "\<not> n < 24" "\<not> n < 256" "n < 65536"
    | "\<not> n < 24" "\<not> n < 256" "\<not> n < 65536" "n < 4294967296"
    | "\<not> n < 24" "\<not> n < 256" "\<not> n < 65536" "\<not> n < 4294967296"
    by blast
  then show ?thesis
  proof cases
    case 1
    then have k: "(ucast n :: u8) < 24" "(ucast n :: u8) < 32" "take_bit 8 n = n"
      using take_bit_small [of n 8] by (auto simp: word_less_nat_alt unsigned_ucast_eq take_bit_nat_eq_self)
    with 1 show ?thesis
      using dec_head_short [OF hb [OF k(2)] k(1), of r] by (simp add: enc_head_def ucast_8_64)
  next
    case 2
    then have "take_bit 8 n = n" by (intro take_bit_small) (simp add: word_less_nat_alt)
    with 2 wide [of 24 1 n r] show ?thesis by (simp add: enc_head_def del: be_bytes.simps)
  next
    case 3
    then have "take_bit 16 n = n" by (intro take_bit_small) (simp add: word_less_nat_alt)
    with 3 wide [of 25 2 n r] show ?thesis by (simp add: enc_head_def)
  next
    case 4
    then have "take_bit 32 n = n" by (intro take_bit_small) (simp add: word_less_nat_alt)
    with 4 wide [of 26 4 n r] show ?thesis by (simp add: enc_head_def)
  next
    case 5
    then show ?thesis using wide [of 27 8 n r] by (simp add: enc_head_def take_bit_word_eq_self)
  qed
qed

lemma expect_enc_head: "m < 8 \<Longrightarrow> expect m (enc_head m n @ r) = Ok (n, r)"
  by (simp add: expect_def dec_enc_head)

lemma enc_head_not_unary: "m < 8 \<Longrightarrow> hd (enc_head m n) \<noteq> push_bit 5 m OR 28 \<and> enc_head m n \<noteq> []"
proof -
  assume m: "m < 8"
  have "push_bit 5 m OR k \<noteq> push_bit 5 m OR 28" if "k < 28" for k :: u8
  proof -
    have "k < 32" using that by (simp add: word_less_nat_alt)
    then have "take_bit 5 (push_bit 5 m OR k) = k" "take_bit 5 (push_bit 5 m OR 28) = 28"
      using head_byte(1) [OF m, of k] head_byte(1) [OF m, of 28] by simp_all
    then show ?thesis using that by (metis order_less_irrefl)
  qed
  moreover have "(ucast n :: u8) < 28" if "n < 24"
    using that by (auto simp: word_less_nat_alt unsigned_ucast_eq take_bit_eq_mod)
  ultimately show ?thesis by (auto simp: enc_head_def Let_def)
qed

lemma dec_unary_replicate: "dec_unary (replicate n 1 @ 0 # r) = Ok (n, r)"
  by (induction n) auto

lemma dec_enc_len:
  assumes "m < 8"
  shows "dec_len m (enc_len m n @ r) = Ok (n, r)"
proof (cases "n < 2 ^ 64")
  case True
  obtain h t where ht: "enc_head m (of_nat n) = h # t" "h \<noteq> push_bit 5 m OR 28"
    using enc_head_not_unary [OF assms, of "of_nat n"] by (cases "enc_head m (of_nat n)") auto
  have "unat (of_nat n :: u64) = n" using True by (simp add: unat_of_nat)
  then show ?thesis
    using True ht expect_enc_head [OF assms, of "of_nat n" r] by (simp add: dec_len_def enc_len_def)
next
  case False
  then show ?thesis by (simp add: dec_len_def enc_len_def dec_unary_replicate)
qed

lemma dec_enc_string: "m < 8 \<Longrightarrow> dec_string m (enc_string m b @ r) = Ok (b, r)"
  by (simp add: dec_string_def enc_string_def dec_enc_len)

lemma dec_enc_cid: "dec_cid (enc_cid c @ r) = Ok (c, r)"
  by (simp add: dec_cid_def enc_cid_def expect_enc_head dec_enc_string)

lemma dec_enc_i64: "dec_i64 (enc_i64 w @ r) = Ok (w, r)"
  by (auto simp: dec_i64_def enc_i64_def dec_enc_head bit_not_iff)

lemma dec_items_concat:
  assumes "\<And>e r. e \<in> set es \<Longrightarrow> step (e @ r) = Ok r"
  shows "\<exists>rs. length rs = length es \<and> dec_items (length es) step (concat es @ r) = Ok (map2 (@) es rs, r)"
  using assms
proof (induction es)
  case (Cons e es)
  then obtain rs where "length rs = length es"
    "dec_items (length es) step (concat es @ r) = Ok (map2 (@) es rs, r)" by auto
  with Cons.prems [of e] show ?case by (intro exI [of _ "(concat es @ r) # rs"]) simp
qed simp

lemma dec_enc_vec:
  assumes "\<And>e r. e \<in> set es \<Longrightarrow> step (e @ r) = Ok r"
  shows "\<exists>rs. length rs = length es \<and> dec_vec step (enc_vec es @ r) = Ok (map2 (@) es rs, r)"
  using dec_items_concat [OF assms] by (simp add: dec_vec_def enc_vec_def dec_enc_len)

lemma bytes_ascii_ascii: "bytes_ascii (ascii_bytes s) = s"
proof -
  have "char_of (unat (of_nat (of_char c) :: u8)) = c" for c
    by (simp add: unat_of_nat)
  then show ?thesis by (induction s) (auto simp: bytes_ascii_def ascii_bytes_def)
qed

lemma bytes_nat_bytes: "bytes_nat (nat_bytes n) = n"
proof (induction n rule: nat_bytes.induct)
  case (1 n)
  show ?case
  proof (cases "n = 0")
    case False
    then show ?thesis
      using 1 by (subst nat_bytes.simps) (simp add: bytes_nat_def unat_of_nat)
  qed (simp add: nat_bytes.simps bytes_nat_def)
qed

lemma nat_bytes_not_zero: "nat_bytes n \<noteq> [0]"
proof
  assume "nat_bytes n = [0]"
  then have "n = 0" using bytes_nat_bytes [of n] by (simp add: bytes_nat_def)
  with \<open>nat_bytes n = [0]\<close> show False by (simp add: nat_bytes.simps)
qed

lemma bytes_nat_zero: "bytes_nat (0 # b) = bytes_nat b"
  by (simp add: bytes_nat_def)

interpretation rfc: codec_libs rfc7049
proof (unfold_locales, goal_cases)
  case (7 es step r)
  then show ?case using dec_enc_vec [of es step r] by (simp add: rfc7049_def)
qed (simp_all add: rfc7049_def expect_enc_head dec_enc_string dec_enc_cid dec_enc_i64 bytes_ascii_ascii
    ucast_ucast_8 int_bytes_def bytes_int_def int_sign_def bytes_nat_bytes nat_bytes_not_zero bytes_nat_zero
    bytes_nat_def [of "[]"] bytes_nat_def [of "[0]"] linear)

end
