(* ===== verification/Bit_Field.thy ===== *)
theory Bit_Field
  imports Rle_Decode Codec_Rfc7049
begin

text \<open>
  \<open>src/primitives/bitfield/src/lib.rs\<close>: \<open>BitField\<close>, a set of \<open>u64\<close> kept in a \<open>BTreeSet\<close>, whose
  CBOR form is the byte string of its RLE+ encoding.

  The ordered iteration over the set is \<^const>\<open>sorted_list_of_set\<close>; the \<open>Deref\<close> to the set makes its
  operations those of HOL sets. Encoding calls the RLE+ encoder, which can only return or panic.
\<close>

type_synonym BitField = "u64 set"

definition bit_field_new :: BitField where
  "bit_field_new = {}"

definition bit_field_from_vec :: "u64 list \<Rightarrow> BitField" where
  "bit_field_from_vec v = set v"

definition encode_bit_field :: "bool \<Rightarrow> 'cid libs \<Rightarrow> BitField \<Rightarrow> bytes rle_result" where
  "encode_bit_field oc lib s =
    and_then (encode oc (sorted_list_of_set s)) (\<lambda>b. Ok (e_bytes lib b))"

definition decode_bit_field :: "bool \<Rightarrow> 'cid libs \<Rightarrow> bytes \<Rightarrow> (BitField \<times> bytes) cbor" where
  "decode_bit_field oc lib b =
    and_then (d_bytes lib b) (\<lambda>(bs, r).
    and_then (map_err (\<lambda>_. Message ''RLE+ decode error'') (decode oc bs)) (\<lambda>xs.
      Ok (bit_field_from_vec xs, r)))"

text \<open>The sets whose members the RLE+ decoder can give back.\<close>

definition bit_field_ok :: "bool \<Rightarrow> BitField \<Rightarrow> bool" where
  "bit_field_ok oc s \<longleftrightarrow> card s \<le> OBJECT_MAX_SIZE div 8 \<and> (oc \<longrightarrow> - 1 \<notin> s)"

lemma last_in_range:
  fixes xs :: "u64 list"
  assumes "- 1 \<notin> set xs" "xs \<noteq> []"
  shows "unat (last xs) + 1 < 2 ^ 64"
proof -
  have "last xs \<noteq> - 1" using assms last_in_set by metis
  then have "unat (last xs) \<noteq> unat (- 1 :: u64)" by (simp add: word_unat_eq_iff)
  then show ?thesis using unat_u64_bound [of "last xs"] by (simp add: unsigned_minus_1_eq_mask mask_eq_exp_minus_1)
qed

context codec_libs
begin

lemma bit_field_codec:
  assumes ok: "bit_field_ok oc s"
  obtains b where "encode_bit_field oc' lib s = Ok b"
    "\<And>r. decode_bit_field oc lib (b @ r) = Ok (s, r)"
proof -
  let ?xs = "sorted_list_of_set s"
  have set: "set ?xs = s" by simp
  have "sorted_wrt (<) ?xs" by simp
  moreover have "length ?xs \<le> OBJECT_MAX_SIZE div 8" using ok by (simp add: bit_field_ok_def)
  moreover have "oc \<longrightarrow> ?xs = [] \<or> unat (last ?xs) + 1 < 2 ^ 64"
    using ok set last_in_range [of ?xs] by (auto simp: bit_field_ok_def)
  ultimately have rt: "and_then (encode oc' ?xs) (decode oc) = Ok ?xs" by (rule decode_encode)
  then obtain c where c: "(encode oc' ?xs :: bytes rle_result) = Ok c" "decode oc c = Ok ?xs"
    by (auto simp: result_simps)
  show thesis
    by (rule that [of "e_bytes lib c"])
      (use c set in \<open>simp_all add: encode_bit_field_def decode_bit_field_def bytes_rt bit_field_from_vec_def\<close>)
qed

end

text \<open>
  C30: A bit field survives its CBOR form: encoding any set of at most \<open>OBJECT_MAX_SIZE / 8\<close> members
  succeeds, and decoding what was written gives back the set and exactly the bytes that follow it,
  in the release build for every such set and in the build with overflow checks for every such set
  without \<open>u64::MAX\<close>.
\<close>

theorem bit_field_roundtrip:
  assumes "codec_libs lib" "card s \<le> OBJECT_MAX_SIZE div 8" "oc \<longrightarrow> - 1 \<notin> s"
  shows "\<exists>b. encode_bit_field oc' lib s = Ok b \<and> (\<forall>r. decode_bit_field oc lib (b @ r) = Ok (s, r))"
  using codec_libs.bit_field_codec [OF assms(1), of oc s] assms(2,3) by (metis bit_field_ok_def)

theorem bit_field_roundtrip_witness:
  "\<exists>b. encode_bit_field True rfc7049 {2, 7} = Ok b \<and> (\<forall>r. decode_bit_field True rfc7049 (b @ r) = Ok ({2, 7}, r))"
  using bit_field_roundtrip [OF rfc.codec_libs_axioms, of "{2, 7}" True True]
  by (simp add: OBJECT_MAX_SIZE_def)

end
