(* ===== verification/Address.thy ===== *)
theory Address
  imports Rust_Str Codec_Libs
begin

text \<open>
  Addresses (\<open>primitives/address/src\<close>): construction, the byte form \<open>protocol + payload\<close>, the
  text form with network prefix and checksum, and the CBOR form; with the variable-length
  Blake2b hash of \<open>hashing/src/lib.rs\<close> they use.

  The hash function, base 32 and unsigned varints come from external crates and are the
  fields of \<open>addr_libs\<close>; \<open>addr_laws\<close> is their documented behaviour. The default network is a global of the program; it is an
  argument \<open>net\<close> of the operations that read it.
\<close>

record addr_libs =
  OUTBYTES :: nat
  blake2b_hash :: "nat \<Rightarrow> bytes \<Rightarrow> bytes"
  base32_nopad_encode :: "bytes \<Rightarrow> string"
  base32_nopad_decode :: "string \<Rightarrow> bytes option"
  varint_encode :: "u64 \<Rightarrow> bytes"
  varint_decode :: "bytes \<Rightarrow> (u64 \<times> bytes) option"

definition blake2b_variable :: "addr_libs \<Rightarrow> bytes \<Rightarrow> nat \<Rightarrow> (bytes, 'e) result" where
  "blake2b_variable al data n =
    and_then (assertion (n \<le> OUTBYTES al)) (\<lambda>_.
      let res = blake2b_hash al n data in
      and_then (assertion (length res = n)) (\<lambda>_. Ok res))"

definition BLS_PUBLIC_KEY_LEN :: nat where "BLS_PUBLIC_KEY_LEN = 48"
definition SECP256K1_FULL_PUBLIC_KEY_LEN :: nat where "SECP256K1_FULL_PUBLIC_KEY_LEN = 65"
definition SECP256K1_RAW_PUBLIC_KEY_LEN :: nat where "SECP256K1_RAW_PUBLIC_KEY_LEN = 64"
definition SECP256K1_COMPRESSED_PUBLIC_KEY_LEN :: nat where "SECP256K1_COMPRESSED_PUBLIC_KEY_LEN = 33"
definition MAX_ADDRESS_STRING_LEN :: nat where "MAX_ADDRESS_STRING_LEN = 2 + 84"
definition PAYLOAD_HASH_LEN :: nat where "PAYLOAD_HASH_LEN = 20"
definition CHECKSUM_HASH_LEN :: nat where "CHECKSUM_HASH_LEN = 4"
definition MAX_U64_LEN :: nat where "MAX_U64_LEN = 20"

lemmas address_constants =
  BLS_PUBLIC_KEY_LEN_def SECP256K1_FULL_PUBLIC_KEY_LEN_def SECP256K1_RAW_PUBLIC_KEY_LEN_def
  SECP256K1_COMPRESSED_PUBLIC_KEY_LEN_def MAX_ADDRESS_STRING_LEN_def PAYLOAD_HASH_LEN_def
  CHECKSUM_HASH_LEN_def MAX_U64_LEN_def

datatype AddressError =
  UnknownNetwork | MismatchNetwork | UnknownProtocol | InvalidPayload | InvalidLength | InvalidChecksum
| Base32Decode

datatype Network = Main | Test

definition NETWORK_MAINNET_PREFIX :: string where "NETWORK_MAINNET_PREFIX = ''f''"
definition NETWORK_TESTNET_PREFIX :: string where "NETWORK_TESTNET_PREFIX = ''t''"

primrec network_prefix :: "Network \<Rightarrow> string" where
  "network_prefix Main = NETWORK_MAINNET_PREFIX"
| "network_prefix Test = NETWORK_TESTNET_PREFIX"

definition NETWORK_DEFAULT :: Network where
  "NETWORK_DEFAULT = Test"

text \<open>\<open>set_network\<close> as the update of the global: its second argument is the old value.\<close>

definition set_network :: "Network \<Rightarrow> Network \<Rightarrow> Network" where
  "set_network network net = (if network \<noteq> net then network else net)"

datatype Protocol = Id | Secp256k1 | Actor | Bls

primrec protocol_u8 :: "Protocol \<Rightarrow> u8" where
  "protocol_u8 Id = 0"
| "protocol_u8 Secp256k1 = 1"
| "protocol_u8 Actor = 2"
| "protocol_u8 Bls = 3"

definition protocol_try_from :: "u8 \<Rightarrow> (Protocol, AddressError) result" where
  "protocol_try_from value =
    (if value = 0 then Ok Id
     else if value = 1 then Ok Secp256k1
     else if value = 2 then Ok Actor
     else if value = 3 then Ok Bls
     else Err UnknownProtocol)"

definition protocol_display :: "Protocol \<Rightarrow> string" where
  "protocol_display p = show_nat (unat (protocol_u8 p))"

record Address =
  protocol :: Protocol
  payload :: bytes

definition address_new :: "Protocol \<Rightarrow> bytes \<Rightarrow> (Address, AddressError) result" where
  "address_new p pl =
    (case p of
       Id \<Rightarrow> Ok \<lparr>protocol = p, payload = pl\<rparr>
     | Bls \<Rightarrow>
         if length pl \<noteq> BLS_PUBLIC_KEY_LEN then Err InvalidPayload
         else Ok \<lparr>protocol = p, payload = pl\<rparr>
     | _ \<Rightarrow>
         if length pl \<noteq> PAYLOAD_HASH_LEN then Err InvalidPayload
         else Ok \<lparr>protocol = p, payload = pl\<rparr>)"

definition address_hash :: "addr_libs \<Rightarrow> bytes \<Rightarrow> (bytes, 'e) result" where
  "address_hash al ingest = blake2b_variable al ingest PAYLOAD_HASH_LEN"

definition checksum :: "addr_libs \<Rightarrow> bytes \<Rightarrow> (bytes, 'e) result" where
  "checksum al ingest = blake2b_variable al ingest CHECKSUM_HASH_LEN"

definition validate_checksum :: "addr_libs \<Rightarrow> bytes \<Rightarrow> bytes \<Rightarrow> (bool, 'e) result" where
  "validate_checksum al ingest expect = and_then (checksum al ingest) (\<lambda>digest. Ok (digest = expect))"

definition new_id_addr :: "addr_libs \<Rightarrow> u64 \<Rightarrow> (Address, AddressError) result" where
  "new_id_addr al i = address_new Id (varint_encode al i)"

definition new_secp256k1_addr :: "addr_libs \<Rightarrow> bytes \<Rightarrow> (Address, AddressError) result" where
  "new_secp256k1_addr al pubkey =
    (if length pubkey \<noteq> SECP256K1_FULL_PUBLIC_KEY_LEN \<and>
        length pubkey \<noteq> SECP256K1_RAW_PUBLIC_KEY_LEN \<and>
        length pubkey \<noteq> SECP256K1_COMPRESSED_PUBLIC_KEY_LEN then Err InvalidPayload
     else and_then (address_hash al pubkey) (address_new Secp256k1))"

definition new_actor_addr :: "addr_libs \<Rightarrow> bytes \<Rightarrow> (Address, AddressError) result" where
  "new_actor_addr al data = and_then (address_hash al data) (address_new Actor)"

definition new_bls_addr :: "bytes \<Rightarrow> (Address, AddressError) result" where
  "new_bls_addr pubkey = address_new Bls pubkey"

definition new_from_bytes :: "bytes \<Rightarrow> (Address, AddressError) result" where
  "new_from_bytes addr =
    (if length addr \<le> 1 then Err InvalidLength
     else and_then (protocol_try_from (addr ! 0)) (\<lambda>p. address_new p (drop 1 addr)))"

text \<open>The \<open>expect\<close> on the varint makes an identifier with a malformed payload panic.\<close>

definition as_id :: "addr_libs \<Rightarrow> Address \<Rightarrow> (u64 option, 'e) result" where
  "as_id al a =
    (if protocol a = Id then
       (case varint_decode al (payload a) of Some (i, _) \<Rightarrow> Ok (Some i) | None \<Rightarrow> Panic)
     else Ok None)"

definition as_bytes :: "Address \<Rightarrow> bytes" where
  "as_bytes a = protocol_u8 (protocol a) # payload a"

definition address_checksum :: "addr_libs \<Rightarrow> Address \<Rightarrow> (bytes, 'e) result" where
  "address_checksum al a = checksum al (as_bytes a)"

definition base32_encode :: "addr_libs \<Rightarrow> bytes \<Rightarrow> string" where
  "base32_encode al input = to_ascii_lowercase (base32_nopad_encode al input)"

definition base32_decode :: "addr_libs \<Rightarrow> string \<Rightarrow> (bytes, AddressError) result" where
  "base32_decode al input = ok_or (base32_nopad_decode al (to_ascii_uppercase input)) Base32Decode"

text \<open>
  \<open>decoded.len() - CHECKSUM_HASH_LEN\<close> underflows on short input: it panics with overflow checks,
  and without them \<open>split_at\<close> panics on the wrapped index.
\<close>

definition new_with_check :: "addr_libs \<Rightarrow> Protocol \<Rightarrow> string \<Rightarrow> nat \<Rightarrow> (Address, AddressError) result" where
  "new_with_check al p raw payload_size =
    and_then (base32_decode al raw) (\<lambda>decoded.
      if length decoded < CHECKSUM_HASH_LEN then Panic
      else
        let mid = length decoded - CHECKSUM_HASH_LEN;
            pl = take mid decoded; ck = drop mid decoded in
        if length pl \<noteq> payload_size then Err InvalidPayload
        else
          and_then (validate_checksum al (protocol_u8 p # pl) ck) (\<lambda>valid.
            if \<not> valid then Err InvalidChecksum
            else Ok \<lparr>protocol = p, payload = pl\<rparr>))"

definition address_display :: "addr_libs \<Rightarrow> Network \<Rightarrow> Address \<Rightarrow> (string, 'e) result" where
  "address_display al net a =
    (case protocol a of
       Id \<Rightarrow>
         (case varint_decode al (payload a) of
            Some (i, _) \<Rightarrow> Ok (network_prefix net @ show_nat (unat (protocol_u8 (protocol a))) @ show_u64 i)
          | None \<Rightarrow> Panic)
     | _ \<Rightarrow>
         and_then (checksum al (as_bytes a)) (\<lambda>ck.
           Ok (network_prefix net @ show_nat (unat (protocol_u8 (protocol a))) @
               base32_encode al (payload a @ ck))))"

definition address_from_str :: "addr_libs \<Rightarrow> Network \<Rightarrow> string \<Rightarrow> (Address, AddressError) result" where
  "address_from_str al net s =
    (if length s < 3 \<or> length s > MAX_ADDRESS_STRING_LEN then Err InvalidLength
     else
       and_then (str_slice s 0 1) (\<lambda>n.
       and_then
         (if n = NETWORK_MAINNET_PREFIX \<or> n = NETWORK_TESTNET_PREFIX then
            (if n \<noteq> network_prefix net then Err MismatchNetwork else Ok ())
          else Err UnknownNetwork) (\<lambda>_.
       and_then (str_slice s 1 2) (\<lambda>c.
       and_then
         (if c = ''0'' then Ok Id
          else if c = ''1'' then Ok Secp256k1
          else if c = ''2'' then Ok Actor
          else if c = ''3'' then Ok Bls
          else Err UnknownProtocol) (\<lambda>p.
       and_then (str_slice s 2 (length s)) (\<lambda>raw.
         case p of
           Id \<Rightarrow>
             if length raw > MAX_U64_LEN then Err InvalidLength
             else (case parse_u64 raw of Some i \<Rightarrow> new_id_addr al i | None \<Rightarrow> Err InvalidPayload)
         | Secp256k1 \<Rightarrow> new_with_check al Secp256k1 raw PAYLOAD_HASH_LEN
         | Actor \<Rightarrow> new_with_check al Actor raw PAYLOAD_HASH_LEN
         | Bls \<Rightarrow> new_with_check al Bls raw BLS_PUBLIC_KEY_LEN))))))"

definition encode_address :: "'cid libs \<Rightarrow> Address \<Rightarrow> bytes" where
  "encode_address lib a = e_bytes lib (as_bytes a)"

definition decode_address :: "'cid libs \<Rightarrow> bytes \<Rightarrow> (Address \<times> bytes) cbor" where
  "decode_address lib b =
    and_then (d_bytes lib b) (\<lambda>(v, r).
    and_then (map_err (\<lambda>_. Message ''expected address bytes'') (new_from_bytes v)) (\<lambda>a. Ok (a, r)))"


subsection \<open>Documented behaviour of the external functions\<close>

definition base32_char :: "char \<Rightarrow> bool" where
  "base32_char c \<longleftrightarrow> of_char c \<in> {65..90 :: nat} \<union> {50..55}"

definition addr_laws :: "addr_libs \<Rightarrow> bool" where
  "addr_laws al \<longleftrightarrow>
     OUTBYTES al = 64 \<and>
     (\<forall>n d. n \<le> OUTBYTES al \<longrightarrow> length (blake2b_hash al n d) = n) \<and>
     (\<forall>b. base32_nopad_decode al (base32_nopad_encode al b) = Some b) \<and>
     (\<forall>b. length (base32_nopad_encode al b) = (8 * length b + 4) div 5) \<and>
     (\<forall>b. list_all base32_char (base32_nopad_encode al b)) \<and>
     (\<forall>i. varint_decode al (varint_encode al i) = Some (i, []))"

text \<open>The addresses that the constructors build.\<close>

definition address_ok :: "addr_libs \<Rightarrow> Address \<Rightarrow> bool" where
  "address_ok al a \<longleftrightarrow>
    (case protocol a of
       Id \<Rightarrow> \<exists>i. payload a = varint_encode al i
     | Bls \<Rightarrow> length (payload a) = BLS_PUBLIC_KEY_LEN
     | _ \<Rightarrow> length (payload a) = PAYLOAD_HASH_LEN)"

definition payload_len_ok :: "Address \<Rightarrow> bool" where
  "payload_len_ok a \<longleftrightarrow>
    (case protocol a of
       Id \<Rightarrow> True
     | Bls \<Rightarrow> length (payload a) = BLS_PUBLIC_KEY_LEN
     | _ \<Rightarrow> length (payload a) = PAYLOAD_HASH_LEN)"

lemma blake2b_variable_Ok:
  assumes "addr_laws al" "n \<le> 64"
  shows "blake2b_variable al d n = Ok (blake2b_hash al n d)"
  using assms by (simp add: blake2b_variable_def addr_laws_def Let_def)

lemma address_new_ok:
  "address_new p pl = Ok a \<Longrightarrow> a = \<lparr>protocol = p, payload = pl\<rparr> \<and> payload_len_ok a"
  by (cases p) (auto simp: address_new_def payload_len_ok_def split: if_splits)

lemma address_new_eq:
  "payload_len_ok \<lparr>protocol = p, payload = pl\<rparr> \<Longrightarrow> address_new p pl = Ok \<lparr>protocol = p, payload = pl\<rparr>"
  by (cases p) (auto simp: address_new_def payload_len_ok_def)

lemma address_ok_len: "address_ok al a \<Longrightarrow> payload_len_ok a"
  by (cases "protocol a") (auto simp: address_ok_def payload_len_ok_def)

lemma protocol_try_from_u8 [simp]: "protocol_try_from (protocol_u8 p) = Ok p"
  by (cases p) (simp_all add: protocol_try_from_def)

lemma new_from_bytes_as_bytes:
  assumes "payload_len_ok a" "payload a \<noteq> []"
  shows "new_from_bytes (as_bytes a) = Ok a"
proof -
  have "address_new (protocol a) (payload a) = Ok a"
    using address_new_eq [of "protocol a" "payload a"] assms(1) by (cases a) simp
  with assms(2) show ?thesis by (simp add: new_from_bytes_def as_bytes_def Suc_le_eq)
qed

lemma as_bytes_inject: "as_bytes a = as_bytes b \<Longrightarrow> a = b"
  by (cases a; cases b; cases "protocol a"; cases "protocol b") (simp_all add: as_bytes_def)

lemma to_upper_lower: "base32_char c \<Longrightarrow> to_upper (to_lower c) = c"
  by (auto simp: to_upper_def to_lower_def base32_char_def Let_def)

lemma to_lower_boundary: "base32_char c \<Longrightarrow> \<not> is_continuation (to_lower c)"
  by (auto simp: to_lower_def base32_char_def is_continuation_def Let_def)

lemma base32_roundtrip:
  assumes "addr_laws al"
  shows "base32_decode al (base32_encode al b) = Ok b"
proof -
  have "list_all base32_char (base32_nopad_encode al b)" using assms by (simp add: addr_laws_def)
  then have "map (to_upper \<circ> to_lower) (base32_nopad_encode al b) = base32_nopad_encode al b"
    by (induction "base32_nopad_encode al b" rule: list.induct)
      (simp_all add: to_upper_lower map_idI list_all_iff)
  then show ?thesis
    using assms
    by (simp add: base32_decode_def base32_encode_def to_ascii_uppercase_def to_ascii_lowercase_def addr_laws_def)
qed


primrec protocol_char :: "Protocol \<Rightarrow> char" where
  "protocol_char Id = CHR ''0''"
| "protocol_char Secp256k1 = CHR ''1''"
| "protocol_char Actor = CHR ''2''"
| "protocol_char Bls = CHR ''3''"

lemma show_protocol: "show_nat (unat (protocol_u8 p)) = [protocol_char p]"
  by (cases p) (simp_all add: show_nat.simps digit_char_def char_of_def bit_0)

text \<open>Parsing takes the text form apart as printing put it together.\<close>

lemma from_str_parts:
  assumes "raw \<noteq> []" "length raw \<le> 84" "\<not> is_continuation (hd raw)"
  shows "address_from_str al net (network_prefix net @ protocol_char p # raw) =
    (case p of
       Id \<Rightarrow>
         if length raw > MAX_U64_LEN then Err InvalidLength
         else (case parse_u64 raw of Some i \<Rightarrow> new_id_addr al i | None \<Rightarrow> Err InvalidPayload)
     | Secp256k1 \<Rightarrow> new_with_check al Secp256k1 raw PAYLOAD_HASH_LEN
     | Actor \<Rightarrow> new_with_check al Actor raw PAYLOAD_HASH_LEN
     | Bls \<Rightarrow> new_with_check al Bls raw BLS_PUBLIC_KEY_LEN)"
proof -
  obtain r0 rs where raw: "raw = r0 # rs" using assms(1) by (cases raw) auto
  show ?thesis
    using assms unfolding raw
    by (cases net; cases p)
      (simp_all add: address_from_str_def str_slice_def is_char_boundary_def is_continuation_def
        NETWORK_MAINNET_PREFIX_def NETWORK_TESTNET_PREFIX_def MAX_ADDRESS_STRING_LEN_def)
qed

lemma new_with_check_roundtrip:
  assumes al: "addr_laws al" and "length pl = n"
  shows "new_with_check al p (base32_encode al (pl @ blake2b_hash al CHECKSUM_HASH_LEN (protocol_u8 p # pl))) n =
         Ok \<lparr>protocol = p, payload = pl\<rparr>"
proof -
  have "length (blake2b_hash al CHECKSUM_HASH_LEN (protocol_u8 p # pl)) = CHECKSUM_HASH_LEN"
    using al by (simp add: addr_laws_def CHECKSUM_HASH_LEN_def)
  then show ?thesis
    using assms(2)
    by (simp add: blake2b_variable_Ok [OF al] new_with_check_def base32_roundtrip [OF al] Let_def validate_checksum_def checksum_def
        CHECKSUM_HASH_LEN_def)
qed

lemma base32_encode_shape:
  assumes "addr_laws al" "b \<noteq> []"
  shows "length (base32_encode al b) = (8 * length b + 4) div 5"
    and "base32_encode al b \<noteq> []" "\<not> is_continuation (hd (base32_encode al b))"
proof -
  show len: "length (base32_encode al b) = (8 * length b + 4) div 5"
    using assms by (simp add: base32_encode_def to_ascii_lowercase_def addr_laws_def)
  have "0 < (8 * length b + 4) div 5" using assms(2) by (cases b) auto
  with len show ne: "base32_encode al b \<noteq> []" by auto
  have "list_all base32_char (base32_nopad_encode al b)" using assms by (simp add: addr_laws_def)
  then show "\<not> is_continuation (hd (base32_encode al b))"
    using ne by (cases "base32_nopad_encode al b")
      (auto simp: base32_encode_def to_ascii_lowercase_def to_lower_boundary)
qed

lemma show_u64_shape: "show_u64 i \<noteq> []" "\<not> is_continuation (hd (show_u64 i))"
  unfolding show_u64_def
  using show_nat_digits [of "hd (show_nat (unat i))" "unat i"] digit_char_boundary
  by auto

lemma address_text_hashed:
  fixes net
  assumes al: "addr_laws al" and p: "protocol a \<noteq> Id" and len: "payload_len_ok a"
  defines "s \<equiv> network_prefix net @ protocol_char (protocol a) #
    base32_encode al (payload a @ blake2b_hash al CHECKSUM_HASH_LEN (as_bytes a))"
  shows "address_display al net a = Ok s" "address_from_str al net s = Ok a"
proof -
  let ?b = "payload a @ blake2b_hash al CHECKSUM_HASH_LEN (as_bytes a)"
  have ck: "length (blake2b_hash al CHECKSUM_HASH_LEN (as_bytes a)) = 4"
    using al by (simp add: addr_laws_def CHECKSUM_HASH_LEN_def)
  have b: "length ?b = 24 \<or> length ?b = 52"
    using len p ck by (cases "protocol a") (auto simp: payload_len_ok_def address_constants)
  then have ne: "?b \<noteq> []" by auto
  have raw: "length (base32_encode al ?b) \<le> 84"
    using base32_encode_shape(1) [OF al ne] b by auto
  show "address_display al net a = Ok s"
    using p
    by (cases "protocol a")
      (simp_all add: blake2b_variable_Ok [OF al] address_display_def s_def checksum_def address_constants show_protocol del: protocol_u8.simps)
  show "address_from_str al net s = Ok a"
    unfolding s_def from_str_parts [OF base32_encode_shape(2) [OF al ne] raw base32_encode_shape(3) [OF al ne]]
    using p len new_with_check_roundtrip [OF al, of "payload a" _ "protocol a"]
    by (cases a; cases "protocol a") (auto simp: payload_len_ok_def as_bytes_def)
qed

lemma address_text_id:
  fixes net
  assumes al: "addr_laws al" and a: "protocol a = Id" "payload a = varint_encode al i"
  defines "s \<equiv> network_prefix net @ protocol_char Id # show_u64 i"
  shows "address_display al net a = Ok s" "address_from_str al net s = Ok a"
proof -
  show "address_display al net a = Ok s"
    using al a show_protocol [of Id] by (simp add: address_display_def s_def addr_laws_def)
  have "length (show_u64 i) \<le> 84" using length_show_u64 [of i] by simp
  from from_str_parts [OF show_u64_shape(1) this show_u64_shape(2), of al net Id]
  show "address_from_str al net s = Ok a"
    using a length_show_u64 [of i] unfolding s_def
    by (cases a) (simp add: parse_show_u64 new_id_addr_def address_new_def MAX_U64_LEN_def)
qed


subsection \<open>CBOR\<close>

definition address_cbor_ok :: "Address \<Rightarrow> bool" where
  "address_cbor_ok a \<longleftrightarrow> payload_len_ok a \<and> payload a \<noteq> []"

context codec_libs
begin

lemma address_codec: "codec address_cbor_ok (encode_address lib) (decode_address lib)"
  by (rule codecI)
    (simp add: encode_address_def decode_address_def bytes_rt new_from_bytes_as_bytes address_cbor_ok_def)

end

end
