(* ===== verification/Address_Instance.thy ===== *)
theory Address_Instance
  imports Address Rle_Decode Codec_Rfc7049
begin

text \<open>
  A concrete instance of the external functions of \<open>Address\<close>, which shows that their laws can hold
  together: base 32 of RFC 4648 without padding, unsigned LEB128 varints, and a digest of the right
  length. The properties of addresses are stated after it, over any functions with these laws.
\<close>

definition msb_bits :: "u8 \<Rightarrow> bool list" where
  "msb_bits w = rev (map (bit w) [0..<8])"

definition bits_byte :: "bool list \<Rightarrow> u8" where
  "bits_byte bs = horner_sum of_bool 2 (rev bs)"

fun group5 :: "bool list \<Rightarrow> bool list list" where
  "group5 [] = []"
| "group5 bs = take 5 (bs @ replicate 4 False) # group5 (drop 5 bs)"

definition b32_alphabet :: string where
  "b32_alphabet = ''ABCDEFGHIJKLMNOPQRSTUVWXYZ234567''"

definition b32_symbol :: "bool list \<Rightarrow> char" where
  "b32_symbol bs = b32_alphabet ! (horner_sum of_bool 2 (rev bs))"

definition b32_bits :: "char \<Rightarrow> bool list option" where
  "b32_bits c = map_of (zip b32_alphabet (map rev (List.n_lists 5 [False, True]))) c"

fun b32_all :: "string \<Rightarrow> bool list option" where
  "b32_all [] = Some []"
| "b32_all (c # cs) =
    (case (b32_bits c, b32_all cs) of (Some b, Some bs) \<Rightarrow> Some (b @ bs) | _ \<Rightarrow> None)"

fun group8 :: "bool list \<Rightarrow> bytes" where
  "group8 bs = (if length bs < 8 then [] else bits_byte (take 8 bs) # group8 (drop 8 bs))"

definition b32_encode :: "bytes \<Rightarrow> string" where
  "b32_encode b = map b32_symbol (group5 (concat (map msb_bits b)))"

definition b32_decode :: "string \<Rightarrow> bytes option" where
  "b32_decode s = map_option group8 (b32_all s)"

definition leb128_decode :: "bytes \<Rightarrow> (u64 \<times> bytes) option" where
  "leb128_decode b =
    (case unpack b of Ok v \<Rightarrow> Some (v, List.tl (dropWhile (\<lambda>w. \<not> (ucast w :: u64) < 128) b)) | _ \<Rightarrow> None)"

definition sum_digest :: "nat \<Rightarrow> bytes \<Rightarrow> bytes" where
  "sum_digest n d = map (\<lambda>i. of_nat i + sum_list d) [0..<n]"

definition address_rfc :: addr_libs where
  "address_rfc =
    \<lparr>OUTBYTES = 64, blake2b_hash = sum_digest, base32_nopad_encode = b32_encode,
     base32_nopad_decode = b32_decode, varint_encode = long_bytes, varint_decode = leb128_decode\<rparr>"

lemma length_msb_bits [simp]: "length (msb_bits w) = 8"
  by (simp add: msb_bits_def)

lemma bits_byte_msb [simp]: "bits_byte (msb_bits w) = w"
  by (simp add: bits_byte_def msb_bits_def horner_sum_bit_eq_take_bit take_bit_word_eq_self del: upt_rec_numeral)

lemma length_concat_msb_bits [simp]: "length (concat (map msb_bits b)) = 8 * length b"
  by (induction b) simp_all

lemma group8_bits: "length pad < 8 \<Longrightarrow> group8 (concat (map msb_bits b) @ pad) = b"
  by (induction b) simp_all

lemma b32_symbol_bits: "length bs = 5 \<Longrightarrow> b32_bits (b32_symbol bs) = Some bs \<and> base32_char (b32_symbol bs)"
proof -
  assume "length bs = 5"
  then obtain a b c d e where "bs = [a, b, c, d, e]"
    by (auto simp: length_Suc_conv numeral_eq_Suc)
  then show ?thesis
    by (cases a; cases b; cases c; cases d; cases e)
      (simp_all add: b32_symbol_def b32_bits_def b32_alphabet_def base32_char_def
        eval_nat_numeral)
qed

lemma group5_length: "g \<in> set (group5 bs) \<Longrightarrow> length g = 5"
  by (induction bs rule: group5.induct) auto

lemma length_group5: "length (group5 bs) = (length bs + 4) div 5"
proof (induction bs rule: group5.induct)
  case (2 b bs)
  show ?case
  proof (cases "length bs < 5")
    case True
    then show ?thesis using "2.IH" by simp
  next
    case False
    then show ?thesis using "2.IH" by simp
  qed
qed simp

lemma group5_concat: "\<exists>k. k < 5 \<and> concat (group5 bs) = bs @ replicate k False"
proof (induction bs rule: group5.induct)
  case (2 b bs)
  show ?case
  proof (cases "length bs < 4")
    case True
    then show ?thesis by (intro exI [of _ "4 - length bs"]) (simp add: take_Cons' min_def)
  next
    case False
    with "2.IH" show ?thesis by (auto simp: append_take_drop_id [symmetric])
  qed
qed simp

lemma b32_all_symbols: "(\<And>g. g \<in> set gs \<Longrightarrow> length g = 5) \<Longrightarrow> b32_all (map b32_symbol gs) = Some (concat gs)"
  by (induction gs) (simp_all add: b32_symbol_bits)

lemma b32_roundtrip: "b32_decode (b32_encode b) = Some b"
proof -
  let ?bits = "concat (map msb_bits b)"
  obtain k where "k < 5" "concat (group5 ?bits) = ?bits @ replicate k False"
    using group5_concat by blast
  then show ?thesis
    by (simp add: b32_decode_def b32_encode_def b32_all_symbols group5_length group8_bits del: group8.simps)
qed

lemma long_bytes_end: "List.tl (dropWhile (\<lambda>w. \<not> (ucast w :: u64) < 128) (long_bytes p)) = []"
proof (induction p rule: long_bytes.induct)
  case (1 p)
  show ?case
  proof (cases "128 \<le> p")
    case True
    then show ?thesis using "1.IH" slice_more(3) [of p] by (subst long_bytes.simps) simp
  next
    case False
    then show ?thesis using slice_last(2) [of p] by (subst long_bytes.simps) simp
  qed
qed

lemma address_rfc_laws: "addr_laws address_rfc"
proof -
  have "list_all base32_char (b32_encode b)" for b
    by (auto simp: b32_encode_def list_all_iff dest!: group5_length b32_symbol_bits)
  moreover have "leb128_decode (long_bytes i) = Some (i, [])" for i
    using unpack_long [of 0 i 0] unat_u64_bound [of i]
    by (simp add: leb128_decode_def unpack_def long_bytes_end)
  ultimately show ?thesis
    by (simp add: addr_laws_def address_rfc_def b32_roundtrip sum_digest_def)
      (simp add: b32_encode_def length_group5)
qed


subsection \<open>Properties of addresses\<close>

lemma display_shape:
  "address_display al net a = Ok s \<Longrightarrow> \<exists>raw. s = network_prefix net @ protocol_char (protocol a) # raw"
  by (cases "protocol a")
    (auto simp: address_display_def show_protocol result_simps split: option.splits simp del: protocol_u8.simps)

lemma from_str_other_network:
  assumes "address_from_str al net (network_prefix net @ protocol_char p # raw) = Ok a" "net' \<noteq> net"
  shows "address_from_str al net' (network_prefix net @ protocol_char p # raw) = Err MismatchNetwork"
  using assms
  by (cases net; cases net')
    (auto simp: address_from_str_def str_slice_def result_simps NETWORK_MAINNET_PREFIX_def
      NETWORK_TESTNET_PREFIX_def split: if_splits)

text \<open>
  C20: The text form of an address: every address the constructors build is printed (with the
  prefix of the network, its protocol digit and the checksummed base 32 payload, or the decimal
  identifier), parsing the text on the same network gives the address back, and parsing it on the
  other network reports the mismatch.
\<close>

theorem address_text_roundtrip:
  assumes "addr_laws al" "address_ok al a"
  shows "\<exists>s. (address_display al net a :: (string, 'e) result) = Ok s \<and> address_from_str al net s = Ok a \<and>
    (\<forall>net'. net' \<noteq> net \<longrightarrow> address_from_str al net' s = Err MismatchNetwork)"
proof -
  obtain s where s: "(address_display al net a :: (string, 'e) result) = Ok s" "address_from_str al net s = Ok a"
  proof (cases "protocol a = Id")
    case True
    with assms that show thesis by (auto simp: address_ok_def intro: address_text_id)
  next
    case False
    with assms that show thesis by (blast intro: address_text_hashed address_ok_len)
  qed
  moreover have "address_from_str al net' s = Err MismatchNetwork" if "net' \<noteq> net" for net'
    using display_shape [OF s(1)] s(2) that from_str_other_network by auto
  ultimately show ?thesis by blast
qed

theorem address_text_roundtrip_witness:
  "\<exists>s. address_display address_rfc Main \<lparr>protocol = Bls, payload = replicate 48 7\<rparr> = Ok s \<and>
    address_from_str address_rfc Main s = Ok \<lparr>protocol = Bls, payload = replicate 48 7\<rparr> \<and>
    (\<forall>net'. net' \<noteq> Main \<longrightarrow> address_from_str address_rfc net' s = Err MismatchNetwork)"
  by (rule address_text_roundtrip [OF address_rfc_laws]) (simp add: address_ok_def BLS_PUBLIC_KEY_LEN_def)

lemma ex_protocol: "(\<exists>p. P p) \<longleftrightarrow> P Id \<or> P Secp256k1 \<or> P Actor \<or> P Bls"
  by (metis Protocol.exhaust)

lemma from_str_Ok:
  assumes "address_from_str al net s = Ok a"
  obtains raw where "s = network_prefix net @ protocol_char (protocol a) # raw"
    "protocol a = Id \<Longrightarrow> \<exists>i. parse_u64 raw = Some i \<and> payload a = varint_encode al i"
    "protocol a \<noteq> Id \<Longrightarrow>
       new_with_check al (protocol a) raw (if protocol a = Bls then BLS_PUBLIC_KEY_LEN else PAYLOAD_HASH_LEN) = Ok a"
proof -
  have "3 \<le> length s" using assms by (auto simp: address_from_str_def split: if_splits)
  then obtain x y z rest where s: "s = x # y # z # rest"
    by (cases s; cases "List.tl s"; cases "List.tl (List.tl s)") auto
  have "\<exists>p. [x] = network_prefix net \<and> y = protocol_char p \<and> (case p of
           Id \<Rightarrow>
             if length (z # rest) > MAX_U64_LEN then Err InvalidLength
             else (case parse_u64 (z # rest) of Some i \<Rightarrow> new_id_addr al i | None \<Rightarrow> Err InvalidPayload)
         | Secp256k1 \<Rightarrow> new_with_check al Secp256k1 (z # rest) PAYLOAD_HASH_LEN
         | Actor \<Rightarrow> new_with_check al Actor (z # rest) PAYLOAD_HASH_LEN
         | Bls \<Rightarrow> new_with_check al Bls (z # rest) BLS_PUBLIC_KEY_LEN) = Ok a"
    using assms unfolding s
    by (auto simp: address_from_str_def str_slice_def result_simps ex_protocol split: if_splits)
  then obtain p where x: "[x] = network_prefix net" and y: "y = protocol_char p"
    and body: "(case p of
           Id \<Rightarrow>
             if length (z # rest) > MAX_U64_LEN then Err InvalidLength
             else (case parse_u64 (z # rest) of Some i \<Rightarrow> new_id_addr al i | None \<Rightarrow> Err InvalidPayload)
         | Secp256k1 \<Rightarrow> new_with_check al Secp256k1 (z # rest) PAYLOAD_HASH_LEN
         | Actor \<Rightarrow> new_with_check al Actor (z # rest) PAYLOAD_HASH_LEN
         | Bls \<Rightarrow> new_with_check al Bls (z # rest) BLS_PUBLIC_KEY_LEN) = Ok a"
    by blast
  have p: "protocol a = p"
    using body by (cases p)
      (auto simp: new_with_check_def new_id_addr_def address_new_def Let_def result_simps split: if_splits option.splits)
  show thesis
    by (rule that [of "z # rest"])
      (use s x y body p in \<open>cases p; auto simp: new_id_addr_def address_new_def split: if_splits option.splits\<close>)+
qed

lemma new_with_check_Ok:
  assumes "new_with_check al p raw n = Ok a"
  shows "a = \<lparr>protocol = p, payload = payload a\<rparr> \<and> length (payload a) = n \<and>
    (\<exists>ck. base32_decode al raw = Ok (payload a @ ck) \<and> checksum al (as_bytes a) = (Ok ck :: (bytes, AddressError) result))"
  using assms
  by (auto simp: new_with_check_def validate_checksum_def as_bytes_def Let_def result_simps split: if_splits)

text \<open>
  C29: Parsing is sound: whatever text is accepted, the network prefix is the one of the running
  network, the result is an address the constructors could have built (so it prints and parses
  back), and for the hashed protocols the decoded text is the payload followed by its valid
  checksum.
\<close>

theorem address_from_str_sound:
  assumes "address_from_str al net s = Ok a"
  shows "address_ok al a \<and> take 1 s = network_prefix net \<and>
    (protocol a \<noteq> Id \<longrightarrow>
       (\<exists>ck. base32_decode al (drop 2 s) = Ok (payload a @ ck) \<and>
         checksum al (as_bytes a) = (Ok ck :: (bytes, AddressError) result)))"
proof (rule from_str_Ok [OF assms])
  fix raw
  assume raw: "s = network_prefix net @ protocol_char (protocol a) # raw"
    "protocol a = Id \<Longrightarrow> \<exists>i. parse_u64 raw = Some i \<and> payload a = varint_encode al i"
    "protocol a \<noteq> Id \<Longrightarrow>
       new_with_check al (protocol a) raw (if protocol a = Bls then BLS_PUBLIC_KEY_LEN else PAYLOAD_HASH_LEN) = Ok a"
  have "take 1 s = network_prefix net" "drop 2 s = raw"
    using raw(1) by (cases net; simp add: NETWORK_MAINNET_PREFIX_def NETWORK_TESTNET_PREFIX_def)+
  moreover have "address_ok al a"
    using raw(2) raw(3) [THEN new_with_check_Ok] by (cases "protocol a") (auto simp: address_ok_def)
  ultimately show ?thesis using raw(3) [THEN new_with_check_Ok] by auto
qed

theorem address_from_str_sound_witness:
  "address_ok address_rfc \<lparr>protocol = Id, payload = long_bytes 5\<rparr>"
proof -
  have "address_from_str address_rfc Test ''t05'' = Ok \<lparr>protocol = Id, payload = long_bytes 5\<rparr>"
    by (simp add: address_from_str_def str_slice_def is_char_boundary_def is_continuation_def
        NETWORK_MAINNET_PREFIX_def NETWORK_TESTNET_PREFIX_def MAX_ADDRESS_STRING_LEN_def MAX_U64_LEN_def
        new_id_addr_def address_new_def address_rfc_def parse_u64_def char_digit_def)
  from address_from_str_sound [OF this] show ?thesis by simp
qed

text \<open>
  A checksummed address text that is too short is not rejected but panics: for every protocol
  but \<open>Id\<close>, the text of a payload of fewer than four bytes makes \<open>Address::from_str\<close> panic at the
  subtraction that splits the checksum off.
\<close>

lemma address_from_str_short_panics:
  assumes "addr_laws al" "p \<noteq> Id" "b \<noteq> []" "length b < CHECKSUM_HASH_LEN"
  shows "address_from_str al net (network_prefix net @ protocol_char p # base32_encode al b) = Panic"
proof -
  note shape = base32_encode_shape [OF assms(1,3)]
  have "length (base32_encode al b) \<le> 84" using shape(1) assms(4) by (simp add: CHECKSUM_HASH_LEN_def)
  from from_str_parts [OF shape(2) this shape(3), of al net p] show ?thesis
    using assms(2,4) by (cases p) (simp_all add: new_with_check_def base32_roundtrip [OF assms(1)])
qed

text \<open>
  The CBOR form of an address: decoding what was encoded gives the address and the rest of the
  input, for every address with a payload of its protocol's length.
\<close>

lemma address_cbor_roundtrip:
  assumes "codec_libs lib" "payload_len_ok a" "payload a \<noteq> []"
  shows "decode_address lib (encode_address lib a @ r) = Ok (a, r)"
  using codecD [OF codec_libs.address_codec [OF assms(1)]] assms(2,3) by (simp add: address_cbor_ok_def)

end
