(* ===== verification/Piece.thy ===== *)
theory Piece
  imports Codec_Libs
begin

text \<open>
  Piece sizes and piece information (\<open>primitives/piece/src/size.rs\<close>, \<open>piece.rs\<close>).

  Padding inserts two zero bits in every 254, so an unpadded size \<open>127 * 2 ^ n\<close> becomes
  \<open>128 * 2 ^ n\<close>. The lemmas characterise the sizes that validation accepts and show that
  padding and unpadding are inverse on them, with the one size on which padding overflows.
\<close>

definition MIN_UNPADDED_PIECE_SIZE :: u64 where
  "MIN_UNPADDED_PIECE_SIZE = 127"

definition MIN_PADDED_PIECE_SIZE :: u64 where
  "MIN_PADDED_PIECE_SIZE = 128"

datatype PieceSizeError =
  UnpaddedSizeTooSmall u64 | InvalidUnpaddedSize u64 | PaddedSizeTooSmall u64 | InvalidPaddedSize u64

datatype UnpaddedPieceSize = UnpaddedPieceSize (unpadded_inner: u64)

datatype PaddedPieceSize = PaddedPieceSize (padded_inner: u64)

definition unpadded_add :: "bool \<Rightarrow> UnpaddedPieceSize \<Rightarrow> UnpaddedPieceSize \<Rightarrow> (UnpaddedPieceSize, 'e) result" where
  "unpadded_add oc a b = map_ok UnpaddedPieceSize (add_w oc (unpadded_inner a) (unpadded_inner b))"

definition unpadded_sub :: "bool \<Rightarrow> UnpaddedPieceSize \<Rightarrow> UnpaddedPieceSize \<Rightarrow> (UnpaddedPieceSize, 'e) result" where
  "unpadded_sub oc a b = map_ok UnpaddedPieceSize (sub_w oc (unpadded_inner a) (unpadded_inner b))"

definition padded_add :: "bool \<Rightarrow> PaddedPieceSize \<Rightarrow> PaddedPieceSize \<Rightarrow> (PaddedPieceSize, 'e) result" where
  "padded_add oc a b = map_ok PaddedPieceSize (add_w oc (padded_inner a) (padded_inner b))"

definition padded_sub :: "bool \<Rightarrow> PaddedPieceSize \<Rightarrow> PaddedPieceSize \<Rightarrow> (PaddedPieceSize, 'e) result" where
  "padded_sub oc a b = map_ok PaddedPieceSize (sub_w oc (padded_inner a) (padded_inner b))"

text \<open>\<open>u64::trailing_zeros\<close> and \<open>u64::count_ones\<close>.\<close>

definition trailing_zeros :: "u64 \<Rightarrow> nat" where
  "trailing_zeros w = length (takeWhile (\<lambda>i. \<not> bit w i) [0..<64])"

definition count_ones :: "u64 \<Rightarrow> nat" where
  "count_ones w = length (filter (bit w) [0..<64])"

definition padded :: "bool \<Rightarrow> UnpaddedPieceSize \<Rightarrow> (PaddedPieceSize, 'e) result" where
  "padded oc self =
    map_ok PaddedPieceSize
      (add_w oc (unpadded_inner self) (unpadded_inner self div MIN_UNPADDED_PIECE_SIZE))"

definition unpadded_validate :: "UnpaddedPieceSize \<Rightarrow> (unit, PieceSizeError) result" where
  "unpadded_validate self =
    (let n = unpadded_inner self in
     if n < MIN_UNPADDED_PIECE_SIZE then Err (UnpaddedSizeTooSmall n)
     else if drop_bit (trailing_zeros n) n \<noteq> MIN_UNPADDED_PIECE_SIZE then Err (InvalidUnpaddedSize n)
     else Ok ())"

definition unpadded :: "bool \<Rightarrow> PaddedPieceSize \<Rightarrow> (UnpaddedPieceSize, 'e) result" where
  "unpadded oc self =
    map_ok UnpaddedPieceSize
      (sub_w oc (padded_inner self) (padded_inner self div MIN_PADDED_PIECE_SIZE))"

definition padded_validate :: "PaddedPieceSize \<Rightarrow> (unit, PieceSizeError) result" where
  "padded_validate self =
    (let n = padded_inner self in
     if n < MIN_PADDED_PIECE_SIZE then Err (PaddedSizeTooSmall n)
     else if count_ones n \<noteq> 1 then Err (InvalidPaddedSize n)
     else Ok ())"

record 'cid PieceInfo =
  piece_size :: PaddedPieceSize
  piece_cid :: 'cid

definition encode_piece_info :: "'cid libs \<Rightarrow> 'cid PieceInfo \<Rightarrow> bytes" where
  "encode_piece_info lib p =
    e_array lib 2 @ e_u64 lib (padded_inner (piece_size p)) @ e_cid lib (piece_cid p)"

definition decode_piece_info :: "'cid libs \<Rightarrow> bytes \<Rightarrow> ('cid PieceInfo \<times> bytes) cbor" where
  "decode_piece_info lib b =
    and_then (d_array_exact lib 2 b) (\<lambda>b.
    and_then (d_u64 lib b) (\<lambda>(size, b).
    and_then (d_cid lib b) (\<lambda>(cid, b).
      Ok (\<lparr>piece_size = PaddedPieceSize size, piece_cid = cid\<rparr>, b))))"


subsection \<open>Valid sizes\<close>

lemma takeWhile_upt:
  assumes "k < n" "\<forall>i < k. P i" "\<not> P k"
  shows "takeWhile P [0..<n] = [0..<k]"
proof -
  have "[0..<n] = [0..<k] @ k # [Suc k..<n]"
    using assms(1) by (metis le_add_diff_inverse less_imp_le_nat upt_add_eq_append upt_conv_Cons zero_le)
  then show ?thesis using assms(2,3) by (auto simp: takeWhile_append)
qed

lemma trailing_zeros_eq:
  assumes "bit w k" "\<forall>i < k. \<not> bit w i"
  shows "trailing_zeros w = k"
proof -
  have "k < 64" using bit_imp_le_length [OF assms(1)] by simp
  from takeWhile_upt [OF this, of "\<lambda>i. \<not> bit w i"] assms show ?thesis
    by (simp add: trailing_zeros_def)
qed

lemma trailing_zeros_low: "i < trailing_zeros w \<Longrightarrow> \<not> bit w i"
proof -
  assume i: "i < trailing_zeros w"
  let ?t = "takeWhile (\<lambda>i. \<not> bit w i) [0..<64]"
  have "?t ! i \<in> set ?t" using i by (simp add: trailing_zeros_def)
  then have "\<not> bit w (?t ! i)" by (auto dest: set_takeWhileD)
  moreover have "?t ! i = i" using i length_takeWhile_le [of "\<lambda>i. \<not> bit w i" "[0..<64]"]
    by (simp add: trailing_zeros_def takeWhile_nth)
  ultimately show ?thesis by simp
qed

lemma trailing_zeros_div: "unat w mod 2 ^ trailing_zeros w = 0"
proof -
  have "take_bit (trailing_zeros w) w = 0"
    by (rule bit_word_eqI) (auto simp: bit_simps trailing_zeros_low)
  then have "unat (take_bit (trailing_zeros w) w) = 0" by simp
  then show ?thesis unfolding unsigned_take_bit_eq by (simp add: take_bit_eq_mod)
qed

lemma bit_127: "bit (127 :: u64) i \<longleftrightarrow> i < 7"
  using bit_mask_iff [of 7 i, where 'a = "64 word"] by (auto simp: mask_eq_exp_minus_1)

lemma unat_push_bit: "unat (push_bit k w) = unat w * 2 ^ k mod 2 ^ 64" for w :: u64
  unfolding unsigned_push_bit_eq by (simp add: push_bit_eq_mult take_bit_eq_mod)

lemma unat_two_power: "unat (2 ^ k :: u64) = 2 ^ k" if "k < 64"
  using that unat_push_bit [of k 1] power_strict_increasing [of k 64 "2 :: nat"] by simp

lemma unat_drop_bit: "unat (drop_bit k w) = unat w div 2 ^ k" for w :: u64
  unfolding unat_drop_bit_eq by (simp add: drop_bit_eq_div)

lemma size_127:
  assumes "unat n = 127 * 2 ^ k"
  shows "trailing_zeros n = k" "drop_bit k n = 127" "127 \<le> n"
proof -
  have n: "n = push_bit k 127"
    using assms unat_u64_bound [of n] by (simp add: word_unat_eq_iff unat_push_bit)
  have "(2 :: nat) ^ k < 2 ^ 64" using assms unat_u64_bound [of n] by simp
  then have "k < 64" by (rule power_less_imp_less_exp [rotated]) simp
  then show "trailing_zeros n = k"
    by (intro trailing_zeros_eq) (auto simp: n bit_simps bit_127)
  show "drop_bit k n = 127" by (simp add: word_unat_eq_iff unat_drop_bit assms)
  show "127 \<le> n" by (simp add: word_le_nat_alt assms)
qed

lemma unpadded_validate_iff:
  "unpadded_validate (UnpaddedPieceSize n) = Ok () \<longleftrightarrow> (\<exists>k. unat n = 127 * 2 ^ k)"
proof
  assume "unpadded_validate (UnpaddedPieceSize n) = Ok ()"
  then have "drop_bit (trailing_zeros n) n = 127"
    by (auto simp: unpadded_validate_def Let_def MIN_UNPADDED_PIECE_SIZE_def split: if_splits)
  then have "unat n div 2 ^ trailing_zeros n = 127" by (simp flip: unat_drop_bit)
  then have "unat n = 127 * 2 ^ trailing_zeros n"
    using trailing_zeros_div [of n] by (metis add.right_neutral div_mult_mod_eq)
  then show "\<exists>k. unat n = 127 * 2 ^ k" by blast
next
  assume "\<exists>k. unat n = 127 * 2 ^ k"
  then obtain k where "unat n = 127 * 2 ^ k" by blast
  from size_127 [OF this] show "unpadded_validate (UnpaddedPieceSize n) = Ok ()"
    by (auto simp: unpadded_validate_def Let_def MIN_UNPADDED_PIECE_SIZE_def not_less)
qed

lemma count_ones_power: "count_ones w = 1 \<longleftrightarrow> (\<exists>k < 64. w = push_bit k 1)"
proof
  assume "count_ones w = 1"
  then obtain k where k: "filter (bit w) [0..<64] = [k]"
    by (auto simp: count_ones_def length_Suc_conv)
  have "bit w i \<longleftrightarrow> i = k" for i
    using arg_cong [OF k, of set] bit_imp_le_length [of w i] by auto
  then have "w = push_bit k 1" by (intro bit_word_eqI) (auto simp: bit_simps)
  moreover have "k < 64" using arg_cong [OF k, of set] by auto
  ultimately show "\<exists>k < 64. w = push_bit k 1" by blast
next
  assume "\<exists>k < 64. w = push_bit k 1"
  then obtain k where k: "k < 64" "w = push_bit k 1" by blast
  then have "filter (bit w) [0..<64] = filter (\<lambda>i. i = k) [0..<64]"
    by (intro filter_cong) (auto simp: bit_simps)
  also have "length \<dots> = card {i \<in> set [0..<64]. i = k}"
    by (metis distinct_card distinct_filter distinct_upt set_filter)
  also have "{i \<in> set [0..<64]. i = k} = {k}" using k(1) by auto
  finally show "count_ones w = 1" by (simp add: count_ones_def)
qed

lemma padded_validate_iff:
  "padded_validate (PaddedPieceSize n) = Ok () \<longleftrightarrow> (\<exists>k. unat n = 128 * 2 ^ k)"
proof
  assume "padded_validate (PaddedPieceSize n) = Ok ()"
  then have "128 \<le> n" "count_ones n = 1"
    by (auto simp: padded_validate_def Let_def MIN_PADDED_PIECE_SIZE_def not_less split: if_splits)
  then obtain k where k: "k < 64" "n = push_bit k 1" "128 \<le> unat n"
    unfolding count_ones_power word_le_nat_alt by auto
  then have n: "unat n = 2 ^ k" by (simp add: unat_two_power)
  have "7 \<le> k"
  proof (rule ccontr)
    assume "\<not> 7 \<le> k"
    then have "(2 :: nat) ^ k < 2 ^ 7" by (intro power_strict_increasing) auto
    with n k(3) show False by simp
  qed
  then have "2 ^ k = (128 :: nat) * 2 ^ (k - 7)" using power_add [of "2 :: nat" 7 "k - 7"] by simp
  with n show "\<exists>k. unat n = 128 * 2 ^ k" by metis
next
  assume "\<exists>k. unat n = 128 * 2 ^ k"
  then obtain k where k: "unat n = 2 ^ (k + 7)" by (auto simp: power_add)
  have "(2 :: nat) ^ (k + 7) < 2 ^ 64" using k unat_u64_bound [of n] by simp
  then have "k + 7 < 64" by (rule power_less_imp_less_exp [rotated]) simp
  moreover from this have "n = push_bit (k + 7) 1"
    using k by (simp add: word_unat_eq_iff unat_two_power)
  ultimately have "count_ones n = 1" unfolding count_ones_power by blast
  moreover have "128 \<le> n" using k by (simp add: word_le_nat_alt power_add)
  ultimately show "padded_validate (PaddedPieceSize n) = Ok ()"
    by (simp add: padded_validate_def Let_def MIN_PADDED_PIECE_SIZE_def)
qed


text \<open>
  Padding a valid size gives a valid size from which unpadding recovers it, except that
  \<open>127 * 2 ^ 57\<close> is valid while its padded size \<open>2 ^ 64\<close> is out of range.
\<close>

lemma padded_valid:
  assumes n: "unat n = 127 * 2 ^ k" and "k < 57"
  shows "padded oc (UnpaddedPieceSize n) = Ok (PaddedPieceSize (push_bit (k + 7) 1))"
    and "unat (push_bit (k + 7) 1 :: u64) = 128 * 2 ^ k"
proof -
  have p: "(2 :: nat) ^ (k + 7) < 2 ^ 64" using assms(2) by (intro power_strict_increasing) auto
  show u: "unat (push_bit (k + 7) 1 :: u64) = 128 * 2 ^ k"
    using unat_two_power [of "k + 7"] assms(2) by (simp only: push_bit_of_1) (simp add: power_add)
  have d: "unat (n div 127) = 2 ^ k" using n by (simp add: unat_div)
  have "unat n + unat (n div 127) = 128 * 2 ^ k" using n d by simp
  moreover have "(128 :: nat) * 2 ^ k < 2 ^ 64" using p by (simp add: power_add mult.commute)
  ultimately have lt: "unat n + unat (n div 127) < 2 ^ LENGTH(64)" and "unat (n + n div 127) = 128 * 2 ^ k"
    by (auto simp: unat_add_lem [THEN iffD1])
  with u show "padded oc (UnpaddedPieceSize n) = Ok (PaddedPieceSize (push_bit (k + 7) 1))"
    by (simp add: padded_def MIN_UNPADDED_PIECE_SIZE_def word_unat_eq_iff add_w_Ok [OF lt])
qed

lemma unpadded_valid:
  assumes n: "unat n = 128 * 2 ^ k"
  shows "\<exists>m. unpadded oc (PaddedPieceSize n) = Ok (UnpaddedPieceSize m) \<and> unat m = 127 * 2 ^ k"
proof -
  have d: "unat (n div 128) = 2 ^ k" using n by (simp add: unat_div)
  have le: "n div 128 \<le> n" using n d by (simp add: word_le_nat_alt)
  moreover have "unat (n - n div 128) = 127 * 2 ^ k" using unat_sub [OF le] n d by simp
  ultimately show ?thesis by (auto simp: unpadded_def MIN_PADDED_PIECE_SIZE_def sub_w_Ok)
qed

lemma padded_overflow:
  assumes "unat n = 127 * 2 ^ 57"
  shows "padded True (UnpaddedPieceSize n) = Panic"
    and "padded False (UnpaddedPieceSize n) = Ok (PaddedPieceSize 0)"
proof -
  have d: "unat (n div 127) = 2 ^ 57" using assms by (simp add: unat_div)
  then show "padded True (UnpaddedPieceSize n) = Panic"
    using assms by (simp add: padded_def add_w_def MIN_UNPADDED_PIECE_SIZE_def)
  have "unat (n + n div 127) = 0" using assms d by (simp add: unat_word_ariths)
  then show "padded False (UnpaddedPieceSize n) = Ok (PaddedPieceSize 0)"
    by (simp add: padded_def MIN_UNPADDED_PIECE_SIZE_def unat_eq_0)
qed

context codec_libs
begin

lemma piece_info_codec: "codec anything (encode_piece_info lib) (decode_piece_info lib)"
  by (rule codecI) (simp add: encode_piece_info_def decode_piece_info_def rt)

end


subsection \<open>Properties\<close>

text \<open>
  C37: The size checks accept exactly the sizes meant: an unpadded size is valid if and only if it is
  127 times a power of two, a padded size if and only if it is 128 times a power of two.
\<close>

theorem piece_size_validation:
  "(unpadded_validate (UnpaddedPieceSize n) = Ok () \<longleftrightarrow> (\<exists>k. unat n = 127 * 2 ^ k)) \<and>
   (padded_validate (PaddedPieceSize n) = Ok () \<longleftrightarrow> (\<exists>k. unat n = 128 * 2 ^ k))"
  by (simp add: unpadded_validate_iff padded_validate_iff)

text \<open>
  Padding and unpadding are inverse on valid sizes: a valid unpadded size below \<open>127 * 2 ^ 57\<close> is
  padded, in either build, to a valid padded size from which unpadding gives it back.
\<close>

lemma piece_padding_inverse:
  assumes "unpadded_validate (UnpaddedPieceSize n) = Ok ()" "unat n < 127 * 2 ^ 57"
  shows "\<exists>m. padded oc (UnpaddedPieceSize n) = (Ok (PaddedPieceSize m) :: (_, 'e) result) \<and>
    padded_validate (PaddedPieceSize m) = Ok () \<and>
    unpadded oc (PaddedPieceSize m) = (Ok (UnpaddedPieceSize n) :: (_, 'e) result)"
proof -
  obtain k where k: "unat n = 127 * 2 ^ k" using assms(1) unpadded_validate_iff by blast
  then have "(2 :: nat) ^ k < 2 ^ 57" using assms(2) by simp
  then have "k < 57" by (rule power_less_imp_less_exp [rotated]) simp
  note p = padded_valid [OF k this]
  obtain m where "unpadded oc (PaddedPieceSize (push_bit (k + 7) 1)) = (Ok (UnpaddedPieceSize m) :: (_, 'e) result)"
    "unat m = 127 * 2 ^ k"
    using unpadded_valid [where 'a = 'e, OF p(2), of oc] by blast
  moreover from this have "m = n" using k by (simp add: word_unat_eq_iff)
  ultimately show ?thesis
    using p padded_validate_iff by (intro exI [of _ "push_bit (k + 7) 1"]) blast
qed

text \<open>
  The largest valid unpadded size, \<open>127 * 2 ^ 57\<close>, has no padded size: computing it panics with
  overflow checks and gives 0 without them.
\<close>

lemma piece_padding_overflow:
  "unpadded_validate (UnpaddedPieceSize (127 * 2 ^ 57)) = Ok () \<and>
   padded True (UnpaddedPieceSize (127 * 2 ^ 57)) = (Panic :: (_, 'e) result) \<and>
   padded False (UnpaddedPieceSize (127 * 2 ^ 57)) = (Ok (PaddedPieceSize 0) :: (_, 'e) result)"
proof -
  have u: "unat (127 * 2 ^ 57 :: u64) = 127 * 2 ^ 57" by simp
  from padded_overflow [OF u] show ?thesis using u unpadded_validate_iff by blast
qed

end
