(* ===== verification/Chain_Types.thy ===== *)
theory Chain_Types
  imports Address
begin

text \<open>
  The CBOR forms of the primitive chain types: big integers (\<open>primitives/bigint/src\<close>), fixed hashes
  (\<open>primitives/hash/src/h256.rs\<close>), byte vectors (\<open>primitives/bytes/src\<close>), actors and the
  numeric constants (\<open>primitives/types/src\<close>).
\<close>

text \<open>\<open>BigIntWrapper\<close>: a sign byte followed by the big-endian magnitude, nothing at all for zero.\<close>

definition encode_bigint :: "'cid libs \<Rightarrow> int \<Rightarrow> bytes" where
  "encode_bigint lib i =
    (let (sign, v) = to_bytes_be lib i in
     e_bytes lib
       (case sign of
          Plus \<Rightarrow> 0 # v
        | Minus \<Rightarrow> 1 # v
        | NoSign \<Rightarrow> []))"

definition decode_bigint :: "'cid libs \<Rightarrow> bytes \<Rightarrow> (int \<times> bytes) cbor" where
  "decode_bigint lib b =
    and_then (d_bytes lib b) (\<lambda>(v, r).
      if v = [] then Ok (0, r)
      else if v ! 0 = 0 then Ok (from_bytes_be lib Plus (drop 1 v), r)
      else if v ! 0 = 1 then Ok (from_bytes_be lib Minus (drop 1 v), r)
      else Err (Message ''big int prefix should be either 0 or 1''))"

definition encode_biguint :: "'cid libs \<Rightarrow> nat \<Rightarrow> bytes" where
  "encode_biguint lib n =
    (let v = u_to_bytes_be lib n in
     e_bytes lib (if v = [0] then [] else 0 # v))"

definition decode_biguint :: "'cid libs \<Rightarrow> bytes \<Rightarrow> (nat \<times> bytes) cbor" where
  "decode_biguint lib b = and_then (d_bytes lib b) (\<lambda>(v, r). Ok (u_from_bytes_be lib v, r))"

text \<open>\<open>H256\<close>: 32 bytes.\<close>

definition h256_ok :: "bytes \<Rightarrow> bool" where
  "h256_ok h \<longleftrightarrow> length h = 32"

definition encode_h256 :: "'cid libs \<Rightarrow> bytes \<Rightarrow> bytes" where
  "encode_h256 lib h = e_bytes lib h"

definition decode_h256 :: "'cid libs \<Rightarrow> bytes \<Rightarrow> (bytes \<times> bytes) cbor" where
  "decode_h256 lib b =
    and_then (d_bytes lib b) (\<lambda>(v, r).
      if length v = 32 then Ok (v, r) else Err (Message ''H256 length must be 32 Bytes''))"

definition encode_bytes :: "'cid libs \<Rightarrow> bytes \<Rightarrow> bytes" where
  "encode_bytes lib v = e_bytes lib v"

definition decode_bytes :: "'cid libs \<Rightarrow> bytes \<Rightarrow> (bytes \<times> bytes) cbor" where
  "decode_bytes lib b = d_bytes lib b"

definition TOKEN_PRECISION :: u64 where
  "TOKEN_PRECISION = 1000000000000000000"

definition TOTAL_FILECOIN :: int where
  "TOTAL_FILECOIN = 2000000000 * uint TOKEN_PRECISION"

definition TOTAL_MINING_REWARD :: int where
  "TOTAL_MINING_REWARD = 1400000000 * uint TOKEN_PRECISION"

definition BLOCK_GAS_LIMIT :: u64 where
  "BLOCK_GAS_LIMIT = 100000000"

record 'cid Actor_record =
  actor_code :: 'cid
  actor_head :: 'cid
  actor_nonce :: u64
  actor_balance :: int

definition encode_actor :: "'cid libs \<Rightarrow> 'cid Actor_record \<Rightarrow> bytes" where
  "encode_actor lib a =
    e_array lib 4 @ e_cid lib (actor_code a) @ e_cid lib (actor_head a) @ e_u64 lib (actor_nonce a) @
    encode_bigint lib (actor_balance a)"

definition decode_actor :: "'cid libs \<Rightarrow> bytes \<Rightarrow> ('cid Actor_record \<times> bytes) cbor" where
  "decode_actor lib b =
    and_then (d_array_exact lib 4 b) (\<lambda>b.
    and_then (d_cid lib b) (\<lambda>(code, b).
    and_then (d_cid lib b) (\<lambda>(head, b).
    and_then (d_u64 lib b) (\<lambda>(nonce, b).
    and_then (decode_bigint lib b) (\<lambda>(balance, b).
      Ok (\<lparr>actor_code = code, actor_head = head, actor_nonce = nonce, actor_balance = balance\<rparr>, b))))))"

context codec_libs
begin

lemma bigint_codec: "codec anything (encode_bigint lib) (decode_bigint lib)"
proof (rule codecI)
  fix i r
  obtain s v where sv: "to_bytes_be lib i = (s, v)" by fastforce
  consider "i = 0" | "0 < i" | "i < 0" by linarith
  then show "decode_bigint lib (encode_bigint lib i @ r) = Ok (i, r)"
  proof cases
    case 1
    then show ?thesis using sv sign_zero by (simp add: encode_bigint_def decode_bigint_def rt)
  next
    case 2
    then show ?thesis
      using sv sign_pos [OF 2] bytes_be_rt [of i] by (simp add: encode_bigint_def decode_bigint_def rt)
  next
    case 3
    then show ?thesis
      using sv sign_neg [OF 3] bytes_be_rt [of i] by (simp add: encode_bigint_def decode_bigint_def rt)
  qed
qed

lemmas bigint_rt = codecD [OF bigint_codec TrueI]

lemma biguint_codec: "codec anything (encode_biguint lib) (decode_biguint lib)"
  by (rule codecI) (auto simp: encode_biguint_def decode_biguint_def rt Let_def u_bytes_be_rt u_bytes_be_zero u_bytes_be_nil)

lemma h256_codec: "codec h256_ok (encode_h256 lib) (decode_h256 lib)"
  by (rule codecI) (simp add: encode_h256_def decode_h256_def rt h256_ok_def)

lemmas h256_rt = codecD [OF h256_codec]

lemma actor_codec: "codec anything (encode_actor lib) (decode_actor lib)"
  by (rule codecI) (simp add: encode_actor_def decode_actor_def rt bigint_rt)

lemmas address_rt = codecD [OF address_codec]

end

end
