(* ===== verification/Message.thy ===== *)
theory Message
  imports Chain_Types Codec_Rfc7049
begin

text \<open>
  Signatures as data (\<open>primitives/crypto/src/signature.rs\<close>) and messages
  (\<open>primitives/message/src\<close>): signature types, the CBOR form of signatures, unsigned and
  signed messages and receipts, content identifiers of messages, required funds and the
  validation of a message for inclusion in a block.
\<close>

datatype SignatureType = SigSecp256k1 | SigBls

datatype CryptoError =
  UnknownSignatureType u8 | CryptoSecp256k1 string | CryptoBls string | NotSameType SignatureType Protocol
| VerifyFailed

definition signature_type_try_from :: "u8 \<Rightarrow> (SignatureType, CryptoError) result" where
  "signature_type_try_from value =
    (if value = 1 then Ok SigSecp256k1
     else if value = 2 then Ok SigBls
     else Err (UnknownSignatureType value))"

primrec signature_type_u8 :: "SignatureType \<Rightarrow> u8" where
  "signature_type_u8 SigSecp256k1 = 1"
| "signature_type_u8 SigBls = 2"

record Signature =
  sig_type :: SignatureType
  sig_data :: bytes

definition signature_new :: "SignatureType \<Rightarrow> bytes \<Rightarrow> Signature" where
  "signature_new ty d = \<lparr>sig_type = ty, sig_data = d\<rparr>"

definition new_secp256k1 :: "bytes \<Rightarrow> Signature" where
  "new_secp256k1 d = signature_new SigSecp256k1 d"

definition new_bls :: "bytes \<Rightarrow> Signature" where
  "new_bls d = signature_new SigBls d"

definition encode_signature :: "'cid libs \<Rightarrow> Signature \<Rightarrow> bytes" where
  "encode_signature lib s = e_bytes lib (signature_type_u8 (sig_type s) # sig_data s)"

text \<open>The first byte is read by indexing, so an empty byte string makes the decoder panic.\<close>

definition decode_signature :: "'cid libs \<Rightarrow> bytes \<Rightarrow> (Signature \<times> bytes) cbor" where
  "decode_signature lib b =
    and_then (d_bytes lib b) (\<lambda>(v, r).
    and_then (index_at v 0) (\<lambda>t.
    and_then (map_err (\<lambda>_. Message ''expected signature type'') (signature_type_try_from t)) (\<lambda>ty.
      Ok (\<lparr>sig_type = ty, sig_data = drop 1 v\<rparr>, r))))"

record UnsignedMessage =
  msg_version :: u64
  msg_to :: Address
  msg_from :: Address
  msg_nonce :: u64
  msg_value :: int
  msg_gas_price :: int
  msg_gas_limit :: int
  msg_method :: u64
  msg_params :: bytes

definition encode_unsigned_message :: "'cid libs \<Rightarrow> UnsignedMessage \<Rightarrow> bytes" where
  "encode_unsigned_message lib m =
    e_array lib 9 @ e_i64 lib (msg_version m) @ encode_address lib (msg_to m) @
    encode_address lib (msg_from m) @ e_u64 lib (msg_nonce m) @ encode_bigint lib (msg_value m) @
    encode_bigint lib (msg_gas_price m) @ encode_bigint lib (msg_gas_limit m) @
    e_u64 lib (msg_method m) @ e_bytes lib (msg_params m)"

definition decode_unsigned_message :: "'cid libs \<Rightarrow> bytes \<Rightarrow> (UnsignedMessage \<times> bytes) cbor" where
  "decode_unsigned_message lib b =
    and_then (d_array_exact lib 9 b) (\<lambda>b.
    and_then (d_i64 lib b) (\<lambda>(version, b).
    and_then (decode_address lib b) (\<lambda>(to, b).
    and_then (decode_address lib b) (\<lambda>(from, b).
    and_then (d_u64 lib b) (\<lambda>(nonce, b).
    and_then (decode_bigint lib b) (\<lambda>(value, b).
    and_then (decode_bigint lib b) (\<lambda>(gas_price, b).
    and_then (decode_bigint lib b) (\<lambda>(gas_limit, b).
    and_then (d_u64 lib b) (\<lambda>(method, b).
    and_then (d_bytes lib b) (\<lambda>(params, b).
      Ok (\<lparr>msg_version = version, msg_to = to, msg_from = from, msg_nonce = nonce, msg_value = value,
           msg_gas_price = gas_price, msg_gas_limit = gas_limit, msg_method = method,
           msg_params = params\<rparr>, b)))))))))))"

definition unsigned_message_cid_with_data :: "'cid libs \<Rightarrow> bytes \<Rightarrow> 'cid" where
  "unsigned_message_cid_with_data lib d = cid_v1_dag_cbor lib d"

definition unsigned_message_cid :: "'cid libs \<Rightarrow> UnsignedMessage \<Rightarrow> 'cid" where
  "unsigned_message_cid lib m = unsigned_message_cid_with_data lib (encode_unsigned_message lib m)"

definition required_funds :: "UnsignedMessage \<Rightarrow> int" where
  "required_funds m = msg_value m + msg_gas_price m * msg_gas_limit m"

definition validate_for_block_inclusion :: "UnsignedMessage \<Rightarrow> int \<Rightarrow> (unit, string) result" where
  "validate_for_block_inclusion m min_gas =
    (if msg_version m \<noteq> 0 then Err ''version unsupported''
     else if msg_value m < 0 then Err ''value field cannot be negative''
     else if msg_value m > TOTAL_FILECOIN then
       Err ''value field cannot be greater than total filecoin supply''
     else if msg_gas_price m < 0 then Err ''gas_price field cannot be negative''
     else if msg_gas_limit m > uint BLOCK_GAS_LIMIT then
       Err ''gas_limit field cannot be greater than a block's gas limit''
     else if msg_gas_limit m < min_gas then
       Err ''gas_limit field cannot be less than the cost of storing a message on chain''
     else Ok ())"

record SignedMessage =
  sm_message :: UnsignedMessage
  sm_signature :: Signature

definition encode_signed_message :: "'cid libs \<Rightarrow> SignedMessage \<Rightarrow> bytes" where
  "encode_signed_message lib m =
    e_array lib 2 @ encode_unsigned_message lib (sm_message m) @ encode_signature lib (sm_signature m)"

definition decode_signed_message :: "'cid libs \<Rightarrow> bytes \<Rightarrow> (SignedMessage \<times> bytes) cbor" where
  "decode_signed_message lib b =
    and_then (d_array_exact lib 2 b) (\<lambda>b.
    and_then (decode_unsigned_message lib b) (\<lambda>(message, b).
    and_then (decode_signature lib b) (\<lambda>(signature, b).
      Ok (\<lparr>sm_message = message, sm_signature = signature\<rparr>, b))))"

definition signed_message_cid_with_data :: "'cid libs \<Rightarrow> SignedMessage \<Rightarrow> bytes \<Rightarrow> 'cid" where
  "signed_message_cid_with_data lib m d =
    (if sig_type (sm_signature m) = SigBls then unsigned_message_cid lib (sm_message m)
     else cid_v1_dag_cbor lib d)"

definition signed_message_cid :: "'cid libs \<Rightarrow> SignedMessage \<Rightarrow> 'cid" where
  "signed_message_cid lib m =
    (if sig_type (sm_signature m) = SigBls then unsigned_message_cid lib (sm_message m)
     else cid_v1_dag_cbor lib (encode_signed_message lib m))"

definition signed_message_size :: "'cid libs \<Rightarrow> SignedMessage \<Rightarrow> nat" where
  "signed_message_size lib m = length (encode_signed_message lib m)"

definition vm_message :: "SignedMessage \<Rightarrow> UnsignedMessage" where
  "vm_message m = sm_message m"

record MessageReceipt =
  receipt_exit_code :: u8
  receipt_return :: bytes
  receipt_gas_used :: int

definition encode_message_receipt :: "'cid libs \<Rightarrow> MessageReceipt \<Rightarrow> bytes" where
  "encode_message_receipt lib m =
    e_array lib 3 @ e_u8 lib (receipt_exit_code m) @ e_bytes lib (receipt_return m) @
    encode_bigint lib (receipt_gas_used m)"

definition decode_message_receipt :: "'cid libs \<Rightarrow> bytes \<Rightarrow> (MessageReceipt \<times> bytes) cbor" where
  "decode_message_receipt lib b =
    and_then (d_array_exact lib 3 b) (\<lambda>b.
    and_then (d_u8 lib b) (\<lambda>(exit_code, b).
    and_then (d_bytes lib b) (\<lambda>(ret, b).
    and_then (decode_bigint lib b) (\<lambda>(gas_used, b).
      Ok (\<lparr>receipt_exit_code = exit_code, receipt_return = ret, receipt_gas_used = gas_used\<rparr>, b)))))"

definition message_ok :: "UnsignedMessage \<Rightarrow> bool" where
  "message_ok m \<longleftrightarrow> address_cbor_ok (msg_to m) \<and> address_cbor_ok (msg_from m)"

lemma signature_type_try_from_u8 [simp]: "signature_type_try_from (signature_type_u8 t) = Ok t"
  by (cases t) (simp_all add: signature_type_try_from_def)

context codec_libs
begin

lemma signature_codec: "codec anything (encode_signature lib) (decode_signature lib)"
  by (rule codecI) (simp add: encode_signature_def decode_signature_def rt)

lemmas signature_rt = codecD [OF signature_codec TrueI]

lemma unsigned_message_codec:
  "codec message_ok (encode_unsigned_message lib) (decode_unsigned_message lib)"
  by (rule codecI)
    (simp add: encode_unsigned_message_def decode_unsigned_message_def rt bigint_rt address_rt message_ok_def)

lemma signed_message_codec:
  "codec (\<lambda>m. message_ok (sm_message m)) (encode_signed_message lib) (decode_signed_message lib)"
  by (rule codecI)
    (simp add: encode_signed_message_def decode_signed_message_def rt signature_rt
      codecD [OF unsigned_message_codec])

lemma message_receipt_codec: "codec anything (encode_message_receipt lib) (decode_message_receipt lib)"
  by (rule codecI) (simp add: encode_message_receipt_def decode_message_receipt_def rt bigint_rt)

end


subsection \<open>Properties\<close>

text \<open>
  The check before a message enters a block accepts exactly the messages of version 0 whose value
  is between 0 and the total supply, whose gas price is not negative, and whose gas limit is at
  least the minimum and at most the gas limit of a block.
\<close>

lemma block_inclusion_iff:
  "validate_for_block_inclusion m min_gas = Ok () \<longleftrightarrow>
     msg_version m = 0 \<and> msg_value m \<in> {0..TOTAL_FILECOIN} \<and> 0 \<le> msg_gas_price m \<and>
     msg_gas_limit m \<in> {min_gas..uint BLOCK_GAS_LIMIT}"
  by (auto simp: validate_for_block_inclusion_def)

text \<open>
  The CBOR form of signed messages is unambiguous: a signed message with well-formed addresses is
  read back with the rest of the input left alone, and if two encodings followed by anything are
  the same bytes then the messages are the same.
\<close>

lemma signed_message_roundtrip:
  assumes "codec_libs lib" "message_ok (sm_message m)" "message_ok (sm_message m')"
  shows "decode_signed_message lib (encode_signed_message lib m @ r) = Ok (m, r) \<and>
    (encode_signed_message lib m @ r = encode_signed_message lib m' @ r' \<longrightarrow> m = m' \<and> r = r')"
  using codecD [OF codec_libs.signed_message_codec [OF assms(1)]]
    codec_prefix_free [OF codec_libs.signed_message_codec [OF assms(1)], of m m'] assms(2,3) by blast

definition sample_message :: UnsignedMessage where
  "sample_message =
    \<lparr>msg_version = 0, msg_to = \<lparr>protocol = Id, payload = [5]\<rparr>,
     msg_from = \<lparr>protocol = Bls, payload = replicate 48 1\<rparr>, msg_nonce = 34, msg_value = 1000,
     msg_gas_price = 10, msg_gas_limit = 100, msg_method = 6, msg_params = [1, 2]\<rparr>"

lemma sample_message_ok [simp]: "message_ok sample_message"
  by (simp add: sample_message_def message_ok_def address_cbor_ok_def payload_len_ok_def BLS_PUBLIC_KEY_LEN_def)

end
