(* ===== verification/Sector.thy ===== *)
theory Sector
  imports Rust_Str Codec_Libs Chain_Types
begin

text \<open>
  Sectors and proofs (\<open>primitives/sector/src\<close>): the registered proof types with their numeric
  codes, the mapping between seal, winning PoSt and window PoSt variants, sector sizes, and the
  CBOR forms of sector information, PoSt verification and seal verification.
\<close>

record SectorId =
  sid_miner :: u64
  sid_number :: u64

definition encode_sector_id :: "'cid libs \<Rightarrow> SectorId \<Rightarrow> bytes" where
  "encode_sector_id lib s = e_array lib 2 @ e_u64 lib (sid_miner s) @ e_u64 lib (sid_number s)"

definition decode_sector_id :: "'cid libs \<Rightarrow> bytes \<Rightarrow> (SectorId \<times> bytes) cbor" where
  "decode_sector_id lib b =
    and_then (d_array_exact lib 2 b) (\<lambda>b.
    and_then (d_u64 lib b) (\<lambda>(miner, b).
    and_then (d_u64 lib b) (\<lambda>(number, b).
      Ok (\<lparr>sid_miner = miner, sid_number = number\<rparr>, b))))"

definition SIZE_UNITS :: "string list" where
  "SIZE_UNITS = [''B'', ''KiB'', ''MiB'', ''GiB'', ''TiB'', ''PiB'', ''EiB'']"

function readable_loop :: "u64 \<Rightarrow> nat \<Rightarrow> u64 \<times> nat" where
  "readable_loop sz unit =
    (if sz \<ge> 1024 \<and> unit < length SIZE_UNITS - 1 then readable_loop (sz div 1024) (unit + 1)
     else (sz, unit))"
  by pat_completeness auto
termination
  by (relation "measure (\<lambda>(sz, unit). length SIZE_UNITS - unit)") auto

declare readable_loop.simps [simp del]

definition readable_sector_size :: "u64 \<Rightarrow> (string, 'e) result" where
  "readable_sector_size sz =
    (let (sz, unit) = readable_loop sz 0 in
     and_then (index_at SIZE_UNITS unit) (\<lambda>u. Ok (show_u64 sz @ u)))"

datatype RegisteredProof =
  StackedDRG32GiBSeal
| StackedDRG2KiBSeal
| StackedDRG8MiBSeal
| StackedDRG512MiBSeal
| StackedDRG2KiBWinningPoSt
| StackedDRG2KiBWindowPoSt
| StackedDRG8MiBWinningPoSt
| StackedDRG8MiBWindowPoSt
| StackedDRG512MiBWinningPoSt
| StackedDRG512MiBWindowPoSt
| StackedDRG32GiBWinningPoSt
| StackedDRG32GiBWindowPoSt
| StackedDRG64GiBSeal
| StackedDRG64GiBWinningPoSt
| StackedDRG64GiBWindowPoSt

primrec registered_proof_u64 :: "RegisteredProof \<Rightarrow> u64" where
  "registered_proof_u64 StackedDRG32GiBSeal = 1"
| "registered_proof_u64 StackedDRG2KiBSeal = 3"
| "registered_proof_u64 StackedDRG8MiBSeal = 5"
| "registered_proof_u64 StackedDRG512MiBSeal = 7"
| "registered_proof_u64 StackedDRG2KiBWinningPoSt = 9"
| "registered_proof_u64 StackedDRG2KiBWindowPoSt = 10"
| "registered_proof_u64 StackedDRG8MiBWinningPoSt = 11"
| "registered_proof_u64 StackedDRG8MiBWindowPoSt = 12"
| "registered_proof_u64 StackedDRG512MiBWinningPoSt = 13"
| "registered_proof_u64 StackedDRG512MiBWindowPoSt = 14"
| "registered_proof_u64 StackedDRG32GiBWinningPoSt = 15"
| "registered_proof_u64 StackedDRG32GiBWindowPoSt = 16"
| "registered_proof_u64 StackedDRG64GiBSeal = 17"
| "registered_proof_u64 StackedDRG64GiBWinningPoSt = 18"
| "registered_proof_u64 StackedDRG64GiBWindowPoSt = 19"

definition registered_proof_try_from :: "u64 \<Rightarrow> (RegisteredProof, string) result" where
  "registered_proof_try_from value =
    (if value = 1 then Ok StackedDRG32GiBSeal
     else if value = 3 then Ok StackedDRG2KiBSeal
     else if value = 5 then Ok StackedDRG8MiBSeal
     else if value = 7 then Ok StackedDRG512MiBSeal
     else if value = 9 then Ok StackedDRG2KiBWinningPoSt
     else if value = 10 then Ok StackedDRG2KiBWindowPoSt
     else if value = 11 then Ok StackedDRG8MiBWinningPoSt
     else if value = 12 then Ok StackedDRG8MiBWindowPoSt
     else if value = 13 then Ok StackedDRG512MiBWinningPoSt
     else if value = 14 then Ok StackedDRG512MiBWindowPoSt
     else if value = 15 then Ok StackedDRG32GiBWinningPoSt
     else if value = 16 then Ok StackedDRG32GiBWindowPoSt
     else if value = 17 then Ok StackedDRG64GiBSeal
     else if value = 18 then Ok StackedDRG64GiBWinningPoSt
     else if value = 19 then Ok StackedDRG64GiBWindowPoSt
     else Err ''unexpected registered proof'')"

definition TWO_KB :: u64 where "TWO_KB = push_bit 10 2"
definition EIGHT_MB :: u64 where "EIGHT_MB = push_bit 20 8"
definition FIVE_ONE_TWO_MB :: u64 where "FIVE_ONE_TWO_MB = push_bit 20 512"
definition THIRD_TWO_GB :: u64 where "THIRD_TWO_GB = push_bit 30 32"
definition SIXTY_TWO_GB :: u64 where "SIXTY_TWO_GB = 2 * THIRD_TWO_GB"

lemmas sector_sizes = TWO_KB_def EIGHT_MB_def FIVE_ONE_TWO_MB_def THIRD_TWO_GB_def SIXTY_TWO_GB_def

datatype UnknownSectorSizeErr = UnknownSectorSizeErr u64

fun registered_seal_proof :: "RegisteredProof \<Rightarrow> RegisteredProof" where
  "registered_seal_proof StackedDRG64GiBSeal = StackedDRG64GiBSeal"
| "registered_seal_proof StackedDRG64GiBWindowPoSt = StackedDRG64GiBSeal"
| "registered_seal_proof StackedDRG64GiBWinningPoSt = StackedDRG64GiBSeal"
| "registered_seal_proof StackedDRG32GiBSeal = StackedDRG32GiBSeal"
| "registered_seal_proof StackedDRG32GiBWindowPoSt = StackedDRG32GiBSeal"
| "registered_seal_proof StackedDRG32GiBWinningPoSt = StackedDRG32GiBSeal"
| "registered_seal_proof StackedDRG2KiBSeal = StackedDRG2KiBSeal"
| "registered_seal_proof StackedDRG2KiBWindowPoSt = StackedDRG2KiBSeal"
| "registered_seal_proof StackedDRG2KiBWinningPoSt = StackedDRG2KiBSeal"
| "registered_seal_proof StackedDRG8MiBSeal = StackedDRG8MiBSeal"
| "registered_seal_proof StackedDRG8MiBWindowPoSt = StackedDRG8MiBSeal"
| "registered_seal_proof StackedDRG8MiBWinningPoSt = StackedDRG8MiBSeal"
| "registered_seal_proof StackedDRG512MiBSeal = StackedDRG512MiBSeal"
| "registered_seal_proof StackedDRG512MiBWindowPoSt = StackedDRG512MiBSeal"
| "registered_seal_proof StackedDRG512MiBWinningPoSt = StackedDRG512MiBSeal"

text \<open>The wildcard arm is \<open>unreachable!\<close> in the code.\<close>

definition sector_size :: "RegisteredProof \<Rightarrow> (u64, 'e) result" where
  "sector_size self =
    (case registered_seal_proof self of
       StackedDRG64GiBSeal \<Rightarrow> Ok SIXTY_TWO_GB
     | StackedDRG32GiBSeal \<Rightarrow> Ok THIRD_TWO_GB
     | StackedDRG2KiBSeal \<Rightarrow> Ok TWO_KB
     | StackedDRG8MiBSeal \<Rightarrow> Ok EIGHT_MB
     | StackedDRG512MiBSeal \<Rightarrow> Ok FIVE_ONE_TWO_MB
     | _ \<Rightarrow> Panic)"

definition from_sector_size :: "u64 \<Rightarrow> (RegisteredProof, UnknownSectorSizeErr) result" where
  "from_sector_size ssize =
    (if ssize = TWO_KB then Ok StackedDRG2KiBSeal
     else if ssize = EIGHT_MB then Ok StackedDRG8MiBSeal
     else if ssize = FIVE_ONE_TWO_MB then Ok StackedDRG512MiBSeal
     else if ssize = THIRD_TWO_GB then Ok StackedDRG32GiBSeal
     else if ssize = SIXTY_TWO_GB then Ok StackedDRG64GiBSeal
     else Err (UnknownSectorSizeErr ssize))"

definition window_post_partition_sectors :: "RegisteredProof \<Rightarrow> (u64, 'e) result" where
  "window_post_partition_sectors self =
    (case registered_seal_proof self of
       StackedDRG64GiBSeal \<Rightarrow> Ok 2300
     | StackedDRG32GiBSeal \<Rightarrow> Ok 2349
     | StackedDRG2KiBSeal \<Rightarrow> Ok 2
     | StackedDRG8MiBSeal \<Rightarrow> Ok 2
     | StackedDRG512MiBSeal \<Rightarrow> Ok 2
     | _ \<Rightarrow> Panic)"

fun registered_winning_post_proof :: "RegisteredProof \<Rightarrow> RegisteredProof" where
  "registered_winning_post_proof StackedDRG64GiBSeal = StackedDRG64GiBWinningPoSt"
| "registered_winning_post_proof StackedDRG64GiBWindowPoSt = StackedDRG64GiBWinningPoSt"
| "registered_winning_post_proof StackedDRG64GiBWinningPoSt = StackedDRG64GiBWinningPoSt"
| "registered_winning_post_proof StackedDRG32GiBSeal = StackedDRG32GiBWinningPoSt"
| "registered_winning_post_proof StackedDRG32GiBWindowPoSt = StackedDRG32GiBWinningPoSt"
| "registered_winning_post_proof StackedDRG32GiBWinningPoSt = StackedDRG32GiBWinningPoSt"
| "registered_winning_post_proof StackedDRG2KiBSeal = StackedDRG2KiBWinningPoSt"
| "registered_winning_post_proof StackedDRG2KiBWindowPoSt = StackedDRG2KiBWinningPoSt"
| "registered_winning_post_proof StackedDRG2KiBWinningPoSt = StackedDRG2KiBWinningPoSt"
| "registered_winning_post_proof StackedDRG8MiBSeal = StackedDRG8MiBWinningPoSt"
| "registered_winning_post_proof StackedDRG8MiBWindowPoSt = StackedDRG8MiBWinningPoSt"
| "registered_winning_post_proof StackedDRG8MiBWinningPoSt = StackedDRG8MiBWinningPoSt"
| "registered_winning_post_proof StackedDRG512MiBSeal = StackedDRG512MiBWinningPoSt"
| "registered_winning_post_proof StackedDRG512MiBWindowPoSt = StackedDRG512MiBWinningPoSt"
| "registered_winning_post_proof StackedDRG512MiBWinningPoSt = StackedDRG512MiBWinningPoSt"

fun registered_window_post_proof :: "RegisteredProof \<Rightarrow> RegisteredProof" where
  "registered_window_post_proof StackedDRG64GiBSeal = StackedDRG64GiBWindowPoSt"
| "registered_window_post_proof StackedDRG64GiBWinningPoSt = StackedDRG64GiBWindowPoSt"
| "registered_window_post_proof StackedDRG64GiBWindowPoSt = StackedDRG64GiBWindowPoSt"
| "registered_window_post_proof StackedDRG32GiBSeal = StackedDRG32GiBWindowPoSt"
| "registered_window_post_proof StackedDRG32GiBWinningPoSt = StackedDRG32GiBWindowPoSt"
| "registered_window_post_proof StackedDRG32GiBWindowPoSt = StackedDRG32GiBWindowPoSt"
| "registered_window_post_proof StackedDRG2KiBSeal = StackedDRG2KiBWindowPoSt"
| "registered_window_post_proof StackedDRG2KiBWinningPoSt = StackedDRG2KiBWindowPoSt"
| "registered_window_post_proof StackedDRG2KiBWindowPoSt = StackedDRG2KiBWindowPoSt"
| "registered_window_post_proof StackedDRG8MiBSeal = StackedDRG8MiBWindowPoSt"
| "registered_window_post_proof StackedDRG8MiBWinningPoSt = StackedDRG8MiBWindowPoSt"
| "registered_window_post_proof StackedDRG8MiBWindowPoSt = StackedDRG8MiBWindowPoSt"
| "registered_window_post_proof StackedDRG512MiBSeal = StackedDRG512MiBWindowPoSt"
| "registered_window_post_proof StackedDRG512MiBWinningPoSt = StackedDRG512MiBWindowPoSt"
| "registered_window_post_proof StackedDRG512MiBWindowPoSt = StackedDRG512MiBWindowPoSt"

definition encode_registered_proof :: "'cid libs \<Rightarrow> RegisteredProof \<Rightarrow> bytes" where
  "encode_registered_proof lib p = e_u64 lib (registered_proof_u64 p)"

definition decode_registered_proof :: "'cid libs \<Rightarrow> bytes \<Rightarrow> (RegisteredProof \<times> bytes) cbor" where
  "decode_registered_proof lib b =
    and_then (d_u64 lib b) (\<lambda>(proof, b).
    and_then (map_err (TypeMismatch (ucast proof)) (registered_proof_try_from proof)) (\<lambda>p. Ok (p, b)))"

record 'cid SectorInfo =
  si_registered_proof :: RegisteredProof
  si_sector_number :: u64
  si_sealed_cid :: 'cid

definition encode_sector_info :: "'cid libs \<Rightarrow> 'cid SectorInfo \<Rightarrow> bytes" where
  "encode_sector_info lib s =
    e_array lib 3 @ encode_registered_proof lib (si_registered_proof s) @ e_u64 lib (si_sector_number s) @
    e_cid lib (si_sealed_cid s)"

definition decode_sector_info :: "'cid libs \<Rightarrow> bytes \<Rightarrow> ('cid SectorInfo \<times> bytes) cbor" where
  "decode_sector_info lib b =
    and_then (d_array_exact lib 3 b) (\<lambda>b.
    and_then (decode_registered_proof lib b) (\<lambda>(proof, b).
    and_then (d_u64 lib b) (\<lambda>(number, b).
    and_then (d_cid lib b) (\<lambda>(cid, b).
      Ok (\<lparr>si_registered_proof = proof, si_sector_number = number, si_sealed_cid = cid\<rparr>, b)))))"

record PoStProof =
  post_registered_proof :: RegisteredProof
  proof_bytes :: bytes

definition encode_post_proof :: "'cid libs \<Rightarrow> PoStProof \<Rightarrow> bytes" where
  "encode_post_proof lib p =
    e_array lib 2 @ encode_registered_proof lib (post_registered_proof p) @ e_bytes lib (proof_bytes p)"

definition decode_post_proof :: "'cid libs \<Rightarrow> bytes \<Rightarrow> (PoStProof \<times> bytes) cbor" where
  "decode_post_proof lib b =
    and_then (d_array_exact lib 2 b) (\<lambda>b.
    and_then (decode_registered_proof lib b) (\<lambda>(proof, b).
    and_then (d_bytes lib b) (\<lambda>(v, b).
      Ok (\<lparr>post_registered_proof = proof, proof_bytes = v\<rparr>, b))))"

record 'cid WinningPoStVerifyInfo =
  win_randomness :: bytes
  win_proofs :: "PoStProof list"
  win_challenged_sectors :: "'cid SectorInfo list"
  win_prover :: u64

definition encode_winning_post :: "'cid libs \<Rightarrow> 'cid WinningPoStVerifyInfo \<Rightarrow> bytes" where
  "encode_winning_post lib w =
    e_array lib 4 @ encode_h256 lib (win_randomness w) @
    encode_vec lib (encode_post_proof lib) (win_proofs w) @
    encode_vec lib (encode_sector_info lib) (win_challenged_sectors w) @ e_u64 lib (win_prover w)"

definition decode_winning_post :: "'cid libs \<Rightarrow> bytes \<Rightarrow> ('cid WinningPoStVerifyInfo \<times> bytes) cbor" where
  "decode_winning_post lib b =
    and_then (d_array_exact lib 4 b) (\<lambda>b.
    and_then (decode_h256 lib b) (\<lambda>(randomness, b).
    and_then (decode_vec lib (decode_post_proof lib) b) (\<lambda>(proofs, b).
    and_then (decode_vec lib (decode_sector_info lib) b) (\<lambda>(sectors, b).
    and_then (d_u64 lib b) (\<lambda>(prover, b).
      Ok (\<lparr>win_randomness = randomness, win_proofs = proofs, win_challenged_sectors = sectors,
           win_prover = prover\<rparr>, b))))))"

record 'cid WindowPoStVerifyInfo =
  wdw_randomness :: bytes
  wdw_proofs :: "PoStProof list"
  wdw_challenged_sectors :: "'cid SectorInfo list"
  wdw_prover :: u64

definition encode_window_post :: "'cid libs \<Rightarrow> 'cid WindowPoStVerifyInfo \<Rightarrow> bytes" where
  "encode_window_post lib w =
    e_array lib 4 @ encode_h256 lib (wdw_randomness w) @
    encode_vec lib (encode_post_proof lib) (wdw_proofs w) @
    encode_vec lib (encode_sector_info lib) (wdw_challenged_sectors w) @ e_u64 lib (wdw_prover w)"

definition decode_window_post :: "'cid libs \<Rightarrow> bytes \<Rightarrow> ('cid WindowPoStVerifyInfo \<times> bytes) cbor" where
  "decode_window_post lib b =
    and_then (d_array_exact lib 4 b) (\<lambda>b.
    and_then (decode_h256 lib b) (\<lambda>(randomness, b).
    and_then (decode_vec lib (decode_post_proof lib) b) (\<lambda>(proofs, b).
    and_then (decode_vec lib (decode_sector_info lib) b) (\<lambda>(sectors, b).
    and_then (d_u64 lib b) (\<lambda>(prover, b).
      Ok (\<lparr>wdw_randomness = randomness, wdw_proofs = proofs, wdw_challenged_sectors = sectors,
           wdw_prover = prover\<rparr>, b))))))"

record 'cid SealVerifyInfo =
  seal_registered_proof :: RegisteredProof
  seal_sector_id :: SectorId
  seal_deal_ids :: "u64 list"
  seal_randomness :: bytes
  seal_interactive_randomness :: bytes
  seal_proof :: bytes
  seal_sealed_cid :: 'cid
  seal_unsealed_cid :: 'cid

definition encode_seal_verify_info :: "'cid libs \<Rightarrow> 'cid SealVerifyInfo \<Rightarrow> bytes" where
  "encode_seal_verify_info lib s =
    e_array lib 8 @ encode_registered_proof lib (seal_registered_proof s) @
    encode_sector_id lib (seal_sector_id s) @ encode_vec lib (e_u64 lib) (seal_deal_ids s) @
    encode_h256 lib (seal_randomness s) @ encode_h256 lib (seal_interactive_randomness s) @
    e_bytes lib (seal_proof s) @ e_cid lib (seal_sealed_cid s) @ e_cid lib (seal_unsealed_cid s)"

definition decode_seal_verify_info :: "'cid libs \<Rightarrow> bytes \<Rightarrow> ('cid SealVerifyInfo \<times> bytes) cbor" where
  "decode_seal_verify_info lib b =
    and_then (d_array_exact lib 8 b) (\<lambda>b.
    and_then (decode_registered_proof lib b) (\<lambda>(proof_type, b).
    and_then (decode_sector_id lib b) (\<lambda>(sector, b).
    and_then (decode_vec lib (d_u64 lib) b) (\<lambda>(deals, b).
    and_then (decode_h256 lib b) (\<lambda>(randomness, b).
    and_then (decode_h256 lib b) (\<lambda>(interactive, b).
    and_then (d_bytes lib b) (\<lambda>(prf, b).
    and_then (d_cid lib b) (\<lambda>(sealed, b).
    and_then (d_cid lib b) (\<lambda>(unsealed, b).
      Ok (\<lparr>seal_registered_proof = proof_type, seal_sector_id = sector, seal_deal_ids = deals,
           seal_randomness = randomness, seal_interactive_randomness = interactive, seal_proof = prf,
           seal_sealed_cid = sealed, seal_unsealed_cid = unsealed\<rparr>, b))))))))))"


subsection \<open>Registered proofs\<close>

lemma registered_proof_try_from_u64 [simp]: "registered_proof_try_from (registered_proof_u64 p) = Ok p"
  by (cases p) (simp_all add: registered_proof_try_from_def)

lemma registered_proof_try_from_Ok: "registered_proof_try_from v = Ok p \<Longrightarrow> registered_proof_u64 p = v"
  by (auto simp: registered_proof_try_from_def split: if_splits)

lemma sector_size_defined: "\<exists>n. sector_size p = Ok n \<and> from_sector_size n = Ok (registered_seal_proof p)"
  by (cases p) (simp_all add: sector_size_def from_sector_size_def sector_sizes)

lemma readable_loop_unit: "unit \<le> 6 \<Longrightarrow> snd (readable_loop sz unit) \<le> 6"
proof (induction sz unit rule: readable_loop.induct)
  case (1 sz unit)
  then show ?case by (subst readable_loop.simps) (auto simp: SIZE_UNITS_def)
qed

text \<open>The printed number and its unit: at most six divisions, so the number is the size in that unit.\<close>

lemma readable_loop_value:
  "readable_loop sz u = (sz', u') \<Longrightarrow>
     unat sz' = unat sz div 1024 ^ (u' - u) \<and> u \<le> u' \<and> (sz' < 1024 \<or> u' \<ge> 6)"
proof (induction sz u rule: readable_loop.induct)
  case (1 sz u)
  show ?case
  proof (cases "sz \<ge> 1024 \<and> u < length SIZE_UNITS - 1")
    case True
    then have "readable_loop (sz div 1024) (u + 1) = (sz', u')"
      using "1.prems" by (subst (asm) readable_loop.simps) simp
    from "1.IH" [OF True this] have
      IH: "unat sz' = unat (sz div 1024) div 1024 ^ (u' - (u + 1))" "u + 1 \<le> u'" "sz' < 1024 \<or> u' \<ge> 6"
      by auto
    have "unat (sz div 1024) div 1024 ^ (u' - (u + 1)) = unat sz div 1024 ^ (u' - u)"
      using IH(2) by (simp add: unat_div div_mult2_eq [symmetric] power_Suc [symmetric] Suc_le_eq Suc_diff_Suc
          del: power_Suc)
    with IH show ?thesis by simp
  next
    case False
    then have "readable_loop sz u = (sz, u)" by (subst readable_loop.simps) auto
    with "1.prems" False show ?thesis by (auto simp: SIZE_UNITS_def not_le)
  qed
qed

context codec_libs
begin

lemma sector_id_codec: "codec anything (encode_sector_id lib) (decode_sector_id lib)"
  by (rule codecI) (simp add: encode_sector_id_def decode_sector_id_def rt)

lemma registered_proof_codec: "codec anything (encode_registered_proof lib) (decode_registered_proof lib)"
  by (rule codecI) (simp add: encode_registered_proof_def decode_registered_proof_def rt)

lemmas registered_proof_rt = codecD [OF registered_proof_codec TrueI]

lemma sector_info_codec: "codec anything (encode_sector_info lib) (decode_sector_info lib)"
  by (rule codecI) (simp add: encode_sector_info_def decode_sector_info_def rt registered_proof_rt)

lemma post_proof_codec: "codec anything (encode_post_proof lib) (decode_post_proof lib)"
  by (rule codecI) (simp add: encode_post_proof_def decode_post_proof_def rt registered_proof_rt)

lemma u64_codec: "codec anything (e_u64 lib) (d_u64 lib)"
  by (rule codecI) (simp add: rt)

lemma winning_post_codec:
  "codec (\<lambda>w. h256_ok (win_randomness w)) (encode_winning_post lib) (decode_winning_post lib)"
  by (rule codecI)
    (simp add: encode_winning_post_def decode_winning_post_def rt h256_rt
      vec_codec_rt [OF post_proof_codec] vec_codec_rt [OF sector_info_codec] list_all_iff)

lemma window_post_codec:
  "codec (\<lambda>w. h256_ok (wdw_randomness w)) (encode_window_post lib) (decode_window_post lib)"
  by (rule codecI)
    (simp add: encode_window_post_def decode_window_post_def rt h256_rt
      vec_codec_rt [OF post_proof_codec] vec_codec_rt [OF sector_info_codec] list_all_iff)

lemma seal_verify_info_codec:
  "codec (\<lambda>s. h256_ok (seal_randomness s) \<and> h256_ok (seal_interactive_randomness s))
     (encode_seal_verify_info lib) (decode_seal_verify_info lib)"
  by (rule codecI)
    (simp add: encode_seal_verify_info_def decode_seal_verify_info_def rt h256_rt registered_proof_rt
      codecD [OF sector_id_codec TrueI] vec_codec_rt [OF u64_codec] list_all_iff)

end


subsection \<open>Properties\<close>

text \<open>
  The numbers of the registered proofs are a partial bijection: a number is read as a proof if
  and only if it is the number that proof is written as.
\<close>

lemma registered_proof_numbers:
  "registered_proof_try_from v = Ok p \<longleftrightarrow> registered_proof_u64 p = v"
  using registered_proof_try_from_Ok registered_proof_try_from_u64 by blast

text \<open>
  The proof families are consistent: every registered proof has a sector size (the unreachable
  arms are unreachable), the size determines its seal proof, and going to the winning or window
  proof of a proof changes neither the seal proof nor the size nor the partition size.
\<close>

lemma registered_proof_families:
  "\<exists>n k. sector_size p = (Ok n :: (_, 'e) result) \<and> from_sector_size n = Ok (registered_seal_proof p) \<and>
     window_post_partition_sectors p = (Ok k :: (_, 'e) result) \<and>
     (\<forall>q. q = registered_seal_proof p \<or> q = registered_winning_post_proof p \<or> q = registered_window_post_proof p \<longrightarrow>
        registered_seal_proof q = registered_seal_proof p \<and> sector_size q = (Ok n :: (_, 'e) result) \<and>
        window_post_partition_sectors q = (Ok k :: (_, 'e) result))"
  by (cases p; simp add: sector_size_def from_sector_size_def sector_sizes window_post_partition_sectors_def)

text \<open>
  The readable form of a sector size never indexes past the unit names: it is a number below 1024
  followed by the unit, and the number is the size divided by that unit, rounded down.
\<close>

lemma readable_sector_size_value:
  "\<exists>n u. readable_sector_size sz = (Ok (show_u64 n @ SIZE_UNITS ! u) :: (_, 'e) result) \<and> u < length SIZE_UNITS \<and>
     unat n = unat sz div 1024 ^ u \<and> n < 1024"
proof -
  obtain n u where nu: "readable_loop sz 0 = (n, u)" by (cases "readable_loop sz 0") auto
  have u: "u \<le> 6" using readable_loop_unit [of 0 sz] nu by simp
  note v = readable_loop_value [OF nu]
  have "unat sz div 1024 ^ 6 < 1024" using unat_u64_bound [of sz] by (simp add: div_less_iff_less_mult)
  then have "u = 6 \<Longrightarrow> n < 1024" using v by (simp add: word_less_nat_alt)
  then have "n < 1024" using v u by linarith
  moreover have "index_at SIZE_UNITS u = (Ok (SIZE_UNITS ! u) :: (_, 'e) result)" "u < length SIZE_UNITS"
    using u by (auto simp: index_at_def SIZE_UNITS_def)
  moreover from this have "readable_sector_size sz = (Ok (show_u64 n @ SIZE_UNITS ! u) :: (_, 'e) result)"
    by (simp add: readable_sector_size_def nu)
  ultimately show ?thesis using v by (metis diff_zero)
qed

end
