(* ===== verification/Block.thy ===== *)
theory Block
  imports Message Sector
begin

text \<open>
  Block headers and blocks (\<open>primitives/block/src\<close>) with their CBOR forms and content identifiers.
\<close>

datatype Ticket = Ticket (ticket_vrf_proof: bytes)

datatype ElectionProof = ElectionProof (election_vrf_proof: bytes)

record BeaconEntry =
  beacon_round :: u64
  beacon_data :: bytes

definition ticket_new :: "bytes \<Rightarrow> Ticket" where
  "ticket_new vrf_proof = Ticket vrf_proof"

definition encode_ticket :: "'cid libs \<Rightarrow> Ticket \<Rightarrow> bytes" where
  "encode_ticket lib t = e_array lib 1 @ e_bytes lib (ticket_vrf_proof t)"

definition decode_ticket :: "'cid libs \<Rightarrow> bytes \<Rightarrow> (Ticket \<times> bytes) cbor" where
  "decode_ticket lib b =
    and_then (d_array_exact lib 1 b) (\<lambda>b. and_then (d_bytes lib b) (\<lambda>(v, b). Ok (Ticket v, b)))"

definition encode_election_proof :: "'cid libs \<Rightarrow> ElectionProof \<Rightarrow> bytes" where
  "encode_election_proof lib t = e_array lib 1 @ e_bytes lib (election_vrf_proof t)"

definition decode_election_proof :: "'cid libs \<Rightarrow> bytes \<Rightarrow> (ElectionProof \<times> bytes) cbor" where
  "decode_election_proof lib b =
    and_then (d_array_exact lib 1 b) (\<lambda>b. and_then (d_bytes lib b) (\<lambda>(v, b). Ok (ElectionProof v, b)))"

definition beacon_entry_new :: "u64 \<Rightarrow> bytes \<Rightarrow> BeaconEntry" where
  "beacon_entry_new round d = \<lparr>beacon_round = round, beacon_data = d\<rparr>"

definition encode_beacon_entry :: "'cid libs \<Rightarrow> BeaconEntry \<Rightarrow> bytes" where
  "encode_beacon_entry lib e = e_array lib 2 @ e_u64 lib (beacon_round e) @ e_bytes lib (beacon_data e)"

definition decode_beacon_entry :: "'cid libs \<Rightarrow> bytes \<Rightarrow> (BeaconEntry \<times> bytes) cbor" where
  "decode_beacon_entry lib b =
    and_then (d_array_exact lib 2 b) (\<lambda>b.
    and_then (d_u64 lib b) (\<lambda>(round, b).
    and_then (d_bytes lib b) (\<lambda>(v, b).
      Ok (\<lparr>beacon_round = round, beacon_data = v\<rparr>, b))))"

record 'cid BlockHeader =
  bh_miner :: Address
  bh_ticket :: Ticket
  bh_election_proof :: ElectionProof
  bh_beacon_entries :: "BeaconEntry list"
  bh_win_post_proof :: "PoStProof list"
  bh_parents :: "'cid list"
  bh_parent_weight :: int
  bh_height :: u64
  bh_parent_state_root :: 'cid
  bh_parent_message_receipts :: 'cid
  bh_messages :: 'cid
  bh_bls_aggregate :: Signature
  bh_timestamp :: u64
  bh_block_sig :: Signature
  bh_fork_signaling :: u64

definition encode_block_header :: "'cid libs \<Rightarrow> 'cid BlockHeader \<Rightarrow> bytes" where
  "encode_block_header lib h =
    e_array lib 15 @ encode_address lib (bh_miner h) @ encode_ticket lib (bh_ticket h) @
    encode_election_proof lib (bh_election_proof h) @
    encode_vec lib (encode_beacon_entry lib) (bh_beacon_entries h) @
    encode_vec lib (encode_post_proof lib) (bh_win_post_proof h) @
    encode_vec lib (e_cid lib) (bh_parents h) @ encode_bigint lib (bh_parent_weight h) @
    e_i64 lib (bh_height h) @ e_cid lib (bh_parent_state_root h) @
    e_cid lib (bh_parent_message_receipts h) @ e_cid lib (bh_messages h) @
    encode_signature lib (bh_bls_aggregate h) @ e_u64 lib (bh_timestamp h) @
    encode_signature lib (bh_block_sig h) @ e_u64 lib (bh_fork_signaling h)"

definition decode_block_header :: "'cid libs \<Rightarrow> bytes \<Rightarrow> ('cid BlockHeader \<times> bytes) cbor" where
  "decode_block_header lib b =
    and_then (d_array_exact lib 15 b) (\<lambda>b.
    and_then (decode_address lib b) (\<lambda>(miner, b).
    and_then (decode_ticket lib b) (\<lambda>(ticket, b).
    and_then (decode_election_proof lib b) (\<lambda>(election_proof, b).
    and_then (decode_vec lib (decode_beacon_entry lib) b) (\<lambda>(beacon_entries, b).
    and_then (decode_vec lib (decode_post_proof lib) b) (\<lambda>(win_post_proof, b).
    and_then (decode_vec lib (d_cid lib) b) (\<lambda>(parents, b).
    and_then (decode_bigint lib b) (\<lambda>(parent_weight, b).
    and_then (d_i64 lib b) (\<lambda>(height, b).
    and_then (d_cid lib b) (\<lambda>(parent_state_root, b).
    and_then (d_cid lib b) (\<lambda>(parent_message_receipts, b).
    and_then (d_cid lib b) (\<lambda>(messages, b).
    and_then (decode_signature lib b) (\<lambda>(bls_aggregate, b).
    and_then (d_u64 lib b) (\<lambda>(timestamp, b).
    and_then (decode_signature lib b) (\<lambda>(block_sig, b).
    and_then (d_u64 lib b) (\<lambda>(fork_signaling, b).
      Ok (\<lparr>bh_miner = miner, bh_ticket = ticket, bh_election_proof = election_proof,
           bh_beacon_entries = beacon_entries, bh_win_post_proof = win_post_proof,
           bh_parents = parents, bh_parent_weight = parent_weight, bh_height = height,
           bh_parent_state_root = parent_state_root,
           bh_parent_message_receipts = parent_message_receipts, bh_messages = messages,
           bh_bls_aggregate = bls_aggregate, bh_timestamp = timestamp, bh_block_sig = block_sig,
           bh_fork_signaling = fork_signaling\<rparr>, b)))))))))))))))))"

definition header_cid_with_data :: "'cid libs \<Rightarrow> bytes \<Rightarrow> 'cid" where
  "header_cid_with_data lib d = cid_v1_dag_cbor lib d"

definition header_cid :: "'cid libs \<Rightarrow> 'cid BlockHeader \<Rightarrow> 'cid" where
  "header_cid lib h = header_cid_with_data lib (encode_block_header lib h)"

definition last_ticket :: "'cid BlockHeader \<Rightarrow> Ticket" where
  "last_ticket h = bh_ticket h"

record 'cid MsgMeta =
  mm_bls_messages :: 'cid
  mm_secpk_messages :: 'cid

definition encode_msg_meta :: "'cid libs \<Rightarrow> 'cid MsgMeta \<Rightarrow> bytes" where
  "encode_msg_meta lib m = e_array lib 2 @ e_cid lib (mm_bls_messages m) @ e_cid lib (mm_secpk_messages m)"

definition decode_msg_meta :: "'cid libs \<Rightarrow> bytes \<Rightarrow> ('cid MsgMeta \<times> bytes) cbor" where
  "decode_msg_meta lib b =
    and_then (d_array_exact lib 2 b) (\<lambda>b.
    and_then (d_cid lib b) (\<lambda>(bls, b).
    and_then (d_cid lib b) (\<lambda>(secpk, b).
      Ok (\<lparr>mm_bls_messages = bls, mm_secpk_messages = secpk\<rparr>, b))))"

definition msg_meta_cid :: "'cid libs \<Rightarrow> 'cid MsgMeta \<Rightarrow> 'cid" where
  "msg_meta_cid lib m = cid_v1_dag_cbor lib (encode_msg_meta lib m)"

record 'cid Block =
  blk_header :: "'cid BlockHeader"
  blk_bls_messages :: "UnsignedMessage list"
  blk_secpk_messages :: "SignedMessage list"

definition block_cid :: "'cid libs \<Rightarrow> 'cid Block \<Rightarrow> 'cid" where
  "block_cid lib b = header_cid lib (blk_header b)"

definition encode_block :: "'cid libs \<Rightarrow> 'cid Block \<Rightarrow> bytes" where
  "encode_block lib x =
    e_array lib 3 @ encode_block_header lib (blk_header x) @
    encode_vec lib (encode_unsigned_message lib) (blk_bls_messages x) @
    encode_vec lib (encode_signed_message lib) (blk_secpk_messages x)"

definition decode_block :: "'cid libs \<Rightarrow> bytes \<Rightarrow> ('cid Block \<times> bytes) cbor" where
  "decode_block lib b =
    and_then (d_array_exact lib 3 b) (\<lambda>b.
    and_then (decode_block_header lib b) (\<lambda>(header, b).
    and_then (decode_vec lib (decode_unsigned_message lib) b) (\<lambda>(bls, b).
    and_then (decode_vec lib (decode_signed_message lib) b) (\<lambda>(secpk, b).
      Ok (\<lparr>blk_header = header, blk_bls_messages = bls, blk_secpk_messages = secpk\<rparr>, b)))))"

record 'cid BlockMsg =
  bm_header :: "'cid BlockHeader"
  bm_bls_messages :: "'cid list"
  bm_secpk_messages :: "'cid list"

definition block_msg_cid :: "'cid libs \<Rightarrow> 'cid BlockMsg \<Rightarrow> 'cid" where
  "block_msg_cid lib b = header_cid lib (bm_header b)"

definition encode_block_msg :: "'cid libs \<Rightarrow> 'cid BlockMsg \<Rightarrow> bytes" where
  "encode_block_msg lib x =
    e_array lib 3 @ encode_block_header lib (bm_header x) @
    encode_vec lib (e_cid lib) (bm_bls_messages x) @ encode_vec lib (e_cid lib) (bm_secpk_messages x)"

definition decode_block_msg :: "'cid libs \<Rightarrow> bytes \<Rightarrow> ('cid BlockMsg \<times> bytes) cbor" where
  "decode_block_msg lib b =
    and_then (d_array_exact lib 3 b) (\<lambda>b.
    and_then (decode_block_header lib b) (\<lambda>(header, b).
    and_then (decode_vec lib (d_cid lib) b) (\<lambda>(bls, b).
    and_then (decode_vec lib (d_cid lib) b) (\<lambda>(secpk, b).
      Ok (\<lparr>bm_header = header, bm_bls_messages = bls, bm_secpk_messages = secpk\<rparr>, b)))))"

definition header_ok :: "'cid BlockHeader \<Rightarrow> bool" where
  "header_ok h \<longleftrightarrow> address_cbor_ok (bh_miner h)"

definition block_ok :: "'cid Block \<Rightarrow> bool" where
  "block_ok b \<longleftrightarrow> header_ok (blk_header b) \<and> list_all message_ok (blk_bls_messages b) \<and>
     list_all (\<lambda>m. message_ok (sm_message m)) (blk_secpk_messages b)"

context codec_libs
begin

lemma ticket_codec: "codec anything (encode_ticket lib) (decode_ticket lib)"
  by (rule codecI) (simp add: encode_ticket_def decode_ticket_def rt)

lemma election_proof_codec: "codec anything (encode_election_proof lib) (decode_election_proof lib)"
  by (rule codecI) (simp add: encode_election_proof_def decode_election_proof_def rt)

lemma beacon_entry_codec: "codec anything (encode_beacon_entry lib) (decode_beacon_entry lib)"
  by (rule codecI) (simp add: encode_beacon_entry_def decode_beacon_entry_def rt)

lemmas block_parts_rt =
  codecD [OF ticket_codec TrueI] codecD [OF election_proof_codec TrueI]
  vec_codec_rt [OF beacon_entry_codec] vec_codec_rt [OF post_proof_codec]

lemma block_header_codec: "codec header_ok (encode_block_header lib) (decode_block_header lib)"
  by (rule codecI)
    (simp add: encode_block_header_def decode_block_header_def rt bigint_rt address_rt signature_rt
      block_parts_rt header_ok_def list_all_iff)

lemmas block_header_rt = codecD [OF block_header_codec]

lemma msg_meta_codec: "codec anything (encode_msg_meta lib) (decode_msg_meta lib)"
  by (rule codecI) (simp add: encode_msg_meta_def decode_msg_meta_def rt)

lemma block_codec: "codec block_ok (encode_block lib) (decode_block lib)"
  by (rule codecI)
    (simp add: encode_block_def decode_block_def rt block_header_rt block_ok_def
      vec_codec_rt [OF unsigned_message_codec] vec_codec_rt [OF signed_message_codec])

lemma block_msg_codec: "codec (\<lambda>b. header_ok (bm_header b)) (encode_block_msg lib) (decode_block_msg lib)"
  by (rule codecI) (simp add: encode_block_msg_def decode_block_msg_def rt block_header_rt list_all_iff)

end


subsection \<open>Properties\<close>

text \<open>
  C27: The CBOR form of a full block (header, BLS messages and secp256k1 messages) is read back
  exactly, whatever follows it in the input, and no encoding is a prefix of another block's.
\<close>

theorem block_roundtrip:
  assumes "codec_libs lib" "block_ok b" "block_ok b'"
  shows "decode_block lib (encode_block lib b @ r) = Ok (b, r) \<and>
    (encode_block lib b @ r = encode_block lib b' @ r' \<longrightarrow> b = b' \<and> r = r')"
  using codecD [OF codec_libs.block_codec [OF assms(1)]]
    codec_prefix_free [OF codec_libs.block_codec [OF assms(1)], of b b'] assms(2,3) by blast

definition sample_header :: "bytes BlockHeader" where
  "sample_header =
    \<lparr>bh_miner = \<lparr>protocol = Id, payload = [5]\<rparr>, bh_ticket = Ticket [1], bh_election_proof = ElectionProof [2],
     bh_beacon_entries = [\<lparr>beacon_round = 3, beacon_data = [4]\<rparr>],
     bh_win_post_proof = [\<lparr>post_registered_proof = StackedDRG2KiBWinningPoSt, proof_bytes = [7]\<rparr>],
     bh_parents = [[1], [2]], bh_parent_weight = 1000, bh_height = 85919298723, bh_parent_state_root = [3],
     bh_parent_message_receipts = [4], bh_messages = [5],
     bh_bls_aggregate = \<lparr>sig_type = SigBls, sig_data = [6]\<rparr>, bh_timestamp = 1,
     bh_block_sig = \<lparr>sig_type = SigBls, sig_data = [8]\<rparr>, bh_fork_signaling = 0\<rparr>"

lemma sample_header_ok [simp]: "header_ok sample_header"
  by (simp add: sample_header_def header_ok_def address_cbor_ok_def payload_len_ok_def)

theorem block_roundtrip_witness:
  "decode_block rfc7049
     (encode_block rfc7049 \<lparr>blk_header = sample_header, blk_bls_messages = [sample_message], blk_secpk_messages = []\<rparr> @ [1]) =
   Ok (\<lparr>blk_header = sample_header, blk_bls_messages = [sample_message], blk_secpk_messages = []\<rparr>, [1])"
  using block_roundtrip [OF rfc.codec_libs_axioms,
      of "\<lparr>blk_header = sample_header, blk_bls_messages = [sample_message], blk_secpk_messages = []\<rparr>"
         "\<lparr>blk_header = sample_header, blk_bls_messages = [sample_message], blk_secpk_messages = []\<rparr>" "[1]"]
  by (simp add: block_ok_def)

end
