(* ===== verification/Tipset.thy ===== *)
theory Tipset
  imports Block "HOL-Library.Multiset" "HOL-Library.Sublist"
begin

text \<open>
  Tipsets (\<open>primitives/tipset/src\<close>): the tipset key, the construction of a tipset from block
  headers, its observers and its CBOR form.

  \<open>Vec::sort_by\<close> is the standard library's stable sort; it is modelled by insertion sort on the
  comparison the code passes. The lemmas show that the construction orders the headers by
  ticket and then by content identifier, that the outcome does not depend on the order in which the
  headers arrive, and what the loop over the headers does and does not check.
\<close>

datatype 'cid TipsetError =
  EmptyBlocks
| MismatchingHeight (expected_height: u64) (found_height: u64)
| MismatchingParent (expected_parent: 'cid) (found_parent: 'cid)

datatype 'cid TipsetKey = TipsetKey (key_cids: "'cid list")

definition empty_tsk :: "'cid TipsetKey" where
  "empty_tsk = TipsetKey []"

definition key_is_empty :: "'cid TipsetKey \<Rightarrow> bool" where
  "key_is_empty k \<longleftrightarrow> key_cids k = []"

definition encode_tipset_key :: "'cid libs \<Rightarrow> 'cid TipsetKey \<Rightarrow> bytes" where
  "encode_tipset_key lib k = encode_vec lib (e_cid lib) (key_cids k)"

definition decode_tipset_key :: "'cid libs \<Rightarrow> bytes \<Rightarrow> ('cid TipsetKey \<times> bytes) cbor" where
  "decode_tipset_key lib b = and_then (decode_vec lib (d_cid lib) b) (\<lambda>(cids, b). Ok (TipsetKey cids, b))"

record 'cid Tipset =
  ts_key :: "'cid TipsetKey"
  ts_blocks :: "'cid BlockHeader list"
  ts_height :: u64

definition tipset_eq :: "'cid Tipset \<Rightarrow> 'cid Tipset \<Rightarrow> bool" where
  "tipset_eq a b \<longleftrightarrow> ts_blocks a = ts_blocks b"

text \<open>The comparison passed to \<open>sort_by\<close>: it answers anything but \<open>Greater\<close>.\<close>

definition ticket_less :: "Ticket \<Rightarrow> Ticket \<Rightarrow> bool" where
  "ticket_less s t \<longleftrightarrow> ticket_vrf_proof s < ticket_vrf_proof t"

definition header_le :: "'cid libs \<Rightarrow> 'cid BlockHeader \<Rightarrow> 'cid BlockHeader \<Rightarrow> bool" where
  "header_le lib i j =
    (if last_ticket i = last_ticket j then cid_le lib (header_cid lib i) (header_cid lib j)
     else ticket_less (last_ticket i) (last_ticket j))"

primrec insert_by :: "('a \<Rightarrow> 'a \<Rightarrow> bool) \<Rightarrow> 'a \<Rightarrow> 'a list \<Rightarrow> 'a list" where
  "insert_by le x [] = [x]"
| "insert_by le x (y # ys) = (if le x y then x # y # ys else y # insert_by le x ys)"

primrec sort_by :: "('a \<Rightarrow> 'a \<Rightarrow> bool) \<Rightarrow> 'a list \<Rightarrow> 'a list" where
  "sort_by le [] = []"
| "sort_by le (x # xs) = insert_by le x (sort_by le xs)"

text \<open>
  The check of one header's parents against the first header's, by position: a header with more
  parents than the first one makes the indexing panic.
\<close>

fun check_parents :: "'cid list \<Rightarrow> nat \<Rightarrow> 'cid list \<Rightarrow> (unit, 'cid TipsetError) result" where
  "check_parents first i [] = Ok ()"
| "check_parents first i (cid # cids) =
    and_then (index_at first i) (\<lambda>f.
      if cid \<noteq> f then Err (MismatchingParent f cid) else check_parents first (i + 1) cids)"

fun collect_cids ::
  "'cid libs \<Rightarrow> 'cid BlockHeader \<Rightarrow> u64 \<Rightarrow> 'cid list \<Rightarrow> 'cid BlockHeader list \<Rightarrow> ('cid list, 'cid TipsetError) result" where
  "collect_cids lib first height cids [] = Ok cids"
| "collect_cids lib first height cids (block # blocks) =
    (if bh_height block \<noteq> height then Err (MismatchingHeight height (bh_height block))
     else
       and_then (check_parents (bh_parents first) 0 (bh_parents block)) (\<lambda>_.
         collect_cids lib first height (cids @ [header_cid lib block]) blocks))"

definition tipset_new :: "'cid libs \<Rightarrow> 'cid BlockHeader list \<Rightarrow> ('cid Tipset, 'cid TipsetError) result" where
  "tipset_new lib blocks =
    (if blocks = [] then Err EmptyBlocks
     else
       let blocks = sort_by (header_le lib) blocks; first = hd blocks; height = bh_height first in
       and_then (collect_cids lib first height [] blocks) (\<lambda>cids.
         Ok \<lparr>ts_key = TipsetKey cids, ts_blocks = blocks, ts_height = height\<rparr>))"

definition tipset_contains :: "'cid Tipset \<Rightarrow> 'cid \<Rightarrow> bool" where
  "tipset_contains t c \<longleftrightarrow> c \<in> set (key_cids (ts_key t))"

definition tipset_cids :: "'cid Tipset \<Rightarrow> 'cid list" where
  "tipset_cids t = key_cids (ts_key t)"

definition tipset_parents :: "'cid Tipset \<Rightarrow> ('cid TipsetKey, 'e) result" where
  "tipset_parents t = and_then (index_at (ts_blocks t) 0) (\<lambda>b. Ok (TipsetKey (bh_parents b)))"

definition tipset_parent_state :: "'cid Tipset \<Rightarrow> ('cid, 'e) result" where
  "tipset_parent_state t = and_then (index_at (ts_blocks t) 0) (\<lambda>b. Ok (bh_parent_state_root b))"

definition tipset_parent_weight :: "'cid Tipset \<Rightarrow> (int, 'e) result" where
  "tipset_parent_weight t = and_then (index_at (ts_blocks t) 0) (\<lambda>b. Ok (bh_parent_weight b))"

primrec min_ticket_loop :: "'cid BlockHeader \<Rightarrow> 'cid BlockHeader list \<Rightarrow> 'cid BlockHeader" where
  "min_ticket_loop min_block [] = min_block"
| "min_ticket_loop min_block (block # blocks) =
    min_ticket_loop (if ticket_less (last_ticket block) (last_ticket min_block) then block else min_block) blocks"

definition min_ticket_block :: "'cid Tipset \<Rightarrow> ('cid BlockHeader, 'e) result" where
  "min_ticket_block t =
    and_then (index_at (ts_blocks t) 0) (\<lambda>b. Ok (min_ticket_loop b (ts_blocks t)))"

definition min_ticket :: "'cid Tipset \<Rightarrow> (Ticket, 'e) result" where
  "min_ticket t = map_ok bh_ticket (min_ticket_block t)"

definition min_timestamp :: "'cid Tipset \<Rightarrow> (u64, 'e) result" where
  "min_timestamp t =
    (case map bh_timestamp (ts_blocks t) of [] \<Rightarrow> Panic | x # xs \<Rightarrow> Ok (fold min xs x))"

definition encode_tipset :: "'cid libs \<Rightarrow> 'cid Tipset \<Rightarrow> bytes" where
  "encode_tipset lib t =
    e_array lib 3 @ encode_tipset_key lib (ts_key t) @
    encode_vec lib (encode_block_header lib) (ts_blocks t) @ e_i64 lib (ts_height t)"

definition decode_tipset :: "'cid libs \<Rightarrow> bytes \<Rightarrow> ('cid Tipset \<times> bytes) cbor" where
  "decode_tipset lib b =
    and_then (d_array_exact lib 3 b) (\<lambda>b.
    and_then (decode_tipset_key lib b) (\<lambda>(key, b).
    and_then (decode_vec lib (decode_block_header lib) b) (\<lambda>(blocks, b).
    and_then (d_i64 lib b) (\<lambda>(height, b).
      Ok (\<lparr>ts_key = key, ts_blocks = blocks, ts_height = height\<rparr>, b)))))"


subsection \<open>Sorting by a comparison\<close>

locale comparison =
  fixes le :: "'a \<Rightarrow> 'a \<Rightarrow> bool"
  assumes le_total: "le x y \<or> le y x"
    and le_trans: "le x y \<Longrightarrow> le y z \<Longrightarrow> le x z"
begin

lemma sorted_insert_by: "sorted_wrt le xs \<Longrightarrow> sorted_wrt le (insert_by le x xs)"
proof (induction xs)
  case (Cons y ys)
  have set: "set (insert_by le x ys) = insert x (set ys)"
    by (induction ys) auto
  show ?case
  proof (cases "le x y")
    case True
    then have "\<forall>z \<in> set ys. le x z" using Cons.prems le_trans [OF True] by auto
    with True Cons.prems show ?thesis by simp
  next
    case False
    then have "le y x" using le_total [of x y] by simp
    with False Cons set show ?thesis by simp
  qed
qed simp

lemma sorted_sort_by: "sorted_wrt le (sort_by le xs)"
  by (induction xs) (simp_all add: sorted_insert_by)

text \<open>When the comparison separates the elements, the sorted list is determined by them.\<close>

lemma sorted_unique:
  assumes "sorted_wrt le xs" "sorted_wrt le ys" "mset xs = mset ys"
    and "\<And>x y. x \<in> set xs \<Longrightarrow> y \<in> set xs \<Longrightarrow> le x y \<Longrightarrow> le y x \<Longrightarrow> x = y"
  shows "xs = ys"
  using assms
proof (induction xs arbitrary: ys)
  case (Cons x xs)
  then obtain y ys' where ys: "ys = y # ys'" by (cases ys) auto
  have set: "set (x # xs) = set ys" using Cons.prems(3) by (metis set_mset_mset)
  have "le x y" using Cons.prems(1) set ys le_total [of x x] by auto
  moreover have "le y x" using Cons.prems(2) set ys le_total [of x x] by auto
  ultimately have xy: "x = y" using Cons.prems(4) [of x y] set ys by auto
  then have "xs = ys'" using Cons.IH [of ys'] Cons.prems ys by auto
  with xy ys show ?case by simp
qed simp

end

lemma mset_insert_by [simp]: "mset (insert_by le x xs) = add_mset x (mset xs)"
  by (induction xs) auto

lemma mset_sort_by [simp]: "mset (sort_by le xs) = mset xs"
  by (induction xs) auto

lemma set_sort_by [simp]: "set (sort_by le xs) = set xs"
  by (metis mset_sort_by set_mset_mset)

lemma sort_by_Nil_iff [simp]: "sort_by le xs = [] \<longleftrightarrow> xs = []"
  by (metis mset_sort_by mset_zero_iff)

context codec_libs
begin

lemma header_le_total: "header_le lib i j \<or> header_le lib j i"
  using cid_le_total [of "header_cid lib i" "header_cid lib j"]
  by (cases "last_ticket i"; cases "last_ticket j") (auto simp: header_le_def ticket_less_def neq_iff)

lemma header_le_trans: "header_le lib i j \<Longrightarrow> header_le lib j k \<Longrightarrow> header_le lib i k"
  using cid_le_trans [of "header_cid lib i" "header_cid lib j" "header_cid lib k"]
    less_trans [of "ticket_vrf_proof (last_ticket i)" "ticket_vrf_proof (last_ticket j)" "ticket_vrf_proof (last_ticket k)"]
    less_asym [of "ticket_vrf_proof (last_ticket i)" "ticket_vrf_proof (last_ticket j)"]
  unfolding header_le_def ticket_less_def by (metis (no_types))

lemma header_le_antisym: "header_le lib i j \<Longrightarrow> header_le lib j i \<Longrightarrow> header_cid lib i = header_cid lib j"
  using cid_le_antisym [of "header_cid lib i" "header_cid lib j"]
    less_asym [of "ticket_vrf_proof (last_ticket i)" "ticket_vrf_proof (last_ticket j)"]
  unfolding header_le_def ticket_less_def by (metis (no_types))

end

sublocale codec_libs \<subseteq> header_order: comparison "header_le lib"
  by unfold_locales (rule header_le_total, rule header_le_trans)


subsection \<open>The construction of a tipset\<close>

lemma check_parents_Ok_iff: "check_parents first i cids = Ok () \<longleftrightarrow> prefix cids (drop i first)"
proof (induction first i cids rule: check_parents.induct)
  case (2 first i cid cids)
  show ?case
  proof (cases "i < length first")
    case True
    then have "drop i first = first ! i # drop (i + 1) first" by (simp add: Cons_nth_drop_Suc)
    with 2 True show ?thesis by auto
  qed simp
qed simp

lemma check_parents_neq_EmptyBlocks: "check_parents first i cids = Err e \<Longrightarrow> \<exists>f c. e = MismatchingParent f c"
  by (induction first i cids rule: check_parents.induct)
    (auto simp: result_simps index_at_def split: if_splits)

lemma check_parents_longer:
  "i \<le> length first \<Longrightarrow> check_parents first i (drop i first @ p # ps) = Panic"
proof (induction "length first - i" arbitrary: i)
  case (Suc n)
  then have "i < length first" by simp
  then have "drop i first = first ! i # drop (i + 1) first" by (simp add: Cons_nth_drop_Suc)
  with Suc \<open>i < length first\<close> show ?case by simp
qed (simp add: index_at_def)

lemma collect_cids_Ok_iff:
  "collect_cids lib first height cids blocks = Ok cids' \<longleftrightarrow>
     cids' = cids @ map (header_cid lib) blocks \<and>
     (\<forall>b \<in> set blocks. bh_height b = height \<and> prefix (bh_parents b) (bh_parents first))"
proof (induction lib first height cids blocks rule: collect_cids.induct)
  case (2 lib first height cids block blocks)
  then show ?case
    by (cases "check_parents (bh_parents first) 0 (bh_parents block)")
      (auto simp: check_parents_Ok_iff [where i = 0, simplified, symmetric])
qed auto

lemma tipset_new_Ok_iff:
  "tipset_new lib bs = Ok t \<longleftrightarrow>
     bs \<noteq> [] \<and> ts_blocks t = sort_by (header_le lib) bs \<and>
     ts_key t = TipsetKey (map (header_cid lib) (ts_blocks t)) \<and>
     ts_height t = bh_height (hd (ts_blocks t)) \<and>
     (\<forall>b \<in> set bs. bh_height b = ts_height t \<and> prefix (bh_parents b) (bh_parents (hd (ts_blocks t))))"
  by (cases t) (auto simp: tipset_new_def Let_def result_simps collect_cids_Ok_iff)

lemma tipset_new_blocks:
  assumes "tipset_new lib bs = Ok t"
  shows "ts_blocks t \<noteq> []" "set (ts_blocks t) = set bs"
  using assms by (simp_all add: tipset_new_Ok_iff)

lemma min_ticket_loop_least:
  "\<forall>b \<in> set bs. \<not> ticket_less (last_ticket b) (last_ticket m) \<Longrightarrow> min_ticket_loop m bs = m"
  by (induction bs) auto

lemma header_le_ticket: "header_le lib i j \<Longrightarrow> \<not> ticket_less (last_ticket j) (last_ticket i)"
  by (auto simp: header_le_def ticket_less_def split: if_splits)

context codec_libs
begin

lemma sort_order_independent:
  assumes "mset bs = mset bs'" "inj_on (header_cid lib) (set bs)"
  shows "sort_by (header_le lib) bs = sort_by (header_le lib) bs'"
proof (rule header_order.sorted_unique)
  fix x y
  assume "x \<in> set (sort_by (header_le lib) bs)" "y \<in> set (sort_by (header_le lib) bs)"
    and "header_le lib x y" "header_le lib y x"
  then show "x = y" using assms(2) header_le_antisym [of x y] by (simp add: inj_on_eq_iff)
qed (simp_all add: header_order.sorted_sort_by assms(1))

lemma sorted_blocks: "tipset_new lib bs = Ok t \<Longrightarrow> sorted_wrt (header_le lib) (ts_blocks t)"
  by (simp add: tipset_new_Ok_iff header_order.sorted_sort_by)

lemma first_has_min_ticket:
  assumes "tipset_new lib bs = Ok t" "b \<in> set bs"
  shows "\<not> ticket_less (last_ticket b) (last_ticket (hd (ts_blocks t)))"
proof -
  obtain x xs where xs: "ts_blocks t = x # xs"
    using tipset_new_blocks(1) [OF assms(1)] by (cases "ts_blocks t") auto
  have "b = x \<or> b \<in> set xs"
    using assms(2) xs tipset_new_blocks(2) [OF assms(1)] by auto
  moreover have "\<forall>y \<in> set xs. header_le lib x y" using sorted_blocks [OF assms(1)] xs by simp
  ultimately show ?thesis using xs header_le_ticket by (auto simp: ticket_less_def)
qed

lemma min_ticket_block_first:
  assumes "tipset_new lib bs = Ok t"
  shows "min_ticket_block t = Ok (hd (ts_blocks t))"
proof -
  have ne: "ts_blocks t \<noteq> []" and "set (ts_blocks t) = set bs"
    using tipset_new_blocks [OF assms] by simp_all
  with first_has_min_ticket [OF assms] have "min_ticket_loop (hd (ts_blocks t)) (ts_blocks t) = hd (ts_blocks t)"
    by (intro min_ticket_loop_least) auto
  with ne show ?thesis by (simp add: min_ticket_block_def hd_conv_nth)
qed

lemma tipset_key_codec: "codec anything (encode_tipset_key lib) (decode_tipset_key lib)"
  by (rule codecI) (simp add: encode_tipset_key_def decode_tipset_key_def rt list_all_iff)

lemma tipset_codec: "codec (\<lambda>t. list_all header_ok (ts_blocks t)) (encode_tipset lib) (decode_tipset lib)"
  by (rule codecI)
    (simp add: encode_tipset_def decode_tipset_def rt codecD [OF tipset_key_codec TrueI]
      vec_codec_rt [OF block_header_codec])

end


subsection \<open>Properties\<close>

text \<open>
  C10: What a constructed tipset is: it holds exactly the given headers, sorted by ticket and then by
  content identifier, all at the tipset's height and with parents that agree with those of the
  first header, and its key lists their identifiers in that order.
\<close>

theorem tipset_new_sound:
  assumes "codec_libs lib" "tipset_new lib bs = Ok t"
  shows "mset (ts_blocks t) = mset bs \<and> ts_blocks t \<noteq> [] \<and> sorted_wrt (header_le lib) (ts_blocks t) \<and>
    tipset_cids t = map (header_cid lib) (ts_blocks t) \<and>
    (\<forall>b \<in> set bs. bh_height b = ts_height t \<and> prefix (bh_parents b) (bh_parents (hd (ts_blocks t))))"
  using assms(2) codec_libs.sorted_blocks [OF assms] tipset_new_blocks(1) [OF assms(2)]
  by (auto simp: tipset_new_Ok_iff tipset_cids_def)

lemma tipset_new_single:
  "tipset_new lib [b] = Ok \<lparr>ts_key = TipsetKey [header_cid lib b], ts_blocks = [b], ts_height = bh_height b\<rparr>"
  by (simp add: tipset_new_Ok_iff)

theorem tipset_new_sound_witness:
  "tipset_cids \<lparr>ts_key = TipsetKey [header_cid rfc7049 sample_header], ts_blocks = [sample_header], ts_height = 85919298723\<rparr> =
   map (header_cid rfc7049) [sample_header]"
proof -
  have "tipset_new rfc7049 [sample_header] =
    Ok \<lparr>ts_key = TipsetKey [header_cid rfc7049 sample_header], ts_blocks = [sample_header], ts_height = 85919298723\<rparr>"
    by (simp add: tipset_new_single) (simp add: sample_header_def)
  from tipset_new_sound [OF rfc.codec_libs_axioms this] show ?thesis by simp
qed

text \<open>
  C11: The order in which headers arrive does not matter: permuting headers with distinct content
  identifiers builds the same tipset or fails with the same error.
\<close>

theorem tipset_new_order_independent:
  assumes "codec_libs lib" "mset bs = mset bs'" "inj_on (header_cid lib) (set bs)"
  shows "tipset_new lib bs = tipset_new lib bs'"
proof -
  have "bs = [] \<longleftrightarrow> bs' = []" using assms(2) by auto
  with codec_libs.sort_order_independent [OF assms] show ?thesis by (simp add: tipset_new_def)
qed

lemma header_cid_rfc: "header_cid rfc7049 h = encode_block_header rfc7049 h"
  by (simp only: header_cid_def header_cid_with_data_def) (simp add: rfc7049_def)

lemma sample_other_ok: "header_ok (sample_header\<lparr>bh_height := 1\<rparr>)"
  by (simp add: sample_header_def header_ok_def address_cbor_ok_def payload_len_ok_def)

theorem tipset_new_order_independent_witness:
  "tipset_new rfc7049 [sample_header, sample_header\<lparr>bh_height := 1\<rparr>] =
   tipset_new rfc7049 [sample_header\<lparr>bh_height := 1\<rparr>, sample_header]"
proof (rule tipset_new_order_independent [OF rfc.codec_libs_axioms])
  show "inj_on (header_cid rfc7049) (set [sample_header, sample_header\<lparr>bh_height := 1\<rparr>])"
    using codec_inject [OF rfc.block_header_codec, of sample_header "sample_header\<lparr>bh_height := 1\<rparr>"]
    by (auto simp: inj_on_def header_cid_rfc sample_other_ok)
qed simp

text \<open>
  C28: The minimum ticket: for a constructed tipset \<open>min_ticket_block\<close> does not panic and returns its
  first header, and no header has a smaller ticket.
\<close>

theorem tipset_min_ticket:
  assumes "codec_libs lib" "tipset_new lib bs = Ok t"
  shows "min_ticket_block t = (Ok (hd (ts_blocks t)) :: (_, 'e) result) \<and>
    (\<forall>b \<in> set bs. \<not> ticket_less (last_ticket b) (last_ticket (hd (ts_blocks t))))"
  using codec_libs.min_ticket_block_first [OF assms, where 'a = 'e] codec_libs.first_has_min_ticket [OF assms] by blast

theorem tipset_min_ticket_witness:
  "min_ticket_block \<lparr>ts_key = TipsetKey [header_cid rfc7049 sample_header], ts_blocks = [sample_header],
     ts_height = bh_height sample_header\<rparr> = (Ok sample_header :: (_, unit) result)"
  using tipset_min_ticket [OF rfc.codec_libs_axioms tipset_new_single [of rfc7049 sample_header], where 'e = unit] by simp



end
