(* ===== verification/Store_Key.thy ===== *)
theory Store_Key
  imports Rust_Str "HOL-Library.Char_ord" "HOL-Library.Sublist"
begin

text \<open>
  Datastore keys (\<open>src/ipfs/datastore/src/key.rs\<close>): slash-separated strings, cleaned on construction.

  The cleaning of rooted paths is the external crate \<open>path_clean\<close>: a parameter \<open>pc\<close> with the laws of the
  locale \<open>path_cleaner\<close>, which restate its documented rules: the result is a rooted path
  without empty, dot or dot-dot elements and without a trailing slash, and only slashes are
  changed when there are no dot elements. \<open>lexical_clean\<close> is an instance of the laws.

  A key in canonical form stands for the list of its namespaces, and the operations on keys are shown to be
  the list operations they are meant to be.
\<close>

datatype Key = Key (as_str: string)

definition SLASH :: string where "SLASH = ''/''"
definition COLON :: string where "COLON = '':''"

subsection \<open>String functions of the standard library\<close>

fun split_on :: "char \<Rightarrow> string \<Rightarrow> string list" where
  "split_on c [] = [[]]"
| "split_on c (x # xs) =
    (if x = c then [] # split_on c xs
     else (case split_on c xs of [] \<Rightarrow> [[x]] | y # ys \<Rightarrow> (x # y) # ys))"

fun join :: "string \<Rightarrow> string list \<Rightarrow> string" where
  "join sep [] = []"
| "join sep [n] = n"
| "join sep (n # m # ns) = n @ sep @ join sep (m # ns)"

text \<open>\<open>str::rfind\<close> of a one-byte pattern: the last position of the character.\<close>

fun rfind :: "char \<Rightarrow> string \<Rightarrow> nat option" where
  "rfind c [] = None"
| "rfind c (x # xs) =
    (case rfind c xs of Some i \<Rightarrow> Some (Suc i) | None \<Rightarrow> if x = c then Some 0 else None)"

subsection \<open>Keys\<close>

definition clean :: "(string \<Rightarrow> string) \<Rightarrow> string \<Rightarrow> string" where
  "clean pc s =
    (if s = [] then SLASH
     else if prefix SLASH s then pc s
     else pc (SLASH @ s))"

definition key_new :: "(string \<Rightarrow> string) \<Rightarrow> string \<Rightarrow> Key" where
  "key_new pc s = Key (clean pc s)"

definition new_unchecked :: "string \<Rightarrow> (Key, 'e) result" where
  "new_unchecked input =
    (if input = [] then Ok (Key SLASH)
     else if \<not> prefix SLASH input \<or> (length input > 1 \<and> suffix SLASH input) then Panic
     else Ok (Key input))"

definition with_namespaces :: "(string \<Rightarrow> string) \<Rightarrow> string list \<Rightarrow> Key" where
  "with_namespaces pc namespaces = key_new pc (join SLASH namespaces)"

definition key_clean :: "(string \<Rightarrow> string) \<Rightarrow> Key \<Rightarrow> Key" where
  "key_clean pc k = Key (clean pc (as_str k))"

definition is_root :: "Key \<Rightarrow> bool" where
  "is_root k \<longleftrightarrow> as_str k = SLASH"

definition key_list :: "Key \<Rightarrow> string list" where
  "key_list k = (if is_root k then [] else drop 1 (split_on CHR ''/'' (as_str k)))"

definition namespaces :: "Key \<Rightarrow> string list" where
  "namespaces k = key_list k"

definition key_reverse :: "(string \<Rightarrow> string) \<Rightarrow> Key \<Rightarrow> Key" where
  "key_reverse pc k = with_namespaces pc (rev (key_list k))"

definition base_namespace :: "Key \<Rightarrow> string" where
  "base_namespace k = (if namespaces k = [] then [] else last (namespaces k))"

definition namespace_type :: "string \<Rightarrow> string" where
  "namespace_type n = (case rfind CHR '':'' n of Some i \<Rightarrow> take i n | None \<Rightarrow> [])"

definition namespace_value :: "string \<Rightarrow> string" where
  "namespace_value n = (case rfind CHR '':'' n of Some i \<Rightarrow> drop (i + 1) n | None \<Rightarrow> n)"

definition key_type :: "Key \<Rightarrow> string" where
  "key_type k = namespace_type (base_namespace k)"

definition key_name :: "Key \<Rightarrow> string" where
  "key_name k = namespace_value (base_namespace k)"

definition key_instance :: "(string \<Rightarrow> string) \<Rightarrow> Key \<Rightarrow> string \<Rightarrow> Key" where
  "key_instance pc k s = key_new pc (as_str k @ COLON @ s)"

definition key_parent :: "(string \<Rightarrow> string) \<Rightarrow> Key \<Rightarrow> Key" where
  "key_parent pc k =
    (let list = key_list k in
     if list = [] \<or> length list = 1 then key_new pc SLASH
     else key_new pc (join SLASH (butlast list)))"

definition key_path :: "(string \<Rightarrow> string) \<Rightarrow> Key \<Rightarrow> Key" where
  "key_path pc k = key_new pc (as_str (key_parent pc k) @ SLASH @ key_type k)"

definition key_child :: "(string \<Rightarrow> string) \<Rightarrow> Key \<Rightarrow> Key \<Rightarrow> (Key, 'e) result" where
  "key_child pc k child =
    (if is_root k then Ok (key_new pc (as_str child))
     else if is_root child then Ok k
     else new_unchecked (as_str k @ as_str child))"

definition is_ancestor_of :: "Key \<Rightarrow> Key \<Rightarrow> bool" where
  "is_ancestor_of k descendant =
    (if length (as_str descendant) \<le> length (as_str k) then False
     else if is_root k then True
     else prefix (as_str k) (as_str descendant) \<and> as_str descendant ! length (as_str k) = CHR ''/'')"

definition is_descendant_of :: "Key \<Rightarrow> Key \<Rightarrow> bool" where
  "is_descendant_of k ancestor = is_ancestor_of ancestor k"

definition is_top_level :: "Key \<Rightarrow> bool" where
  "is_top_level k \<longleftrightarrow> key_list k = [] \<or> length (key_list k) = 1"

text \<open>\<open>Ord::cmp\<close> compares the lists of namespaces, namespace by namespace and byte by byte.\<close>

definition key_le :: "Key \<Rightarrow> Key \<Rightarrow> bool" where
  "key_le k1 k2 \<longleftrightarrow> key_list k1 \<le> key_list k2"

definition key_less :: "Key \<Rightarrow> Key \<Rightarrow> bool" where
  "key_less k1 k2 \<longleftrightarrow> key_list k1 < key_list k2"


subsection \<open>Canonical keys\<close>

definition namespace_ok :: "string \<Rightarrow> bool" where
  "namespace_ok n \<longleftrightarrow> n \<noteq> [] \<and> CHR ''/'' \<notin> set n \<and> n \<noteq> ''.'' \<and> n \<noteq> ''..''"

definition render :: "string list \<Rightarrow> string" where
  "render ns = SLASH @ join SLASH ns"

definition canonical :: "string \<Rightarrow> bool" where
  "canonical s \<longleftrightarrow>
    prefix SLASH s \<and> (s = SLASH \<or> list_all namespace_ok (split_on CHR ''/'' (drop 1 s)))"

abbreviation key_ok :: "Key \<Rightarrow> bool" where
  "key_ok k \<equiv> canonical (as_str k)"

definition undotted :: "string \<Rightarrow> bool" where
  "undotted s \<longleftrightarrow> ''.'' \<notin> set (split_on CHR ''/'' s) \<and> ''..'' \<notin> set (split_on CHR ''/'' s)"

locale path_cleaner =
  fixes pc :: "string \<Rightarrow> string"
  assumes clean_canonical: "prefix SLASH s \<Longrightarrow> canonical (pc s)"
    and clean_slashes: "prefix SLASH s \<Longrightarrow> undotted s \<Longrightarrow>
      pc s = render (filter (\<lambda>n. n \<noteq> []) (split_on CHR ''/'' s))"

fun resolve :: "string list \<Rightarrow> string list \<Rightarrow> string list" where
  "resolve acc [] = rev acc"
| "resolve acc (n # ns) =
    (if n = [] \<or> n = ''.'' then resolve acc ns
     else if n = ''..'' then resolve (drop 1 acc) ns
     else resolve (n # acc) ns)"

definition lexical_clean :: "string \<Rightarrow> string" where
  "lexical_clean s = render (resolve [] (split_on CHR ''/'' s))"

lemma split_on_nonempty [simp]: "split_on c s \<noteq> []"
  by (induction s) (auto split: list.splits)

lemma split_on_sep [simp]: "split_on c (xs @ c # ys) = split_on c xs @ split_on c ys"
  by (induction xs) (auto split: list.splits)

lemma split_on_atom: "c \<notin> set n \<Longrightarrow> split_on c n = [n]"
  by (induction n) auto

lemma split_on_no_sep: "n \<in> set (split_on c s) \<Longrightarrow> c \<notin> set n"
  by (induction s arbitrary: n) (auto split: list.splits if_splits)

lemma split_on_join:
  "ns \<noteq> [] \<Longrightarrow> (\<And>n. n \<in> set ns \<Longrightarrow> c \<notin> set n) \<Longrightarrow> split_on c (join [c] ns) = ns"
  by (induction "[c]" ns rule: join.induct) (auto simp: split_on_atom)

lemma join_split_on: "join [c] (split_on c s) = s"
proof (induction s)
  case (Cons x xs)
  then show ?case by (cases "split_on c xs"; cases "List.tl (split_on c xs)") (auto simp: neq_Nil_conv)
qed simp

lemma join_append: "ms \<noteq> [] \<Longrightarrow> ns \<noteq> [] \<Longrightarrow> join sep (ms @ ns) = join sep ms @ sep @ join sep ns"
  by (induction sep ms rule: join.induct) (auto simp: neq_Nil_conv)

lemma slash_prefix [simp]: "prefix SLASH s \<longleftrightarrow> (\<exists>r. s = CHR ''/'' # r)"
  by (auto simp: SLASH_def prefix_def)

lemma render_Cons: "render ns = CHR ''/'' # join ''/'' ns"
  by (simp add: render_def SLASH_def)

lemma render_Nil [simp]: "render [] = SLASH"
  by (simp add: render_def)

lemma namespaces_no_slash: "list_all namespace_ok ns \<Longrightarrow> n \<in> set ns \<Longrightarrow> CHR ''/'' \<notin> set n \<and> n \<noteq> []"
  by (auto simp: list_all_iff namespace_ok_def)

lemma split_render: "list_all namespace_ok ns \<Longrightarrow> ns \<noteq> [] \<Longrightarrow> split_on CHR ''/'' (render ns) = [] # ns"
  using split_on_join [of ns "CHR ''/''"] namespaces_no_slash by (auto simp: render_Cons)

lemma render_root_iff: "list_all namespace_ok ns \<Longrightarrow> render ns = SLASH \<longleftrightarrow> ns = []"
  using split_render [of ns] by (cases ns) (auto simp: SLASH_def namespace_ok_def)

lemma canonical_render: "list_all namespace_ok ns \<Longrightarrow> canonical (render ns)"
  using split_render [of ns] by (cases "ns = []") (auto simp: canonical_def render_Cons SLASH_def)

lemma canonicalE:
  assumes "canonical s"
  obtains ns where "list_all namespace_ok ns" "s = render ns"
proof (cases "s = SLASH")
  case True
  then show thesis using that [of "[]"] by simp
next
  case False
  with assms obtain r where "s = CHR ''/'' # r" "list_all namespace_ok (split_on CHR ''/'' r)"
    by (auto simp: canonical_def)
  then show thesis using that [of "split_on CHR ''/'' r"] by (simp add: render_Cons join_split_on)
qed

lemma key_list_render [simp]: "list_all namespace_ok ns \<Longrightarrow> key_list (Key (render ns)) = ns"
  by (cases "ns = []") (simp_all add: key_list_def is_root_def render_root_iff split_render)

lemma key_okE:
  assumes "key_ok k"
  obtains ns where "list_all namespace_ok ns" "k = Key (render ns)" "key_list k = ns"
  using assms canonicalE [of "as_str k"] by (cases k) (metis Key.sel key_list_render)

lemma key_list_inj: "key_ok k \<Longrightarrow> key_ok k' \<Longrightarrow> key_list k = key_list k' \<Longrightarrow> k = k'"
  by (elim key_okE) simp


subsection \<open>The operations on canonical keys\<close>

lemma namespaces_nonempty_filter: "list_all namespace_ok ns \<Longrightarrow> filter (\<lambda>n. n \<noteq> []) ns = ns"
  by (auto simp: list_all_iff namespace_ok_def)

lemma prefix_next:
  assumes "length xs < length ys" "prefix xs ys" "ys ! length xs = c"
  obtains r where "ys = xs @ c # r"
proof -
  obtain zs where zs: "ys = xs @ zs" using assms(2) by (auto simp: prefix_def)
  then show thesis using assms that by (cases zs) auto
qed

lemma ancestor_render:
  assumes "list_all namespace_ok as" "list_all namespace_ok bs"
  shows "is_ancestor_of (Key (render as)) (Key (render bs)) \<longleftrightarrow> strict_prefix as bs"
proof
  assume anc: "is_ancestor_of (Key (render as)) (Key (render bs))"
  then have len: "length (render as) < length (render bs)" by (simp add: is_ancestor_of_def split: if_splits)
  show "strict_prefix as bs"
  proof (cases "as = []")
    case True
    with len show ?thesis by (auto simp: strict_prefix_def)
  next
    case False
    then have "prefix (render as) (render bs)" "render bs ! length (render as) = CHR ''/''"
      using anc assms by (auto simp: is_ancestor_of_def is_root_def render_root_iff split: if_splits)
    with len obtain r where "render bs = render as @ CHR ''/'' # r"
      by (rule prefix_next)
    moreover from this have "bs \<noteq> []" using False assms by (auto simp: render_Cons SLASH_def)
    ultimately have "bs = as @ split_on CHR ''/'' r"
      using split_render [OF assms(1) False] split_render [OF assms(2)] by simp
    then show ?thesis by (simp add: strict_prefix_def)
  qed
next
  assume "strict_prefix as bs"
  then obtain c cs where bs: "bs = as @ c # cs" by (rule strict_prefixE')
  show "is_ancestor_of (Key (render as)) (Key (render bs))"
  proof (cases "as = []")
    case True
    then have "join ''/'' bs \<noteq> []" using assms bs by (cases cs) (auto simp: namespace_ok_def)
    then show ?thesis using True by (simp add: is_ancestor_of_def is_root_def render_Cons SLASH_def)
  next
    case False
    then have "render bs = render as @ CHR ''/'' # join ''/'' (c # cs)"
      by (simp add: bs render_Cons join_append)
    with False show ?thesis using assms by (simp add: is_ancestor_of_def is_root_def render_root_iff)
  qed
qed

lemma new_unchecked_render:
  assumes "list_all namespace_ok ns"
  shows "new_unchecked (render ns) = Ok (Key (render ns))"
proof -
  have "\<not> suffix SLASH (render ns)" if "ns \<noteq> []"
  proof
    assume "suffix SLASH (render ns)"
    then obtain r where "render ns = r @ CHR ''/'' # []" by (auto simp: suffix_def SLASH_def)
    then have "[] # ns = split_on CHR ''/'' r @ [[]]"
      using split_render [OF assms that] by simp
    then have "last ns = []" using that by (metis last_ConsR last_snoc)
    with assms that show False using namespaces_no_slash [of ns "last ns"] by auto
  qed
  then show ?thesis by (cases "ns = []") (auto simp: new_unchecked_def render_Cons SLASH_def)
qed

context path_cleaner
begin

lemma clean_render: "list_all namespace_ok ns \<Longrightarrow> pc (render ns) = render ns"
proof (cases "ns = []")
  case True
  have "undotted SLASH" by (simp add: undotted_def SLASH_def)
  then show ?thesis using clean_slashes [of SLASH] True by (simp add: SLASH_def)
next
  case False
  assume ok: "list_all namespace_ok ns"
  have "undotted (render ns)"
    using ok split_render [OF ok False] by (auto simp: undotted_def list_all_iff namespace_ok_def)
  then show ?thesis
    using clean_slashes [of "render ns"] split_render [OF ok False] namespaces_nonempty_filter [OF ok]
    by (simp add: render_Cons)
qed

lemma key_new_ok: "key_ok (key_new pc s)"
  using clean_canonical [of s] clean_canonical [of "SLASH @ s"] canonical_render [of "[]"]
  by (auto simp: key_new_def clean_def SLASH_def)

lemma key_new_render: "list_all namespace_ok ns \<Longrightarrow> key_new pc (render ns) = Key (render ns)"
  by (simp add: key_new_def clean_def clean_render) (simp add: render_Cons)

lemma key_new_join: "list_all namespace_ok ns \<Longrightarrow> key_new pc (join SLASH ns) = Key (render ns)"
proof (cases ns)
  case (Cons n ms)
  assume ok: "list_all namespace_ok ns"
  then have "join SLASH ns \<noteq> []" "\<not> prefix SLASH (join SLASH ns)"
    using Cons by (cases ms; auto simp: namespace_ok_def neq_Nil_conv SLASH_def)+
  then show ?thesis
    using clean_render [OF ok] by (simp add: key_new_def clean_def render_def)
qed (simp add: key_new_def clean_def)

lemma parent_render:
  "list_all namespace_ok ns \<Longrightarrow> key_parent pc (Key (render ns)) = Key (render (butlast ns))"
proof -
  assume ok: "list_all namespace_ok ns"
  then have "list_all namespace_ok (butlast ns)" by (auto simp: list_all_iff dest: in_set_butlastD)
  moreover have "length ns = 1 \<Longrightarrow> butlast ns = []" by (cases ns) auto
  ultimately show ?thesis
    using ok key_new_render [of "[]"] by (auto simp: key_parent_def Let_def key_new_join)
qed

lemma child_render:
  assumes "list_all namespace_ok as" "list_all namespace_ok bs"
  shows "key_child pc (Key (render as)) (Key (render bs)) = Ok (Key (render (as @ bs)))"
proof (cases "as = [] \<or> bs = []")
  case True
  then show ?thesis
    using assms by (auto simp: key_child_def is_root_def render_root_iff key_new_render)
next
  case False
  then have "render as @ render bs = render (as @ bs)" by (simp add: render_def join_append)
  with False assms show ?thesis
    by (simp add: key_child_def is_root_def render_root_iff new_unchecked_render)
qed

lemma reverse_render:
  "list_all namespace_ok ns \<Longrightarrow> key_reverse pc (Key (render ns)) = Key (render (rev ns))"
  by (simp add: key_reverse_def with_namespaces_def key_new_join)

lemma instance_render:
  assumes "list_all namespace_ok ns" "ns \<noteq> []" "CHR ''/'' \<notin> set s"
  shows "key_instance pc (Key (render ns)) s = Key (render (butlast ns @ [last ns @ '':'' @ s]))"
proof -
  obtain ms n where ns: "ns = ms @ [n]" using assms(2) by (metis append_butlast_last_id)
  have ok: "list_all namespace_ok (ms @ [n @ '':'' @ s])"
    using assms(1,3) ns by (auto simp: namespace_ok_def append_eq_Cons_conv)
  have "render ns @ COLON @ s = render (ms @ [n @ '':'' @ s])"
    by (cases "ms = []") (simp_all add: ns render_def join_append COLON_def)
  then show ?thesis using ns key_new_render [OF ok] by (simp add: key_instance_def)
qed

end

lemma resolve_ok:
  "list_all namespace_ok acc \<Longrightarrow> list_all (\<lambda>n. CHR ''/'' \<notin> set n) ns \<Longrightarrow> list_all namespace_ok (resolve acc ns)"
proof (induction acc ns rule: resolve.induct)
  case (2 acc n ns)
  have "list_all namespace_ok (drop 1 acc)" using "2.prems"(1) by (cases acc) simp_all
  with 2 show ?case by (simp add: namespace_ok_def [of n])
qed simp

lemma resolve_undotted:
  "''.'' \<notin> set ns \<Longrightarrow> ''..'' \<notin> set ns \<Longrightarrow> resolve acc ns = rev acc @ filter (\<lambda>n. n \<noteq> []) ns"
proof (induction acc ns rule: resolve.induct)
  case (2 acc n ns)
  then have "n \<noteq> ''.''" "n \<noteq> ''..''" by auto
  with 2 show ?case by simp
qed simp

interpretation lexical: path_cleaner lexical_clean
proof
  fix s
  have "list_all (\<lambda>n. CHR ''/'' \<notin> set n) (split_on CHR ''/'' s)"
    using split_on_no_sep [of _ "CHR ''/''" s] by (simp add: list_all_iff)
  then show "canonical (lexical_clean s)"
    unfolding lexical_clean_def by (intro canonical_render resolve_ok) simp_all
  show "undotted s \<Longrightarrow> lexical_clean s = render (filter (\<lambda>n. n \<noteq> []) (split_on CHR ''/'' s))"
    by (simp add: lexical_clean_def undotted_def resolve_undotted)
qed


subsection \<open>Properties\<close>

lemma rfind_snoc: "CHR '':'' \<notin> set s \<Longrightarrow> rfind CHR '':'' (n @ CHR '':'' # s) = Some (length n)"
proof (induction n)
  case Nil
  then have "rfind CHR '':'' s = None" by (induction s) auto
  then show ?case by simp
qed simp

lemma rfind_None: "rfind c n = None \<longleftrightarrow> c \<notin> set n"
  by (induction n) (auto split: option.splits if_splits)

lemma rfind_Some: "rfind c n = Some i \<Longrightarrow> n = take i n @ c # drop (i + 1) n \<and> c \<notin> set (drop (i + 1) n)"
proof (induction n arbitrary: i)
  case (Cons x xs)
  then show ?case by (cases "rfind c xs") (auto simp: rfind_None split: if_splits)
qed simp



text \<open>
  C25: Keys are lists of namespaces: canonical keys are equal exactly if their namespaces are, and on
  the lists of namespaces parent drops the last, child appends, reversal reverses, being an ancestor is being
  a proper prefix, and being top-level is having at most one.
\<close>

theorem key_refines_namespaces:
  assumes "path_cleaner pc" "key_ok k" "key_ok c"
  shows "(key_list k = key_list c \<longleftrightarrow> k = c) \<and>
    key_list (key_parent pc k) = butlast (key_list k) \<and>
    map_ok key_list (key_child pc k c) = (Ok (key_list k @ key_list c) :: (string list, 'e) result) \<and>
    key_list (key_reverse pc k) = rev (key_list k) \<and>
    (is_ancestor_of k c \<longleftrightarrow> strict_prefix (key_list k) (key_list c)) \<and>
    (is_top_level k \<longleftrightarrow> length (key_list k) \<le> 1)"
proof -
  obtain ks cs where ks: "list_all namespace_ok ks" "k = Key (render ks)" and cs: "list_all namespace_ok cs" "c = Key (render cs)"
    using assms(2,3) by (elim key_okE) blast
  have "list_all namespace_ok (butlast ks)" using ks(1) by (auto simp: list_all_iff dest: in_set_butlastD)
  moreover have "k = c \<longleftrightarrow> ks = cs" using ks cs key_list_render by metis
  ultimately show ?thesis
    using ks cs path_cleaner.child_render [where 'a = 'e, OF assms(1) ks(1) cs(1)]
      path_cleaner.parent_render [OF assms(1) ks(1)] path_cleaner.reverse_render [OF assms(1) ks(1)]
    by (auto simp: ancestor_render is_top_level_def le_Suc_eq)
qed

theorem key_refines_namespaces_witness:
  "map_ok key_list (key_child lexical_clean (Key ''/a'') (Key ''/b/c'')) = (Ok [''a'', ''b'', ''c''] :: (string list, unit) result) \<and>
   \<not> is_ancestor_of (Key ''/a'') (Key ''/b/c'')"
  using key_refines_namespaces [OF lexical.path_cleaner_axioms, of "Key ''/a''" "Key ''/b/c''", where 'e = unit]
  by (simp add: canonical_def SLASH_def namespace_ok_def key_list_def is_root_def)

text \<open>
  The order of keys is a total order on canonical keys, and an ancestor comes before each of its
  descendants.
\<close>

lemma key_order:
  assumes "key_ok k" "key_ok c"
  shows "(key_le k c \<or> key_le c k) \<and> (key_le k c \<and> key_le c k \<longrightarrow> k = c) \<and>
    (key_less k c \<longleftrightarrow> key_le k c \<and> k \<noteq> c) \<and> (is_ancestor_of k c \<longrightarrow> key_less k c)"
proof -
  obtain ks cs where ks: "list_all namespace_ok ks" "k = Key (render ks)" and cs: "list_all namespace_ok cs" "c = Key (render cs)"
    using assms by (elim key_okE) blast
  have "k = c \<longleftrightarrow> ks = cs" using ks cs key_list_render by metis
  moreover have "ks < cs" if "strict_prefix ks cs"
    using that by (auto elim!: strict_prefixE' simp: list_less_def lexord_append_rightI)
  ultimately show ?thesis
    using ks cs by (auto simp: key_le_def key_less_def ancestor_render less_le)
qed

text \<open>
  Types and instances: instantiating a key with a value (without slash or colon) gives a key whose type is
  the last namespace, whose name is the value, and whose path is the key itself.
\<close>

lemma key_instance_roundtrip:
  assumes "path_cleaner pc" "key_ok k" "\<not> is_root k" "CHR ''/'' \<notin> set s" "CHR '':'' \<notin> set s"
  shows "key_type (key_instance pc k s) = base_namespace k \<and> key_name (key_instance pc k s) = s \<and>
    key_path pc (key_instance pc k s) = k"
proof -
  obtain ns where ns: "list_all namespace_ok ns" "k = Key (render ns)" using assms(2) by (elim key_okE) blast
  then have "ns \<noteq> []" using assms(3) by (auto simp: is_root_def)
  then obtain ms n where mn: "ns = ms @ [n]" by (metis append_butlast_last_id)
  let ?i = "ms @ [n @ '':'' @ s]"
  have i: "key_instance pc k s = Key (render ?i)"
    using path_cleaner.instance_render [OF assms(1) ns(1) \<open>ns \<noteq> []\<close> assms(4)] ns(2) mn by simp
  have ok: "list_all namespace_ok ?i" "list_all namespace_ok ms" "namespace_ok n"
    using ns(1) mn assms(4) by (auto simp: namespace_ok_def append_eq_Cons_conv)
  have t: "key_type (Key (render ?i)) = n" "key_name (Key (render ?i)) = s"
    using ok(1) rfind_snoc [OF assms(5), of n]
    by (simp_all add: key_type_def key_name_def base_namespace_def namespaces_def namespace_type_def namespace_value_def)
  have "key_new pc (render ms @ SLASH @ n) = Key (render (ms @ [n]))"
  proof (cases "ms = []")
    case True
    have "undotted (SLASH @ SLASH @ n)" "filter (\<lambda>n. n \<noteq> []) (split_on CHR ''/'' (SLASH @ SLASH @ n)) = [n]"
      using ok(3) by (auto simp: undotted_def SLASH_def namespace_ok_def split_on_atom)
    then show ?thesis
      using True path_cleaner.clean_slashes [OF assms(1), of "SLASH @ SLASH @ n"]
      by (simp add: key_new_def clean_def SLASH_def)
  next
    case False
    then have "render ms @ SLASH @ n = render (ms @ [n])" by (simp add: render_def join_append)
    then show ?thesis using path_cleaner.key_new_render [OF assms(1), of "ms @ [n]"] ns(1) mn by simp
  qed
  then show ?thesis
    using i t ns mn path_cleaner.parent_render [OF assms(1) ok(1)]
    by (simp add: key_path_def base_namespace_def namespaces_def)
qed

text \<open>
  The type of a namespace is everything before its last colon, not its first component: splitting
  a namespace with a colon into type and value and joining them again gives it back, so with two
  colons the type itself contains one.
\<close>

lemma namespace_split:
  assumes "CHR '':'' \<in> set n"
  shows "namespace_type n @ COLON @ namespace_value n = n \<and> CHR '':'' \<notin> set (namespace_value n)"
  using assms rfind_Some [of "CHR '':''" n] rfind_None [of "CHR '':''" n]
  by (auto simp: namespace_type_def namespace_value_def COLON_def)

end
