(* ===== verification/Datastore.thy ===== *)
theory Datastore
  imports Store_Key
begin

text \<open>
  The interface of datastores (\<open>src/ipfs/datastore/src/store/mod.rs\<close>, \<open>error.rs\<close>) and the stores that hold
  data themselves: \<open>MapDataStore\<close> (\<open>impls/map.rs\<close>) and \<open>DummyDataStore\<close> (\<open>impls/dummy.rs\<close>).

  A trait implementation is a record of its methods over the type of the store. A method that takes
  \<open>&mut self\<close> returns the store after the call with its result, so a failing call may have changed the
  store. The contract is the locale \<open>store_contract\<close>: the store stands for a finite map, reads
  answer from the map, writes update it, \<open>sync\<close> and \<open>close\<close> keep it.
\<close>

datatype DataStoreError = NotFound string | Custom string

type_synonym 'a ds_result = "('a, DataStoreError) result"

record 's datastore =
  ds_sync :: "'s \<Rightarrow> Key \<Rightarrow> 's \<times> unit ds_result"
  ds_close :: "'s \<Rightarrow> 's \<times> unit ds_result"
  ds_get :: "'s \<Rightarrow> Key \<Rightarrow> bytes ds_result"
  ds_has :: "'s \<Rightarrow> Key \<Rightarrow> bool ds_result"
  ds_size :: "'s \<Rightarrow> Key \<Rightarrow> nat ds_result"
  ds_put :: "'s \<Rightarrow> Key \<Rightarrow> bytes \<Rightarrow> 's \<times> unit ds_result"
  ds_delete :: "'s \<Rightarrow> Key \<Rightarrow> 's \<times> unit ds_result"

record 's batch_datastore = "'s datastore" +
  ds_commit :: "'s \<Rightarrow> 's \<times> unit ds_result"

record 's txn_datastore = "'s batch_datastore" +
  ds_discard :: "'s \<Rightarrow> 's \<times> unit ds_result"

text \<open>The maintenance traits \<open>Check\<close>, \<open>Gc\<close>, \<open>Persistent\<close> and \<open>Scrub\<close>, whose methods take \<open>&self\<close>.\<close>

record 's maintenance =
  mt_check :: "'s \<Rightarrow> unit ds_result"
  mt_collect_garbage :: "'s \<Rightarrow> unit ds_result"
  mt_disk_usage :: "'s \<Rightarrow> u64 ds_result"
  mt_scrub :: "'s \<Rightarrow> unit ds_result"

text \<open>\<open>?\<close> in a method with \<open>&mut self\<close>: on an error the store is left as it is.\<close>

primrec then_write :: "'s \<Rightarrow> 'a ds_result \<Rightarrow> ('a \<Rightarrow> 's \<times> unit ds_result) \<Rightarrow> 's \<times> unit ds_result" where
  "then_write s (Ok x) f = f x"
| "then_write s (Err e) f = (s, Err e)"
| "then_write s Panic f = (s, Panic)"

text \<open>\<open>{:?}\<close> of a byte vector.\<close>

definition debug_bytes :: "bytes \<Rightarrow> string" where
  "debug_bytes b = ''['' @ join '', '' (map (\<lambda>w. show_nat (unat w)) b) @ '']''"

subsection \<open>The map store\<close>

record MapDataStore =
  map_values :: "Key \<rightharpoonup> bytes"

definition map_new :: MapDataStore where
  "map_new = \<lparr>map_values = Map.empty\<rparr>"

definition map_get :: "MapDataStore \<Rightarrow> Key \<Rightarrow> bytes ds_result" where
  "map_get s key = ok_or (map_values s key) (NotFound (as_str key))"

definition map_has :: "MapDataStore \<Rightarrow> Key \<Rightarrow> bool ds_result" where
  "map_has s key = Ok (map_values s key \<noteq> None)"

definition map_size :: "MapDataStore \<Rightarrow> Key \<Rightarrow> nat ds_result" where
  "map_size s key = map_ok length (ok_or (map_values s key) (NotFound (as_str key)))"

definition map_put :: "MapDataStore \<Rightarrow> Key \<Rightarrow> bytes \<Rightarrow> MapDataStore \<times> unit ds_result" where
  "map_put s key value = (s\<lparr>map_values := (map_values s)(key \<mapsto> value)\<rparr>, Ok ())"

definition map_delete :: "MapDataStore \<Rightarrow> Key \<Rightarrow> MapDataStore \<times> unit ds_result" where
  "map_delete s key = (s\<lparr>map_values := (map_values s)(key := None)\<rparr>, Ok ())"

definition map_datastore :: "MapDataStore datastore" where
  "map_datastore =
    \<lparr>ds_sync = \<lambda>s _. (s, Ok ()), ds_close = \<lambda>s. (s, Ok ()), ds_get = map_get, ds_has = map_has,
     ds_size = map_size, ds_put = map_put, ds_delete = map_delete\<rparr>"

subsection \<open>The dummy store\<close>

definition dummy_datastore :: "unit datastore" where
  "dummy_datastore =
    \<lparr>ds_sync = \<lambda>s _. (s, Ok ()), ds_close = \<lambda>s. (s, Ok ()),
     ds_get = \<lambda>s key. Err (NotFound (as_str key)), ds_has = \<lambda>s _. Ok False, ds_size = \<lambda>s _. Ok 0,
     ds_put = \<lambda>s _ _. (s, Ok ()), ds_delete = \<lambda>s _. (s, Ok ())\<rparr>"

definition dummy_maintenance :: "unit maintenance" where
  "dummy_maintenance =
    \<lparr>mt_check = \<lambda>_. Ok (), mt_collect_garbage = \<lambda>_. Ok (), mt_disk_usage = \<lambda>_. Ok 0, mt_scrub = \<lambda>_. Ok ()\<rparr>"

subsection \<open>Sequences of writes\<close>

datatype store_write = Put Key bytes | Delete Key

primrec apply_write :: "('s, 'z) datastore_scheme \<Rightarrow> 's \<Rightarrow> store_write \<Rightarrow> 's \<times> unit ds_result" where
  "apply_write ds s (Put k v) = ds_put ds s k v"
| "apply_write ds s (Delete k) = ds_delete ds s k"

fun apply_writes :: "('s, 'z) datastore_scheme \<Rightarrow> 's \<Rightarrow> store_write list \<Rightarrow> 's \<times> unit ds_result" where
  "apply_writes ds s [] = (s, Ok ())"
| "apply_writes ds s (w # ws) =
    (let (s', r) = apply_write ds s w in
     then_write s' r (\<lambda>_. apply_writes ds s' ws))"

primrec write_map :: "store_write \<Rightarrow> (Key \<rightharpoonup> bytes) \<Rightarrow> (Key \<rightharpoonup> bytes)" where
  "write_map (Put k v) m = m(k \<mapsto> v)"
| "write_map (Delete k) m = m(k := None)"


primrec write_key :: "store_write \<Rightarrow> Key" where
  "write_key (Put k v) = k"
| "write_key (Delete k) = k"


subsection \<open>The contract\<close>

text \<open>\<open>ok\<close> are the keys the store can be used with, \<open>name\<close> is how its errors call a key.\<close>

locale store_contract =
  fixes ds :: "('s, 'z) datastore_scheme"
    and abs :: "'s \<Rightarrow> (Key \<rightharpoonup> bytes)"
    and ok :: "Key \<Rightarrow> bool"
    and name :: "Key \<Rightarrow> string"
  assumes get: "ok k \<Longrightarrow> ds_get ds s k = ok_or (abs s k) (NotFound (name k))"
    and has: "ok k \<Longrightarrow> ds_has ds s k = Ok (abs s k \<noteq> None)"
    and sized: "ok k \<Longrightarrow> ds_size ds s k = map_ok length (ok_or (abs s k) (NotFound (name k)))"
    and put: "ok k \<Longrightarrow> \<exists>s'. ds_put ds s k v = (s', Ok ()) \<and> abs s' = (abs s)(k \<mapsto> v)"
    and delete: "ok k \<Longrightarrow> \<exists>s'. ds_delete ds s k = (s', Ok ()) \<and> abs s' = (abs s)(k := None)"
    and sync: "ok k \<Longrightarrow> \<exists>s'. ds_sync ds s k = (s', Ok ()) \<and> abs s' = abs s"
    and close: "\<exists>s'. ds_close ds s = (s', Ok ()) \<and> abs s' = abs s"
begin

lemma apply_write_map:
  "ok (write_key w) \<Longrightarrow> \<exists>s'. apply_write ds s w = (s', Ok ()) \<and> abs s' = write_map w (abs s)"
  by (cases w) (simp_all add: put delete)

lemma apply_writes_map:
  "list_all (ok \<circ> write_key) ws \<Longrightarrow>
   \<exists>s'. apply_writes ds s ws = (s', Ok ()) \<and> abs s' = fold write_map ws (abs s)"
proof (induction ws arbitrary: s)
  case (Cons w ws)
  then obtain s1 where "apply_write ds s w = (s1, Ok ())" "abs s1 = write_map w (abs s)"
    using apply_write_map [of w s] by auto
  with Cons.IH [of s1] Cons.prems show ?case by simp
qed simp

lemma get_after_put:
  assumes "ds_put ds s k v = (s', r)" "ok k"
  shows "r = Ok () \<and> ds_get ds s' k = Ok v \<and> (\<forall>k'. ok k' \<and> k' \<noteq> k \<longrightarrow> ds_get ds s' k' = ds_get ds s k')"
  using put [of k s v] assms by (auto simp: get)

lemma get_after_delete:
  assumes "ds_delete ds s k = (s', r)" "ok k"
  shows "r = Ok () \<and> ds_get ds s' k = Err (NotFound (name k)) \<and>
    (\<forall>k'. ok k' \<and> k' \<noteq> k \<longrightarrow> ds_get ds s' k' = ds_get ds s k')"
  using delete [of k s] assms by (auto simp: get)

lemma reads_agree:
  "ok k \<Longrightarrow> ds_has ds s k = Ok (is_ok (ds_get ds s k)) \<and> ds_size ds s k = map_ok length (ds_get ds s k)"
  by (cases "abs s k") (simp_all add: has sized get)

end

lemmas map_store_defs = map_datastore_def map_get_def map_has_def map_size_def map_put_def map_delete_def

interpretation map_store: store_contract map_datastore map_values "\<lambda>_. True" as_str
  by unfold_locales (simp_all add: map_store_defs)

end
