(* ===== verification/Datastore_Basic.thy ===== *)
theory Datastore_Basic
  imports Datastore
begin

text \<open>
  Batches and transactions over a store without support for them (\<open>src/ipfs/datastore/src/impls/basic.rs\<close>):
  writes are collected per key and applied to the store on commit.

  The pending operations are a hash map, whose iteration order is not specified: it is an argument \<open>order\<close>
  of \<open>commit\<close>, any enumeration of the keys without repetition. The locale \<open>flaky_store\<close> is the
  contract of a store whose writes may fail without effect; every store of \<open>store_contract\<close> is one.
\<close>

datatype Op = OpPut bytes | OpDelete

record 's BasicBatchDataStore =
  batch_ops :: "Key \<rightharpoonup> Op"
  batch_inner :: 's

definition basic_batch_new :: "'s \<Rightarrow> 's BasicBatchDataStore" where
  "basic_batch_new s = \<lparr>batch_ops = Map.empty, batch_inner = s\<rparr>"

definition basic_batch_get :: "('s, 'z) datastore_scheme \<Rightarrow> 's BasicBatchDataStore \<Rightarrow> Key \<Rightarrow> bytes ds_result" where
  "basic_batch_get ds b key = ds_get ds (batch_inner b) key"

definition basic_batch_has :: "('s, 'z) datastore_scheme \<Rightarrow> 's BasicBatchDataStore \<Rightarrow> Key \<Rightarrow> bool ds_result" where
  "basic_batch_has ds b key = ds_has ds (batch_inner b) key"

definition basic_batch_size :: "('s, 'z) datastore_scheme \<Rightarrow> 's BasicBatchDataStore \<Rightarrow> Key \<Rightarrow> nat ds_result" where
  "basic_batch_size ds b key = ds_size ds (batch_inner b) key"

definition basic_batch_put :: "'s BasicBatchDataStore \<Rightarrow> Key \<Rightarrow> bytes \<Rightarrow> 's BasicBatchDataStore \<times> unit ds_result" where
  "basic_batch_put b key value = (b\<lparr>batch_ops := (batch_ops b)(key \<mapsto> OpPut value)\<rparr>, Ok ())"

definition basic_batch_delete :: "'s BasicBatchDataStore \<Rightarrow> Key \<Rightarrow> 's BasicBatchDataStore \<times> unit ds_result" where
  "basic_batch_delete b key = (b\<lparr>batch_ops := (batch_ops b)(key \<mapsto> OpDelete)\<rparr>, Ok ())"

text \<open>The loop over the pending operations, in the order in which the map is iterated.\<close>

fun commit_ops :: "('s, 'z) datastore_scheme \<Rightarrow> (Key \<rightharpoonup> Op) \<Rightarrow> 's \<Rightarrow> Key list \<Rightarrow> 's \<times> unit ds_result" where
  "commit_ops ds ops s [] = (s, Ok ())"
| "commit_ops ds ops s (key # order) =
    (let (s', r) =
       (case ops key of
          Some (OpPut value) \<Rightarrow> ds_put ds s key value
        | Some OpDelete \<Rightarrow> ds_delete ds s key
        | None \<Rightarrow> (s, Ok ()))
     in then_write s' r (\<lambda>_. commit_ops ds ops s' order))"

definition basic_batch_commit ::
  "('s, 'z) datastore_scheme \<Rightarrow> Key list \<Rightarrow> 's BasicBatchDataStore \<Rightarrow> 's BasicBatchDataStore \<times> unit ds_result" where
  "basic_batch_commit ds order b =
    (let (s', r) = commit_ops ds (batch_ops b) (batch_inner b) order in
     if r = Ok () then (b\<lparr>batch_inner := s', batch_ops := Map.empty\<rparr>, Ok ())
     else (b\<lparr>batch_inner := s'\<rparr>, r))"

definition basic_batch_maintenance :: "'s maintenance \<Rightarrow> 's BasicBatchDataStore maintenance" where
  "basic_batch_maintenance mt =
    \<lparr>mt_check = \<lambda>b. mt_check mt (batch_inner b), mt_collect_garbage = \<lambda>b. mt_collect_garbage mt (batch_inner b),
     mt_disk_usage = \<lambda>b. mt_disk_usage mt (batch_inner b), mt_scrub = \<lambda>b. mt_scrub mt (batch_inner b)\<rparr>"

record 's BasicTxnDataStore =
  txn_ops :: "Key \<rightharpoonup> Op"
  txn_inner :: 's

definition basic_batch_txn :: "'s BasicBatchDataStore \<Rightarrow> bool \<Rightarrow> 's BasicTxnDataStore ds_result" where
  "basic_batch_txn b read_only = Ok \<lparr>txn_ops = batch_ops b, txn_inner = batch_inner b\<rparr>"

definition basic_txn_new :: "'s \<Rightarrow> 's BasicTxnDataStore" where
  "basic_txn_new s = \<lparr>txn_ops = Map.empty, txn_inner = s\<rparr>"

definition basic_txn_get :: "('s, 'z) datastore_scheme \<Rightarrow> 's BasicTxnDataStore \<Rightarrow> Key \<Rightarrow> bytes ds_result" where
  "basic_txn_get ds t key = ds_get ds (txn_inner t) key"

definition basic_txn_has :: "('s, 'z) datastore_scheme \<Rightarrow> 's BasicTxnDataStore \<Rightarrow> Key \<Rightarrow> bool ds_result" where
  "basic_txn_has ds t key = ds_has ds (txn_inner t) key"

definition basic_txn_size :: "('s, 'z) datastore_scheme \<Rightarrow> 's BasicTxnDataStore \<Rightarrow> Key \<Rightarrow> nat ds_result" where
  "basic_txn_size ds t key = ds_size ds (txn_inner t) key"

definition basic_txn_put :: "'s BasicTxnDataStore \<Rightarrow> Key \<Rightarrow> bytes \<Rightarrow> 's BasicTxnDataStore \<times> unit ds_result" where
  "basic_txn_put t key value = (t\<lparr>txn_ops := (txn_ops t)(key \<mapsto> OpPut value)\<rparr>, Ok ())"

definition basic_txn_delete :: "'s BasicTxnDataStore \<Rightarrow> Key \<Rightarrow> 's BasicTxnDataStore \<times> unit ds_result" where
  "basic_txn_delete t key = (t\<lparr>txn_ops := (txn_ops t)(key \<mapsto> OpDelete)\<rparr>, Ok ())"

definition basic_txn_commit ::
  "('s, 'z) datastore_scheme \<Rightarrow> Key list \<Rightarrow> 's BasicTxnDataStore \<Rightarrow> 's BasicTxnDataStore \<times> unit ds_result" where
  "basic_txn_commit ds order t =
    (let (s', r) = commit_ops ds (txn_ops t) (txn_inner t) order in
     if r = Ok () then (t\<lparr>txn_inner := s', txn_ops := Map.empty\<rparr>, Ok ())
     else (t\<lparr>txn_inner := s'\<rparr>, r))"

definition basic_txn_discard :: "'s BasicTxnDataStore \<Rightarrow> 's BasicTxnDataStore \<times> unit ds_result" where
  "basic_txn_discard t = (t\<lparr>txn_ops := Map.empty\<rparr>, Ok ())"

definition basic_txn_maintenance :: "'s maintenance \<Rightarrow> 's BasicTxnDataStore maintenance" where
  "basic_txn_maintenance mt =
    \<lparr>mt_check = \<lambda>t. mt_check mt (txn_inner t), mt_collect_garbage = \<lambda>t. mt_collect_garbage mt (txn_inner t),
     mt_disk_usage = \<lambda>t. mt_disk_usage mt (txn_inner t), mt_scrub = \<lambda>t. mt_scrub mt (txn_inner t)\<rparr>"

definition dummy_batch :: "unit \<Rightarrow> unit BasicBatchDataStore ds_result" where
  "dummy_batch s = Ok (basic_batch_new ())"

definition dummy_txn :: "unit \<Rightarrow> bool \<Rightarrow> unit BasicTxnDataStore ds_result" where
  "dummy_txn s read_only = Ok (basic_txn_new ())"


subsection \<open>What pending operations mean\<close>

definition iterates :: "Key list \<Rightarrow> (Key \<rightharpoonup> Op) \<Rightarrow> bool" where
  "iterates order ops \<longleftrightarrow> distinct order \<and> set order = dom ops"

definition overlay :: "(Key \<rightharpoonup> Op) \<Rightarrow> (Key \<rightharpoonup> bytes) \<Rightarrow> (Key \<rightharpoonup> bytes)" where
  "overlay ops m k =
    (case ops k of Some (OpPut v) \<Rightarrow> Some v | Some OpDelete \<Rightarrow> None | None \<Rightarrow> m k)"

primrec batch_write :: "'s BasicBatchDataStore \<Rightarrow> store_write \<Rightarrow> 's BasicBatchDataStore" where
  "batch_write b (Put k v) = fst (basic_batch_put b k v)"
| "batch_write b (Delete k) = fst (basic_batch_delete b k)"

primrec txn_write :: "'s BasicTxnDataStore \<Rightarrow> store_write \<Rightarrow> 's BasicTxnDataStore" where
  "txn_write t (Put k v) = fst (basic_txn_put t k v)"
| "txn_write t (Delete k) = fst (basic_txn_delete t k)"

lemma overlay_empty [simp]: "overlay Map.empty m = m"
  by (simp add: overlay_def fun_eq_iff)

lemma overlay_put: "overlay (ops(k \<mapsto> OpPut v)) m = (overlay ops m)(k \<mapsto> v)"
  and overlay_delete: "overlay (ops(k \<mapsto> OpDelete)) m = (overlay ops m)(k := None)"
  by (auto simp: overlay_def fun_eq_iff)

lemma overlay_restrict:
  "overlay (ops |` A) (overlay (ops |` B) m) = overlay (ops |` (A \<union> B)) m"
  by (auto simp: overlay_def fun_eq_iff restrict_map_def split: option.splits Op.splits)

lemma restrict_dom: "A = dom ops \<Longrightarrow> ops |` A = ops"
  by (auto simp: restrict_map_def fun_eq_iff)

lemma batch_writes:
  "batch_inner (foldl batch_write b ws) = batch_inner b \<and>
   overlay (batch_ops (foldl batch_write b ws)) m = fold write_map ws (overlay (batch_ops b) m)"
proof (induction ws arbitrary: b)
  case (Cons w ws)
  then show ?case
    by (cases w) (simp_all add: basic_batch_put_def basic_batch_delete_def overlay_put overlay_delete flip: fun_upd_def)
qed simp

lemma txn_writes:
  "txn_inner (foldl txn_write t ws) = txn_inner t \<and>
   overlay (txn_ops (foldl txn_write t ws)) m = fold write_map ws (overlay (txn_ops t) m)"
proof (induction ws arbitrary: t)
  case (Cons w ws)
  then show ?case
    by (cases w) (simp_all add: basic_txn_put_def basic_txn_delete_def overlay_put overlay_delete flip: fun_upd_def)
qed simp

locale flaky_store =
  fixes ds :: "('s, 'z) datastore_scheme"
    and abs :: "'s \<Rightarrow> (Key \<rightharpoonup> bytes)"
    and ok :: "Key \<Rightarrow> bool"
  assumes flaky_put: "ok k \<Longrightarrow> ds_put ds s k v = (s', r) \<Longrightarrow>
      if r = Ok () then abs s' = (abs s)(k \<mapsto> v) else abs s' = abs s"
    and flaky_delete: "ok k \<Longrightarrow> ds_delete ds s k = (s', r) \<Longrightarrow>
      if r = Ok () then abs s' = (abs s)(k := None) else abs s' = abs s"
begin

lemma commit_ops_prefix:
  assumes "commit_ops ds ops s order = (s', r)" "list_all ok order"
  shows "\<exists>before. prefix before order \<and> abs s' = overlay (ops |` set before) (abs s) \<and>
    (r = Ok () \<longrightarrow> before = order)"
  using assms
proof (induction order arbitrary: s)
  case (Cons key order)
  define step where "step =
    (case ops key of
       Some (OpPut value) \<Rightarrow> ds_put ds s key value
     | Some OpDelete \<Rightarrow> ds_delete ds s key
     | None \<Rightarrow> (s, Ok ()))"
  obtain s1 r1 where s1: "step = (s1, r1)" by (cases step)
  have abs1: "abs s1 = (if r1 = Ok () then overlay (ops |` {key}) (abs s) else abs s)"
    using s1 flaky_put [of key s] flaky_delete [of key s] Cons.prems(2)
    by (auto simp: step_def overlay_def restrict_map_def fun_eq_iff split: option.splits Op.splits if_splits)
  have run: "then_write s1 r1 (\<lambda>_. commit_ops ds ops s1 order) = (s', r)"
    using Cons.prems(1) s1 by (simp add: step_def [symmetric])
  show ?case
  proof (cases "r1 = Ok ()")
    case True
    then obtain before where "prefix before order" "abs s' = overlay (ops |` set before) (abs s1)"
      "r = Ok () \<longrightarrow> before = order"
      using run Cons.IH [of s1] Cons.prems(2) by auto
    with True abs1 show ?thesis by (intro exI [of _ "key # before"]) (simp add: overlay_restrict)
  next
    case False
    then have "s' = s1 \<and> r = r1" using run by (cases r1) auto
    with False abs1 show ?thesis by (intro exI [of _ "[]"]) simp
  qed
qed (intro exI [of _ "[]"], simp)

end

sublocale store_contract \<subseteq> flaky: flaky_store ds abs ok
proof
  fix k s v s' r
  assume "ok k"
  then show "ds_put ds s k v = (s', r) \<Longrightarrow> if r = Ok () then abs s' = (abs s)(k \<mapsto> v) else abs s' = abs s"
    and "ds_delete ds s k = (s', r) \<Longrightarrow> if r = Ok () then abs s' = (abs s)(k := None) else abs s' = abs s"
    using put [of k s v] delete [of k s] by auto
qed

context store_contract
begin

lemma commit_ops_Ok: "list_all ok order \<Longrightarrow> snd (commit_ops ds ops s order) = Ok ()"
proof (induction order arbitrary: s)
  case (Cons key order)
  then obtain s1 where "(case ops key of
       Some (OpPut value) \<Rightarrow> ds_put ds s key value
     | Some OpDelete \<Rightarrow> ds_delete ds s key
     | None \<Rightarrow> (s, Ok ())) = (s1, Ok ())"
    using put [of key s] delete [of key s]
    by (cases "ops key"; cases "the (ops key)") (simp, simp, fastforce, fastforce)
  with Cons show ?case by simp
qed simp

lemma commit_ops_map:
  assumes "iterates order ops" "list_all ok order"
  shows "\<exists>s'. commit_ops ds ops s order = (s', Ok ()) \<and> abs s' = overlay ops (abs s)"
proof -
  obtain s' where "commit_ops ds ops s order = (s', Ok ())"
    using commit_ops_Ok [OF assms(2), of ops s] by (metis prod.collapse)
  with flaky.commit_ops_prefix [OF this assms(2)] assms(1) show ?thesis by (simp add: iterates_def restrict_dom)
qed

end

lemma batch_write_keys: "dom (batch_ops (foldl batch_write b ws)) = dom (batch_ops b) \<union> write_key ` set ws"
proof (induction ws arbitrary: b)
  case (Cons w ws)
  then show ?case by (cases w) (auto simp: basic_batch_put_def basic_batch_delete_def)
qed simp

lemma txn_write_keys: "dom (txn_ops (foldl txn_write t ws)) = dom (txn_ops t) \<union> write_key ` set ws"
proof (induction ws arbitrary: t)
  case (Cons w ws)
  then show ?case by (cases w) (auto simp: basic_txn_put_def basic_txn_delete_def)
qed simp


subsection \<open>Properties\<close>

text \<open>
  C5: A basic batch refines applying its writes: after any sequence of puts and deletes the store still
  reads as before, and a commit, in whatever order the pending operations are iterated, succeeds, leaves nothing
  pending, and makes the store the one obtained by applying the writes one after the other.
\<close>

theorem batch_commit_refines:
  assumes "store_contract ds \<alpha> ok name" "list_all (ok \<circ> write_key) ws"
    and "b = foldl batch_write (basic_batch_new s) ws" "iterates order (batch_ops b)"
  shows "basic_batch_get ds b k = ds_get ds s k \<and>
    (\<exists>b'. basic_batch_commit ds order b = (b', Ok ()) \<and> batch_ops b' = Map.empty \<and>
      \<alpha> (batch_inner b') = fold write_map ws (\<alpha> s) \<and>
      \<alpha> (batch_inner b') = \<alpha> (fst (apply_writes ds s ws)))"
proof -
  have b: "batch_inner b = s" "overlay (batch_ops b) (\<alpha> s) = fold write_map ws (\<alpha> s)"
    using batch_writes [of "basic_batch_new s" ws "\<alpha> s"] assms(3) by (simp_all add: basic_batch_new_def)
  have keys: "list_all ok order"
    using assms(2-4) batch_write_keys [of "basic_batch_new s" ws] by (auto simp: iterates_def basic_batch_new_def list_all_iff)
  obtain s' where "commit_ops ds (batch_ops b) s order = (s', Ok ())" "\<alpha> s' = overlay (batch_ops b) (\<alpha> s)"
    using store_contract.commit_ops_map [OF assms(1,4) keys] by blast
  then show ?thesis
    using b store_contract.apply_writes_map [OF assms(1,2), of s]
    by (auto simp: basic_batch_commit_def basic_batch_get_def)
qed

theorem batch_commit_refines_witness:
  "\<exists>b'. basic_batch_commit map_datastore [Key ''/b'', Key ''/a'']
      (foldl batch_write (basic_batch_new map_new) [Put (Key ''/a'') [1], Put (Key ''/b'') [2], Delete (Key ''/a'')]) = (b', Ok ()) \<and>
    map_values (batch_inner b') = [Key ''/b'' \<mapsto> [2]]"
  using batch_commit_refines [OF map_store.store_contract_axioms _ refl,
      where order = "[Key ''/b'', Key ''/a'']" and s = map_new and ws = "[Put (Key ''/a'') [1], Put (Key ''/b'') [2], Delete (Key ''/a'')]"]
  by (auto simp: iterates_def basic_batch_put_def basic_batch_delete_def basic_batch_new_def map_new_def fun_upd_twist)

text \<open>
  A basic transaction commits all its writes or, after a discard, none of them: committing refines applying
  the writes in order, and discarding forgets them, so that a later commit changes nothing.
\<close>

lemma txn_commit_or_discard:
  assumes "store_contract ds \<alpha> ok name" "list_all (ok \<circ> write_key) ws"
    and "t = foldl txn_write (basic_txn_new s) ws" "iterates order (txn_ops t)"
  shows "(\<exists>t'. basic_txn_commit ds order t = (t', Ok ()) \<and> \<alpha> (txn_inner t') = fold write_map ws (\<alpha> s)) \<and>
    basic_txn_commit ds [] (fst (basic_txn_discard t)) = (basic_txn_new s, Ok ())"
proof -
  have t: "txn_inner t = s" "overlay (txn_ops t) (\<alpha> s) = fold write_map ws (\<alpha> s)"
    using txn_writes [of "basic_txn_new s" ws "\<alpha> s"] assms(3) by (simp_all add: basic_txn_new_def)
  have keys: "list_all ok order"
    using assms(2-4) txn_write_keys [of "basic_txn_new s" ws] by (auto simp: iterates_def basic_txn_new_def list_all_iff)
  obtain s' where "commit_ops ds (txn_ops t) s order = (s', Ok ())" "\<alpha> s' = overlay (txn_ops t) (\<alpha> s)"
    using store_contract.commit_ops_map [OF assms(1,4) keys] by blast
  then show ?thesis
    using t by (simp add: basic_txn_commit_def basic_txn_discard_def basic_txn_new_def)
qed

end
