(* ===== verification/Datastore_Wrappers.thy ===== *)
theory Datastore_Wrappers
  imports Datastore_Basic
begin

text \<open>
  The stores that wrap another store (\<open>src/ipfs/datastore/src/impls\<close>): \<open>fail.rs\<close>, \<open>delay.rs\<close>, \<open>transform.rs\<close>, \<open>log.rs\<close>
  and \<open>sync.rs\<close>, with \<open>MemoryDataStore\<close> of \<open>src/ipfs/datastore-memory\<close>.

  A wrapper maps the record of methods of the inner store to its own. The fields of the fail, delay, transform and log
  wrappers other than the inner store never change, so they are arguments and the state is that of the inner store.
  \<open>sync.rs\<close> shares its inner store through a reference-counted lock: a handle is an address of a
  list of cells, and each method holds the lock of its cell for the whole call.
\<close>

subsection \<open>Failing stores\<close>

type_synonym fail_fn = "string \<Rightarrow> unit ds_result"

definition fail_datastore :: "fail_fn \<Rightarrow> ('s, 'z) datastore_scheme \<Rightarrow> 's datastore" where
  "fail_datastore fail ds =
    \<lparr>ds_sync = \<lambda>s p. then_write s (fail ''sync'') (\<lambda>_. ds_sync ds s p),
     ds_close = \<lambda>s. ds_close ds s,
     ds_get = \<lambda>s k. and_then (fail ''put'') (\<lambda>_. ds_get ds s k),
     ds_has = \<lambda>s k. and_then (fail ''has'') (\<lambda>_. ds_has ds s k),
     ds_size = \<lambda>s k. and_then (fail ''size'') (\<lambda>_. ds_size ds s k),
     ds_put = \<lambda>s k v. then_write s (fail ''put'') (\<lambda>_. ds_put ds s k v),
     ds_delete = \<lambda>s k. then_write s (fail ''delete'') (\<lambda>_. ds_delete ds s k)\<rparr>"

definition fail_maintenance :: "fail_fn \<Rightarrow> 's maintenance \<Rightarrow> 's maintenance" where
  "fail_maintenance fail mt =
    \<lparr>mt_check = \<lambda>s. and_then (fail ''check'') (\<lambda>_. mt_check mt s),
     mt_collect_garbage = \<lambda>s. and_then (fail ''collect-garbage'') (\<lambda>_. mt_collect_garbage mt s),
     mt_disk_usage = \<lambda>s. and_then (fail ''disk-usage'') (\<lambda>_. mt_disk_usage mt s),
     mt_scrub = \<lambda>s. and_then (fail ''scrub'') (\<lambda>_. mt_scrub mt s)\<rparr>"

definition fail_batch_datastore :: "fail_fn \<Rightarrow> ('s, 'z) batch_datastore_scheme \<Rightarrow> 's batch_datastore" where
  "fail_batch_datastore fail ds =
    \<lparr>ds_sync = \<lambda>s p. then_write s (fail ''batch-sync'') (\<lambda>_. ds_sync ds s p),
     ds_close = \<lambda>s. ds_close ds s,
     ds_get = \<lambda>s k. and_then (fail ''batch-put'') (\<lambda>_. ds_get ds s k),
     ds_has = \<lambda>s k. and_then (fail ''batch-has'') (\<lambda>_. ds_has ds s k),
     ds_size = \<lambda>s k. and_then (fail ''batch-size'') (\<lambda>_. ds_size ds s k),
     ds_put = \<lambda>s k v. then_write s (fail ''batch-put'') (\<lambda>_. ds_put ds s k v),
     ds_delete = \<lambda>s k. then_write s (fail ''batch-delete'') (\<lambda>_. ds_delete ds s k),
     ds_commit = \<lambda>s. then_write s (fail ''batch-commit'') (\<lambda>_. ds_commit ds s)\<rparr>"

definition fail_txn_datastore :: "fail_fn \<Rightarrow> ('s, 'z) txn_datastore_scheme \<Rightarrow> 's txn_datastore" where
  "fail_txn_datastore fail ds =
    \<lparr>ds_sync = \<lambda>s p. then_write s (fail ''txn-sync'') (\<lambda>_. ds_sync ds s p),
     ds_close = \<lambda>s. ds_close ds s,
     ds_get = \<lambda>s k. and_then (fail ''txn-put'') (\<lambda>_. ds_get ds s k),
     ds_has = \<lambda>s k. and_then (fail ''txn-has'') (\<lambda>_. ds_has ds s k),
     ds_size = \<lambda>s k. and_then (fail ''txn-size'') (\<lambda>_. ds_size ds s k),
     ds_put = \<lambda>s k v. then_write s (fail ''txn-put'') (\<lambda>_. ds_put ds s k v),
     ds_delete = \<lambda>s k. then_write s (fail ''txn-delete'') (\<lambda>_. ds_delete ds s k),
     ds_commit = \<lambda>s. then_write s (fail ''txn-commit'') (\<lambda>_. ds_commit ds s),
     ds_discard = \<lambda>s. then_write s (fail ''txn-discard'') (\<lambda>_. ds_discard ds s)\<rparr>"

subsection \<open>Key transformations\<close>

type_synonym key_fn = "Key \<Rightarrow> Key ds_result"

record KeyTransform =
  convert_key :: key_fn
  invert_key :: key_fn

definition transform_datastore :: "KeyTransform \<Rightarrow> ('s, 'z) datastore_scheme \<Rightarrow> 's datastore" where
  "transform_datastore kt ds =
    \<lparr>ds_sync = \<lambda>s p. then_write s (convert_key kt p) (\<lambda>key. ds_sync ds s key),
     ds_close = \<lambda>s. ds_close ds s,
     ds_get = \<lambda>s k. and_then (convert_key kt k) (\<lambda>key. ds_get ds s key),
     ds_has = \<lambda>s k. and_then (convert_key kt k) (\<lambda>key. ds_has ds s key),
     ds_size = \<lambda>s k. and_then (convert_key kt k) (\<lambda>key. ds_size ds s key),
     ds_put = \<lambda>s k v. then_write s (convert_key kt k) (\<lambda>key. ds_put ds s key v),
     ds_delete = \<lambda>s k. then_write s (convert_key kt k) (\<lambda>key. ds_delete ds s key)\<rparr>"

definition transform_maintenance :: "KeyTransform \<Rightarrow> 's maintenance \<Rightarrow> 's maintenance" where
  "transform_maintenance kt mt =
    \<lparr>mt_check = \<lambda>s. mt_check mt s, mt_collect_garbage = \<lambda>s. mt_collect_garbage mt s,
     mt_disk_usage = \<lambda>s. mt_disk_usage mt s, mt_scrub = \<lambda>s. mt_scrub mt s\<rparr>"

definition transform_batch_datastore :: "KeyTransform \<Rightarrow> ('s, 'z) batch_datastore_scheme \<Rightarrow> 's batch_datastore" where
  "transform_batch_datastore kt ds =
    \<lparr>ds_sync = \<lambda>s p. then_write s (convert_key kt p) (\<lambda>key. ds_sync ds s key),
     ds_close = \<lambda>s. ds_close ds s,
     ds_get = \<lambda>s k. and_then (convert_key kt k) (\<lambda>key. ds_get ds s key),
     ds_has = \<lambda>s k. and_then (convert_key kt k) (\<lambda>key. ds_has ds s key),
     ds_size = \<lambda>s k. and_then (convert_key kt k) (\<lambda>key. ds_size ds s key),
     ds_put = \<lambda>s k v. then_write s (convert_key kt k) (\<lambda>key. ds_put ds s key v),
     ds_delete = \<lambda>s k. then_write s (convert_key kt k) (\<lambda>key. ds_delete ds s key),
     ds_commit = \<lambda>s. ds_commit ds s\<rparr>"

definition transform_txn_datastore :: "KeyTransform \<Rightarrow> ('s, 'z) txn_datastore_scheme \<Rightarrow> 's txn_datastore" where
  "transform_txn_datastore kt ds =
    \<lparr>ds_sync = \<lambda>s p. then_write s (convert_key kt p) (\<lambda>key. ds_sync ds s key),
     ds_close = \<lambda>s. ds_close ds s,
     ds_get = \<lambda>s k. and_then (convert_key kt k) (\<lambda>key. ds_get ds s key),
     ds_has = \<lambda>s k. and_then (convert_key kt k) (\<lambda>key. ds_has ds s key),
     ds_size = \<lambda>s k. and_then (convert_key kt k) (\<lambda>key. ds_size ds s key),
     ds_put = \<lambda>s k v. then_write s (convert_key kt k) (\<lambda>key. ds_put ds s key v),
     ds_delete = \<lambda>s k. then_write s (convert_key kt k) (\<lambda>key. ds_delete ds s key),
     ds_commit = \<lambda>s. ds_commit ds s,
     ds_discard = \<lambda>s. ds_discard ds s\<rparr>"

definition key_transform_pair :: "(Key \<Rightarrow> Key) \<Rightarrow> (Key \<Rightarrow> Key) \<Rightarrow> KeyTransform" where
  "key_transform_pair convert invert = \<lparr>convert_key = \<lambda>k. Ok (convert k), invert_key = \<lambda>k. Ok (invert k)\<rparr>"

definition prefix_convert :: "(string \<Rightarrow> string) \<Rightarrow> Key \<Rightarrow> key_fn" where
  "prefix_convert pc pre key = key_child pc pre key"

definition prefix_invert :: "Key \<Rightarrow> key_fn" where
  "prefix_invert pre key =
    (if is_root pre then Ok key
     else if is_ancestor_of pre key then
       and_then (str_slice (as_str key) (length (as_str pre)) (length (as_str key))) new_unchecked
     else Panic)"

definition prefix_transform :: "(string \<Rightarrow> string) \<Rightarrow> Key \<Rightarrow> KeyTransform" where
  "prefix_transform pc pre = \<lparr>convert_key = prefix_convert pc pre, invert_key = prefix_invert pre\<rparr>"

subsection \<open>Calls as data\<close>

datatype store_call = CSync Key | CClose | CGet Key | CHas Key | CSize Key | CPut Key bytes | CDelete Key

datatype store_reply = RUnit "unit ds_result" | RBytes "bytes ds_result" | RBool "bool ds_result" | RSize "nat ds_result"

primrec store_step :: "('s, 'z) datastore_scheme \<Rightarrow> 's \<Rightarrow> store_call \<Rightarrow> 's \<times> store_reply" where
  "store_step ds s (CSync p) = map_prod id RUnit (ds_sync ds s p)"
| "store_step ds s CClose = map_prod id RUnit (ds_close ds s)"
| "store_step ds s (CGet k) = (s, RBytes (ds_get ds s k))"
| "store_step ds s (CHas k) = (s, RBool (ds_has ds s k))"
| "store_step ds s (CSize k) = (s, RSize (ds_size ds s k))"
| "store_step ds s (CPut k v) = map_prod id RUnit (ds_put ds s k v)"
| "store_step ds s (CDelete k) = map_prod id RUnit (ds_delete ds s k)"

fun store_run :: "('s, 'z) datastore_scheme \<Rightarrow> 's \<Rightarrow> store_call list \<Rightarrow> 's \<times> store_reply list" where
  "store_run ds s [] = (s, [])"
| "store_run ds s (c # cs) =
    (let (s', r) = store_step ds s c; (s'', rs) = store_run ds s' cs in (s'', r # rs))"

subsection \<open>Delayed stores\<close>

text \<open>Every call but \<open>close\<close> first waits; the number of waits is returned with the reply.\<close>

definition delay_step :: "('s, 'z) datastore_scheme \<Rightarrow> 's \<Rightarrow> store_call \<Rightarrow> nat \<times> 's \<times> store_reply" where
  "delay_step ds s c =
    (case c of
       CClose \<Rightarrow> (0, store_step ds s CClose)
     | _ \<Rightarrow> (1, store_step ds s c))"

definition delay_disk_usage :: "'s maintenance \<Rightarrow> 's \<Rightarrow> nat \<times> u64 ds_result" where
  "delay_disk_usage mt s = (1, mt_disk_usage mt s)"

definition delay_batch :: "'s \<Rightarrow> 's BasicBatchDataStore ds_result" where
  "delay_batch s = Ok (basic_batch_new s)"

definition delay_txn :: "'s \<Rightarrow> bool \<Rightarrow> 's BasicTxnDataStore ds_result" where
  "delay_txn s read_only = Ok (basic_txn_new s)"

subsection \<open>Logging stores\<close>

definition log_message :: "string \<Rightarrow> string \<Rightarrow> store_call \<Rightarrow> string" where
  "log_message name tag c =
    name @ '': '' @ tag @
    (case c of
       CSync p \<Rightarrow> ''sync '' @ as_str p
     | CClose \<Rightarrow> ''close''
     | CGet k \<Rightarrow> ''get '' @ as_str k
     | CHas k \<Rightarrow> ''has '' @ as_str k
     | CSize k \<Rightarrow> ''size '' @ as_str k
     | CPut k v \<Rightarrow> ''put '' @ as_str k @ '' - '' @ debug_bytes v
     | CDelete k \<Rightarrow> ''delete '' @ as_str k)"

definition log_step :: "string \<Rightarrow> ('s, 'z) datastore_scheme \<Rightarrow> 's \<Rightarrow> store_call \<Rightarrow> string list \<times> 's \<times> store_reply" where
  "log_step name ds s c = ([log_message name [] c], store_step ds s c)"

definition log_batch_step :: "string \<Rightarrow> ('s, 'z) batch_datastore_scheme \<Rightarrow> 's \<Rightarrow> store_call \<Rightarrow> string list \<times> 's \<times> store_reply" where
  "log_batch_step name ds s c = ([log_message name ''batch '' c], store_step ds s c)"

definition log_txn_step :: "string \<Rightarrow> ('s, 'z) txn_datastore_scheme \<Rightarrow> 's \<Rightarrow> store_call \<Rightarrow> string list \<times> 's \<times> store_reply" where
  "log_txn_step name ds s c = ([log_message name ''txn '' c], store_step ds s c)"

definition log_check :: "string \<Rightarrow> 's maintenance \<Rightarrow> 's \<Rightarrow> string list \<times> unit ds_result" where
  "log_check name mt s = ([name @ '': check''], mt_check mt s)"

definition log_collect_garbage :: "string \<Rightarrow> 's maintenance \<Rightarrow> 's \<Rightarrow> string list \<times> unit ds_result" where
  "log_collect_garbage name mt s = ([name @ '': collect_garbage''], mt_collect_garbage mt s)"

definition log_disk_usage :: "string \<Rightarrow> 's maintenance \<Rightarrow> 's \<Rightarrow> string list \<times> u64 ds_result" where
  "log_disk_usage name mt s = ([name @ '': disk_usage''], mt_disk_usage mt s)"

definition log_scrub :: "string \<Rightarrow> 's maintenance \<Rightarrow> 's \<Rightarrow> string list \<times> unit ds_result" where
  "log_scrub name mt s = ([name @ '': scrub''], mt_scrub mt s)"

text \<open>
  \<open>LogBatchDataStore::commit\<close>, \<open>LogTxnDataStore::commit\<close> and \<open>LogTxnDataStore::discard\<close> log a line and call themselves, not
  the inner store. A call that never returns is \<^const>\<open>None\<close>.
\<close>

partial_function (option) log_batch_commit ::
  "string \<Rightarrow> ('s, 'z) batch_datastore_scheme \<Rightarrow> 's \<Rightarrow> string list \<Rightarrow> (string list \<times> 's \<times> unit ds_result) option" where
  "log_batch_commit name ds s log = log_batch_commit name ds s (log @ [name @ '': batch commit''])"

partial_function (option) log_txn_commit ::
  "string \<Rightarrow> ('s, 'z) txn_datastore_scheme \<Rightarrow> 's \<Rightarrow> string list \<Rightarrow> (string list \<times> 's \<times> unit ds_result) option" where
  "log_txn_commit name ds s log = log_txn_commit name ds s (log @ [name @ '': txn commit''])"

partial_function (option) log_txn_discard ::
  "string \<Rightarrow> ('s, 'z) txn_datastore_scheme \<Rightarrow> 's \<Rightarrow> string list \<Rightarrow> (string list \<times> 's \<times> unit ds_result) option" where
  "log_txn_discard name ds s log = log_txn_discard name ds s (log @ [name @ '': txn discard''])"

subsection \<open>Shared stores\<close>

definition sync_new :: "'s list \<Rightarrow> 's \<Rightarrow> 's list \<times> nat" where
  "sync_new cells s = (cells @ [s], length cells)"

definition sync_step :: "('s, 'z) datastore_scheme \<Rightarrow> 's list \<Rightarrow> nat \<Rightarrow> store_call \<Rightarrow> 's list \<times> store_reply" where
  "sync_step ds cells h c =
    (let (s', r) = store_step ds (cells ! h) c in (cells[h := s'], r))"

definition sync_batch :: "nat \<Rightarrow> nat ds_result" where
  "sync_batch h = Ok h"

definition sync_txn :: "nat \<Rightarrow> bool \<Rightarrow> nat ds_result" where
  "sync_txn h read_only = Ok h"

definition sync_batch_step :: "('s, 'z) batch_datastore_scheme \<Rightarrow> 's list \<Rightarrow> nat \<Rightarrow> store_call \<Rightarrow> 's list \<times> store_reply" where
  "sync_batch_step ds cells h c =
    (let (s', r) = store_step ds (cells ! h) c in (cells[h := s'], r))"

definition sync_batch_commit :: "('s, 'z) batch_datastore_scheme \<Rightarrow> 's list \<Rightarrow> nat \<Rightarrow> 's list \<times> unit ds_result" where
  "sync_batch_commit ds cells h = (let (s', r) = ds_commit ds (cells ! h) in (cells[h := s'], r))"

definition sync_txn_step :: "('s, 'z) txn_datastore_scheme \<Rightarrow> 's list \<Rightarrow> nat \<Rightarrow> store_call \<Rightarrow> 's list \<times> store_reply" where
  "sync_txn_step ds cells h c =
    (let (s', r) = store_step ds (cells ! h) c in (cells[h := s'], r))"

definition sync_txn_commit :: "('s, 'z) txn_datastore_scheme \<Rightarrow> 's list \<Rightarrow> nat \<Rightarrow> 's list \<times> unit ds_result" where
  "sync_txn_commit ds cells h = (let (s', r) = ds_commit ds (cells ! h) in (cells[h := s'], r))"

definition sync_txn_discard :: "('s, 'z) txn_datastore_scheme \<Rightarrow> 's list \<Rightarrow> nat \<Rightarrow> 's list \<times> unit ds_result" where
  "sync_txn_discard ds cells h = (let (s', r) = ds_discard ds (cells ! h) in (cells[h := s'], r))"

definition sync_maintenance :: "'s maintenance \<Rightarrow> ('s list \<times> nat) maintenance" where
  "sync_maintenance mt =
    \<lparr>mt_check = \<lambda>(cells, h). mt_check mt (cells ! h),
     mt_collect_garbage = \<lambda>(cells, h). mt_collect_garbage mt (cells ! h),
     mt_disk_usage = \<lambda>(cells, h). mt_disk_usage mt (cells ! h),
     mt_scrub = \<lambda>(cells, h). mt_scrub mt (cells ! h)\<rparr>"

text \<open>\<open>MemoryDataStore\<close> is a shared map store.\<close>

definition memory_step :: "MapDataStore list \<Rightarrow> nat \<Rightarrow> store_call \<Rightarrow> MapDataStore list \<times> store_reply" where
  "memory_step cells h c = sync_step map_datastore cells h c"

fun sync_run ::
  "('s, 'z) datastore_scheme \<Rightarrow> 's list \<Rightarrow> (nat \<times> store_call) list \<Rightarrow> 's list \<times> (nat \<times> store_reply) list" where
  "sync_run ds cells [] = (cells, [])"
| "sync_run ds cells ((h, c) # cs) =
    (let (cells', r) = sync_step ds cells h c; (cells'', rs) = sync_run ds cells' cs in (cells'', (h, r) # rs))"

subsection \<open>The wrappers keep the contract\<close>

lemma then_write_Ok: "then_write s r f = (s', Ok ()) \<longleftrightarrow> (\<exists>x. r = Ok x \<and> f x = (s', Ok ()))"
  by (cases r) auto

context flaky_store
begin

lemma fail_flaky: "flaky_store (fail_datastore fail ds) abs ok"
proof
  fix k s v s' r
  assume "ok k"
  then show "ds_put (fail_datastore fail ds) s k v = (s', r) \<Longrightarrow>
      if r = Ok () then abs s' = (abs s)(k \<mapsto> v) else abs s' = abs s"
    using flaky_put [of k s v s' r] by (cases "fail ''put''") (auto simp: fail_datastore_def)
  show "ds_delete (fail_datastore fail ds) s k = (s', r) \<Longrightarrow>
      if r = Ok () then abs s' = (abs s)(k := None) else abs s' = abs s"
    using flaky_delete [OF \<open>ok k\<close>, of s s' r] by (cases "fail ''delete''") (auto simp: fail_datastore_def)
qed

end

text \<open>
  A transformation that is injective on the keys \<open>ok'\<close> and maps them into \<open>ok\<close>: the wrapped store is a store
  of the contract for the map seen through the transformation.
\<close>

context store_contract
begin

lemma transform_contract:
  assumes conv: "\<And>k. ok' k \<Longrightarrow> convert_key kt k = Ok (f k) \<and> ok (f k)" and inj: "inj_on f (Collect ok')"
  shows "store_contract (transform_datastore kt ds) (\<lambda>s k. if ok' k then abs s (f k) else None) ok' (name \<circ> f)"
proof
  fix k s v
  assume k: "ok' k"
  have upd: "(\<lambda>k'. if ok' k' then (m (f k := x)) (f k') else None) = (\<lambda>k'. if ok' k' then m (f k') else None)(k := x)" for m x
    using k inj by (auto simp: fun_eq_iff inj_on_eq_iff)
  show "ds_get (transform_datastore kt ds) s k = ok_or (if ok' k then abs s (f k) else None) (NotFound ((name \<circ> f) k))"
    and "ds_has (transform_datastore kt ds) s k = Ok ((if ok' k then abs s (f k) else None) \<noteq> None)"
    and "ds_size (transform_datastore kt ds) s k =
      map_ok length (ok_or (if ok' k then abs s (f k) else None) (NotFound ((name \<circ> f) k)))"
    using conv [OF k] k by (simp_all add: transform_datastore_def get has sized)
  show "\<exists>s'. ds_put (transform_datastore kt ds) s k v = (s', Ok ()) \<and>
      (\<lambda>k. if ok' k then abs s' (f k) else None) = (\<lambda>k. if ok' k then abs s (f k) else None)(k \<mapsto> v)"
    using conv [OF k] put [of "f k" s v] upd [of "abs s" "Some v"]
    by (auto simp: transform_datastore_def simp del: fun_upd_apply cong: if_cong)
  show "\<exists>s'. ds_delete (transform_datastore kt ds) s k = (s', Ok ()) \<and>
      (\<lambda>k. if ok' k then abs s' (f k) else None) = (\<lambda>k. if ok' k then abs s (f k) else None)(k := None)"
    using conv [OF k] delete [of "f k" s] upd [of "abs s" None]
    by (auto simp: transform_datastore_def simp del: fun_upd_apply cong: if_cong)
  show "\<exists>s'. ds_sync (transform_datastore kt ds) s k = (s', Ok ()) \<and>
      (\<lambda>k. if ok' k then abs s' (f k) else None) = (\<lambda>k. if ok' k then abs s (f k) else None)"
    using conv [OF k] sync [of "f k" s] by (auto simp: transform_datastore_def cong: if_cong)
next
  fix s
  show "\<exists>s'. ds_close (transform_datastore kt ds) s = (s', Ok ()) \<and>
      (\<lambda>k. if ok' k then abs s' (f k) else None) = (\<lambda>k. if ok' k then abs s (f k) else None)"
    using close [of s] by (auto simp: transform_datastore_def cong: if_cong)
qed

end

definition prefixed :: "Key \<Rightarrow> Key \<Rightarrow> Key" where
  "prefixed pre k = Key (render (key_list pre @ key_list k))"

lemma prefixed_ok: "key_ok pre \<Longrightarrow> key_ok k \<Longrightarrow> key_ok (prefixed pre k)"
  by (elim key_okE) (simp add: prefixed_def canonical_render)

lemma prefixed_inj: "key_ok pre \<Longrightarrow> inj_on (prefixed pre) (Collect key_ok)"
proof (rule inj_onI)
  fix x y
  assume "key_ok pre" "x \<in> Collect key_ok" "y \<in> Collect key_ok" and eq: "prefixed pre x = prefixed pre y"
  then have "list_all namespace_ok (key_list pre @ key_list x)" "list_all namespace_ok (key_list pre @ key_list y)"
    by (auto elim!: key_okE)
  with eq have "key_list pre @ key_list x = key_list pre @ key_list y"
    by (metis key_list_render prefixed_def)
  then show "x = y" using key_list_inj [of x y] \<open>x \<in> _\<close> \<open>y \<in> _\<close> by simp
qed

context path_cleaner
begin

lemma prefix_convert_eq: "key_ok pre \<Longrightarrow> key_ok k \<Longrightarrow> prefix_convert pc pre k = Ok (prefixed pre k)"
  by (elim key_okE) (simp add: prefix_convert_def prefixed_def child_render)

lemma prefix_invert_prefixed:
  assumes "key_ok pre" "key_ok k" "\<not> is_root k"
  shows "prefix_invert pre (prefixed pre k) = Ok k"
proof -
  obtain ps ks where ps: "list_all namespace_ok ps" "pre = Key (render ps)" "key_list pre = ps"
    and ks: "list_all namespace_ok ks" "k = Key (render ks)" "key_list k = ks"
    using assms(1,2) by (elim key_okE) blast
  have "ks \<noteq> []" using assms(3) ks by (auto simp: is_root_def)
  show ?thesis
  proof (cases "ps = []")
    case True
    then show ?thesis using ps ks by (simp add: prefix_invert_def prefixed_def is_root_def)
  next
    case False
    then have eq: "render (ps @ ks) = render ps @ render ks"
      using \<open>ks \<noteq> []\<close> by (simp add: render_def join_append)
    have "is_ancestor_of pre (prefixed pre k)"
      using ps ks \<open>ks \<noteq> []\<close> ancestor_render [of ps "ps @ ks"] by (simp add: prefixed_def strict_prefix_def)
    moreover have "\<not> is_root pre" using False ps by (simp add: is_root_def render_root_iff)
    moreover have "str_slice (render ps @ render ks) (length (render ps)) (length (render ps @ render ks)) =
        (Ok (render ks) :: string ds_result)"
      by (simp add: str_slice_def is_char_boundary_def render_Cons nth_append is_continuation_def)
    ultimately show ?thesis
      using ps ks by (simp add: prefix_invert_def prefixed_def eq new_unchecked_render)
  qed
qed

end

lemma log_steps_never_return:
  "log_batch_commit name bds s log = None" "log_txn_commit name tds s log = None" "log_txn_discard name tds s log = None"
proof -
  have "False" if "log_batch_commit name bds s log = Some y" for y
    using that by (rule log_batch_commit.raw_induct [rotated]) blast
  then show "log_batch_commit name bds s log = None" by (cases "log_batch_commit name bds s log") auto
  have "False" if "log_txn_commit name tds s log = Some y" for y
    using that by (rule log_txn_commit.raw_induct [rotated]) blast
  then show "log_txn_commit name tds s log = None" by (cases "log_txn_commit name tds s log") auto
  have "False" if "log_txn_discard name tds s log = Some y" for y
    using that by (rule log_txn_discard.raw_induct [rotated]) blast
  then show "log_txn_discard name tds s log = None" by (cases "log_txn_discard name tds s log") auto
qed

lemma sync_run_cell:
  assumes "h < length cells" "sync_run ds cells cs = (cells', rs)" "list_all (\<lambda>(h', c). h' < length cells) cs"
  shows "length cells' = length cells \<and>
    store_run ds (cells ! h) (map snd (filter (\<lambda>(h', c). h' = h) cs)) =
    (cells' ! h, map snd (filter (\<lambda>(h', r). h' = h) rs))"
  using assms
proof (induction cs arbitrary: cells rs)
  case (Cons hc cs)
  obtain h' c where hc: "hc = (h', c)" by (cases hc)
  obtain s' r where s': "store_step ds (cells ! h') c = (s', r)" by (cases "store_step ds (cells ! h') c")
  obtain rs' where rs': "sync_run ds (cells[h' := s']) cs = (cells', rs')" "rs = (h', r) # rs'"
    using Cons.prems(2) s' by (auto simp: hc sync_step_def split: prod.splits)
  have "length cells' = length cells \<and>
    store_run ds (cells[h' := s'] ! h) (map snd (filter (\<lambda>(h', c). h' = h) cs)) =
    (cells' ! h, map snd (filter (\<lambda>(h', r). h' = h) rs'))"
    using Cons.IH [of "cells[h' := s']" rs'] Cons.prems rs'(1) by (simp add: hc)
  then show ?case using s' rs'(2) Cons.prems by (auto simp: hc nth_list_update)
qed simp

subsection \<open>Properties\<close>

text \<open>
  C23: A failed commit is not atomic but can be repeated: if the store refuses one of the writes, the pending
  operations are kept and a part of them has reached the store; as soon as a later commit of the
  same batch succeeds, the store is what a commit without failure would have made it.
\<close>

theorem failed_commit_retry:
  assumes "flaky_store ds \<alpha> ok" "flaky_store ds' \<alpha> ok"
    and "list_all ok order" "iterates order (batch_ops b)" "iterates order' (batch_ops b)"
    and "basic_batch_commit ds order b = (b1, r)" "r \<noteq> Ok ()"
    and "basic_batch_commit ds' order' b1 = (b2, Ok ())"
  shows "batch_ops b1 = batch_ops b \<and>
    (\<exists>before. prefix before order \<and> \<alpha> (batch_inner b1) = overlay (batch_ops b |` set before) (\<alpha> (batch_inner b))) \<and>
    \<alpha> (batch_inner b2) = overlay (batch_ops b) (\<alpha> (batch_inner b))"
proof -
  obtain s1 where s1: "commit_ops ds (batch_ops b) (batch_inner b) order = (s1, r)" "b1 = b\<lparr>batch_inner := s1\<rparr>"
    using assms(6,7) by (auto simp: basic_batch_commit_def split: prod.splits if_splits)
  then obtain s2 where s2: "commit_ops ds' (batch_ops b) s1 order' = (s2, Ok ())" "batch_inner b2 = s2"
    using assms(8) by (auto simp: basic_batch_commit_def split: prod.splits if_splits)
  obtain before where before: "prefix before order" "\<alpha> s1 = overlay (batch_ops b |` set before) (\<alpha> (batch_inner b))"
    using flaky_store.commit_ops_prefix [OF assms(1) s1(1) assms(3)] by blast
  have ok': "list_all ok order'" using assms(3-5) by (simp add: iterates_def list_all_iff)
  have "\<alpha> s2 = overlay (batch_ops b |` dom (batch_ops b)) (\<alpha> s1)"
    using flaky_store.commit_ops_prefix [OF assms(2) s2(1) ok'] assms(5) by (simp add: iterates_def)
  moreover have "dom (batch_ops b) \<union> set before = dom (batch_ops b)"
    using before(1) assms(4) by (auto simp: iterates_def dest: set_mono_prefix)
  ultimately have "\<alpha> s2 = overlay (batch_ops b) (\<alpha> (batch_inner b))"
    using before(2) overlay_restrict [of "batch_ops b" "dom (batch_ops b)" "set before"] by (simp add: restrict_dom)
  with s1(2) s2(2) before show ?thesis by auto
qed

theorem failed_commit_retry_witness:
  "\<exists>b1 b2. basic_batch_commit (fail_datastore (\<lambda>op. if op = ''delete'' then Err (Custom ''full'') else Ok ()) map_datastore)
      [Key ''/a'', Key ''/b'']
      (foldl batch_write (basic_batch_new map_new) [Put (Key ''/a'') [1], Delete (Key ''/b'')]) = (b1, Err (Custom ''full'')) \<and>
    basic_batch_commit map_datastore [Key ''/b'', Key ''/a''] b1 = (b2, Ok ()) \<and>
    map_values (batch_inner b2) = overlay [Key ''/a'' \<mapsto> OpPut [1], Key ''/b'' \<mapsto> OpDelete] Map.empty"
proof -
  let ?fail = "\<lambda>op. if op = ''delete'' then Err (Custom ''full'') else Ok ()"
  let ?ops = "[Key ''/a'' \<mapsto> OpPut [1], Key ''/b'' \<mapsto> OpDelete]"
  let ?b = "\<lparr>batch_ops = ?ops, batch_inner = map_new\<rparr>"
  let ?b1 = "\<lparr>batch_ops = ?ops, batch_inner = \<lparr>map_values = [Key ''/a'' \<mapsto> [1]]\<rparr>\<rparr>"
  have b: "foldl batch_write (basic_batch_new map_new) [Put (Key ''/a'') [1], Delete (Key ''/b'')] = ?b"
    by (simp add: basic_batch_new_def basic_batch_put_def basic_batch_delete_def)
  have 1: "basic_batch_commit (fail_datastore ?fail map_datastore) [Key ''/a'', Key ''/b''] ?b = (?b1, Err (Custom ''full''))"
    by (simp add: basic_batch_commit_def fail_datastore_def map_store_defs map_new_def)
  obtain b2 where 2: "basic_batch_commit map_datastore [Key ''/b'', Key ''/a''] ?b1 = (b2, Ok ())"
    by (simp add: basic_batch_commit_def map_store_defs)
  have it: "iterates [Key ''/a'', Key ''/b''] ?ops" "iterates [Key ''/b'', Key ''/a''] ?ops"
    by (auto simp: iterates_def)
  have "map_values (batch_inner b2) = overlay ?ops (map_values map_new)"
    using failed_commit_retry [OF map_store.flaky.fail_flaky map_store.flaky.flaky_store_axioms _ _ _ 1 _ 2] it by simp
  with b 1 2 show ?thesis by (auto simp: map_new_def)
qed


lemma map_store_canonical: "store_contract map_datastore map_values key_ok as_str"
  by unfold_locales (simp_all add: map_store_defs)


text \<open>
  Adding a prefix to a key and removing it again gives the key back, except for the root key: its
  conversion is the prefix itself, on which removing the prefix panics.
\<close>

lemma prefix_transform_roundtrip:
  assumes "path_cleaner pc" "key_ok pre" "key_ok k"
  shows "and_then (prefix_convert pc pre k) (prefix_invert pre) =
    (if is_root k \<and> \<not> is_root pre then Panic else Ok k)"
proof (cases "is_root k")
  case False
  then show ?thesis
    using path_cleaner.prefix_convert_eq [OF assms] path_cleaner.prefix_invert_prefixed [OF assms False] by simp
next
  case True
  then have "prefixed pre k = pre"
    using assms(2) by (elim key_okE) (simp add: prefixed_def key_list_def [of k])
  then show ?thesis
    using True path_cleaner.prefix_convert_eq [OF assms]
    by (cases k; cases pre) (auto simp: prefix_invert_def is_ancestor_of_def is_root_def)
qed

text \<open>
  C40: The commit and the discard of the logging batch and transaction stores never return, on any store: they
  log their line and call themselves again.
\<close>

theorem log_commit_diverges:
  "log_batch_commit name bds s log = None \<and> log_txn_commit name tds s log = None \<and>
   log_txn_discard name tds s log = None"
  by (simp add: log_steps_never_return)



end
