(* ===== verification/Store_Query.thy ===== *)
theory Store_Query
  imports Datastore
begin

text \<open>
  Queries on datastores (\<open>src/ipfs/datastore/src/query\<close>): entries, filters, orders and the printed form of a query.
  The traits \<open>Filter\<close> and \<open>Order\<close> are records of their method and their printed form; an expiration time is an
  opaque instant.
\<close>

record Entry =
  entry_key :: Key
  entry_value :: bytes
  entry_expiration :: nat
  entry_size :: nat

record Filter =
  filter_fn :: "Entry \<Rightarrow> bool"
  filter_display :: string

datatype FilterOp = Equal | NotEqual | GreaterThan | GreaterThanEqual | LessThan | LessThanEqual

primrec filter_op_display :: "FilterOp \<Rightarrow> string" where
  "filter_op_display Equal = ''==''"
| "filter_op_display NotEqual = ''!=''"
| "filter_op_display GreaterThan = ''>''"
| "filter_op_display GreaterThanEqual = ''>=''"
| "filter_op_display LessThan = ''<''"
| "filter_op_display LessThanEqual = ''<=''"

primrec filter_key_compare_fn :: "Key \<Rightarrow> FilterOp \<Rightarrow> Entry \<Rightarrow> bool" where
  "filter_key_compare_fn key Equal entry \<longleftrightarrow> entry_key entry = key"
| "filter_key_compare_fn key NotEqual entry \<longleftrightarrow> entry_key entry \<noteq> key"
| "filter_key_compare_fn key GreaterThan entry \<longleftrightarrow> key_less key (entry_key entry)"
| "filter_key_compare_fn key GreaterThanEqual entry \<longleftrightarrow> key_le key (entry_key entry)"
| "filter_key_compare_fn key LessThan entry \<longleftrightarrow> key_less (entry_key entry) key"
| "filter_key_compare_fn key LessThanEqual entry \<longleftrightarrow> key_le (entry_key entry) key"

definition filter_key_compare :: "Key \<Rightarrow> FilterOp \<Rightarrow> Filter" where
  "filter_key_compare key op =
    \<lparr>filter_fn = filter_key_compare_fn key op,
     filter_display = ''KEY '' @ filter_op_display op @ '' '' @ as_str key\<rparr>"

datatype Ordering = Less | EqualTo | Greater

definition cmp :: "'a::linorder \<Rightarrow> 'a \<Rightarrow> Ordering" where
  "cmp a b = (if a < b then Less else if a = b then EqualTo else Greater)"

definition filter_value_compare_fn :: "bytes \<Rightarrow> FilterOp \<Rightarrow> Entry \<Rightarrow> bool" where
  "filter_value_compare_fn value op entry =
    (let order = cmp (entry_value entry) value in
     case op of
       Equal \<Rightarrow> order = EqualTo
     | NotEqual \<Rightarrow> order \<noteq> EqualTo
     | GreaterThan \<Rightarrow> order = Greater
     | GreaterThanEqual \<Rightarrow> order = Greater \<or> order = EqualTo
     | LessThan \<Rightarrow> order = Less
     | LessThanEqual \<Rightarrow> order = Less \<or> order = EqualTo)"

definition filter_value_compare :: "bytes \<Rightarrow> FilterOp \<Rightarrow> Filter" where
  "filter_value_compare value op =
    \<lparr>filter_fn = filter_value_compare_fn value op,
     filter_display = ''VALUE '' @ filter_op_display op @ '' '' @ debug_bytes value\<rparr>"

definition filter_key_prefix :: "string \<Rightarrow> Filter" where
  "filter_key_prefix p =
    \<lparr>filter_fn = \<lambda>entry. prefix p (as_str (entry_key entry)), filter_display = ''PREFIX('' @ p @ '')''\<rparr>"

record Order =
  order_cmp :: "Entry \<Rightarrow> Entry \<Rightarrow> Ordering"
  order_display :: string

definition order_by_function :: "(Entry \<Rightarrow> Entry \<Rightarrow> Ordering) \<Rightarrow> Order" where
  "order_by_function func = \<lparr>order_cmp = func, order_display = ''FN''\<rparr>"

definition entry_key_ascending :: "Entry \<Rightarrow> Entry \<Rightarrow> Ordering" where
  "entry_key_ascending lhs rhs = cmp (key_list (entry_key lhs)) (key_list (entry_key rhs))"

definition order_by_key :: Order where
  "order_by_key = \<lparr>order_cmp = order_cmp (order_by_function entry_key_ascending), order_display = ''KEY''\<rparr>"

definition entry_key_descending :: "Entry \<Rightarrow> Entry \<Rightarrow> Ordering" where
  "entry_key_descending lhs rhs = cmp (key_list (entry_key rhs)) (key_list (entry_key lhs))"

definition order_by_key_descending :: Order where
  "order_by_key_descending =
    \<lparr>order_cmp = order_cmp (order_by_function entry_key_descending), order_display = ''desc(KEY)''\<rparr>"

definition entry_value_ascending :: "Entry \<Rightarrow> Entry \<Rightarrow> Ordering" where
  "entry_value_ascending lhs rhs = cmp (entry_value lhs) (entry_value rhs)"

definition order_by_value :: Order where
  "order_by_value = \<lparr>order_cmp = order_cmp (order_by_function entry_value_ascending), order_display = ''VALUE''\<rparr>"

definition entry_value_descending :: "Entry \<Rightarrow> Entry \<Rightarrow> Ordering" where
  "entry_value_descending lhs rhs = cmp (entry_value rhs) (entry_value lhs)"

definition order_by_value_descending :: Order where
  "order_by_value_descending =
    \<lparr>order_cmp = order_cmp (order_by_function entry_value_descending), order_display = ''desc(VALUE)''\<rparr>"

record Query =
  query_prefix :: string
  filters :: "Filter list"
  orders :: "Order list"
  query_limit :: nat
  query_offset :: nat
  keys_only :: bool
  return_expirations :: bool
  return_sizes :: bool

text \<open>The loops that print a bracketed list: the first element, then each other one after a comma.\<close>

definition query_display :: "Query \<Rightarrow> string" where
  "query_display q =
    ''SELECT keys'' @
    (if keys_only q then [] else '',vals'') @
    (if return_expirations q then '',exps'' else []) @
    '' '' @
    (if query_prefix q = [] then [] else ''FROM '' @ query_prefix q @ '' '') @
    (case filters q of
       [] \<Rightarrow> []
     | f # fs \<Rightarrow> ''FILTER ['' @ filter_display f @ concat (map (\<lambda>f. '', '' @ filter_display f) fs) @ ''] '') @
    (case orders q of
       [] \<Rightarrow> []
     | f # fs \<Rightarrow> ''ORDER ['' @ order_display f @ concat (map (\<lambda>f. '', '' @ order_display f) fs) @ ''] '') @
    (if query_offset q > 0 then ''OFFSET '' @ show_nat (query_offset q) @ '' '' else []) @
    (if query_limit q > 0 then ''LIMIT '' @ show_nat (query_limit q) @ '' '' else [])"


subsection \<open>Properties\<close>

primrec cmp_accepts :: "FilterOp \<Rightarrow> Ordering \<Rightarrow> bool" where
  "cmp_accepts Equal ord \<longleftrightarrow> ord = EqualTo"
| "cmp_accepts NotEqual ord \<longleftrightarrow> ord \<noteq> EqualTo"
| "cmp_accepts GreaterThan ord \<longleftrightarrow> ord = Greater"
| "cmp_accepts GreaterThanEqual ord \<longleftrightarrow> ord \<noteq> Less"
| "cmp_accepts LessThan ord \<longleftrightarrow> ord = Less"
| "cmp_accepts LessThanEqual ord \<longleftrightarrow> ord \<noteq> Greater"

text \<open>
  The comparison filters are consistent with one another and with the orders, on values and on canonical
  keys: not-equal is the negation of equal, at-least and at-most are the negations of less-than and greater-than, and
  a filter accepts exactly if the ascending order relates the entry to one with the given key or value that way.
\<close>

lemma query_filters_consistent:
  assumes "key_ok (entry_key e)" "key_ok (entry_key x)"
    and "accepts = filter_fn (filter_key_compare (entry_key x) op) \<and> ord = order_cmp order_by_key e x \<or>
      accepts = filter_fn (filter_value_compare (entry_value x) op) \<and> ord = order_cmp order_by_value e x"
  shows "accepts e \<longleftrightarrow> cmp_accepts op ord"
proof -
  have eq: "entry_key e = entry_key x \<longleftrightarrow> key_list (entry_key e) = key_list (entry_key x)"
    using key_list_inj [OF assms(1,2)] by auto
  have "filter_fn (filter_key_compare (entry_key x) op) e \<longleftrightarrow> cmp_accepts op (order_cmp order_by_key e x)"
    unfolding filter_key_compare_def order_by_key_def order_by_function_def entry_key_ascending_def
    by (cases op) (simp_all add: eq cmp_def key_le_def key_less_def, auto)
  moreover have "filter_fn (filter_value_compare (entry_value x) op) e \<longleftrightarrow> cmp_accepts op (order_cmp order_by_value e x)"
    unfolding filter_value_compare_def order_by_value_def order_by_function_def entry_value_ascending_def
    by (cases op) (auto simp: filter_value_compare_fn_def cmp_def Let_def)
  ultimately show ?thesis using assms(3) by auto
qed

end
