(* ===== verification/Crypto.thy ===== *)
theory Crypto
  imports Message Address_Instance
begin

text \<open>
  Keys, signing, verification and verifiable random values (\<open>primitives/crypto/src/key.rs\<close>,
  \<open>signature.rs\<close>, \<open>vrf.rs\<close>), with the fixed-length Blake2b and SHA-256 wrappers of \<open>hashing/src/lib.rs\<close>
  they use.

  The elliptic-curve operations belong to the crates \<open>secp256k1\<close> and \<open>bls\<close>: they are the fields of
  the records \<open>secp_libs\<close> and \<open>bls_libs\<close>, over the crates' own types of keys, signatures, recovery identifiers, messages
  and hashes. The locale \<open>signature_schemes\<close> states what the crates document: parsing inverts serialising, serialised
  keys and signatures have their fixed lengths, a signature made with a secret key is accepted for its
  public key, and the public key is recovered from it. An error of a crate is its printed form.
\<close>

record ('sk, 'pk, 'sg, 'ri, 'm) secp_libs =
  secp_secret_parse :: "bytes \<Rightarrow> ('sk, string) result"
  secp_secret_serialize :: "'sk \<Rightarrow> bytes"
  secp_public :: "'sk \<Rightarrow> 'pk"
  secp_public_parse :: "bytes \<Rightarrow> ('pk, string) result"
  secp_public_serialize :: "'pk \<Rightarrow> bytes"
  secp_message_parse :: "bytes \<Rightarrow> 'm"
  secp_signature_parse :: "bytes \<Rightarrow> 'sg"
  secp_signature_parse_slice :: "bytes \<Rightarrow> ('sg, string) result"
  secp_signature_serialize :: "'sg \<Rightarrow> bytes"
  secp_recovery_parse :: "u8 \<Rightarrow> ('ri, string) result"
  secp_recovery_serialize :: "'ri \<Rightarrow> u8"
  secp_sign :: "'m \<Rightarrow> 'sk \<Rightarrow> 'sg \<times> 'ri"
  secp_recover :: "'m \<Rightarrow> 'sg \<Rightarrow> 'ri \<Rightarrow> ('pk, string) result"
  secp_verify :: "'m \<Rightarrow> 'sg \<Rightarrow> 'pk \<Rightarrow> bool"

record ('sk, 'pk, 'sg, 'h) bls_libs =
  bls_private_from_bytes :: "bytes \<Rightarrow> ('sk, string) result"
  bls_private_as_bytes :: "'sk \<Rightarrow> bytes"
  bls_public_key :: "'sk \<Rightarrow> 'pk"
  bls_public_from_bytes :: "bytes \<Rightarrow> ('pk, string) result"
  bls_public_as_bytes :: "'pk \<Rightarrow> bytes"
  bls_signature_from_bytes :: "bytes \<Rightarrow> ('sg, string) result"
  bls_signature_as_bytes :: "'sg \<Rightarrow> bytes"
  bls_sign :: "'sk \<Rightarrow> bytes \<Rightarrow> 'sg"
  bls_hash :: "bytes \<Rightarrow> 'h"
  bls_verify :: "'sg \<Rightarrow> 'h list \<Rightarrow> 'pk list \<Rightarrow> bool"

subsection \<open>Hashes of fixed length\<close>

text \<open>\<open>copy_from_slice\<close> panics if the digest has another length than the array.\<close>

definition blake2b_256 :: "addr_libs \<Rightarrow> bytes \<Rightarrow> (bytes, 'e) result" where
  "blake2b_256 al data =
    (let hash = blake2b_hash al 32 data in and_then (assertion (length hash = 32)) (\<lambda>_. Ok hash))"

definition sha256 :: "(bytes \<Rightarrow> bytes) \<Rightarrow> bytes \<Rightarrow> (bytes, 'e) result" where
  "sha256 digest data =
    (let hash = digest data in and_then (assertion (length hash = 32)) (\<lambda>_. Ok hash))"

subsection \<open>Keys\<close>

datatype ('spk, 'bpk) PublicKey = PublicSecp256k1 'spk | PublicBls 'bpk

datatype ('ssk, 'bsk) PrivateKey = PrivateSecp256k1 'ssk | PrivateBls 'bsk

definition public_new_secp256k1 ::
  "('ssk, 'spk, 'ssg, 'ri, 'm) secp_libs \<Rightarrow> bytes \<Rightarrow> (('spk, 'bpk) PublicKey, CryptoError) result" where
  "public_new_secp256k1 sl pubkey = map_ok PublicSecp256k1 (map_err CryptoSecp256k1 (secp_public_parse sl pubkey))"

definition public_new_bls ::
  "('bsk, 'bpk, 'bsg, 'h) bls_libs \<Rightarrow> bytes \<Rightarrow> (('spk, 'bpk) PublicKey, CryptoError) result" where
  "public_new_bls bl pubkey = map_ok PublicBls (map_err CryptoBls (bls_public_from_bytes bl pubkey))"

primrec from_privkey ::
  "('ssk, 'spk, 'ssg, 'ri, 'm) secp_libs \<Rightarrow> ('bsk, 'bpk, 'bsg, 'h) bls_libs \<Rightarrow>
   ('ssk, 'bsk) PrivateKey \<Rightarrow> ('spk, 'bpk) PublicKey" where
  "from_privkey sl bl (PrivateSecp256k1 privkey) = PublicSecp256k1 (secp_public sl privkey)"
| "from_privkey sl bl (PrivateBls privkey) = PublicBls (bls_public_key bl privkey)"

primrec public_into_vec ::
  "('ssk, 'spk, 'ssg, 'ri, 'm) secp_libs \<Rightarrow> ('bsk, 'bpk, 'bsg, 'h) bls_libs \<Rightarrow> ('spk, 'bpk) PublicKey \<Rightarrow> bytes" where
  "public_into_vec sl bl (PublicSecp256k1 pubkey) = secp_public_serialize sl pubkey"
| "public_into_vec sl bl (PublicBls pubkey) = bls_public_as_bytes bl pubkey"

definition private_new_secp256k1 ::
  "('ssk, 'spk, 'ssg, 'ri, 'm) secp_libs \<Rightarrow> bytes \<Rightarrow> (('ssk, 'bsk) PrivateKey, CryptoError) result" where
  "private_new_secp256k1 sl privkey = map_ok PrivateSecp256k1 (map_err CryptoSecp256k1 (secp_secret_parse sl privkey))"

definition private_new_bls ::
  "('bsk, 'bpk, 'bsg, 'h) bls_libs \<Rightarrow> bytes \<Rightarrow> (('ssk, 'bsk) PrivateKey, CryptoError) result" where
  "private_new_bls bl privkey = map_ok PrivateBls (map_err CryptoBls (bls_private_from_bytes bl privkey))"

primrec private_into_vec ::
  "('ssk, 'spk, 'ssg, 'ri, 'm) secp_libs \<Rightarrow> ('bsk, 'bpk, 'bsg, 'h) bls_libs \<Rightarrow> ('ssk, 'bsk) PrivateKey \<Rightarrow> bytes" where
  "private_into_vec sl bl (PrivateSecp256k1 privkey) = secp_secret_serialize sl privkey"
| "private_into_vec sl bl (PrivateBls privkey) = bls_private_as_bytes bl privkey"

subsection \<open>Signing and verifying\<close>

definition SIGNATURE_SIZE :: nat where "SIGNATURE_SIZE = 64"

definition sign_secp256k1 ::
  "addr_libs \<Rightarrow> ('ssk, 'spk, 'ssg, 'ri, 'm) secp_libs \<Rightarrow> bytes \<Rightarrow> bytes \<Rightarrow> (Signature, CryptoError) result" where
  "sign_secp256k1 al sl privkey msg =
    and_then (map_err CryptoSecp256k1 (secp_secret_parse sl privkey)) (\<lambda>seckey.
    and_then (blake2b_256 al msg) (\<lambda>hashed_msg.
      let message = secp_message_parse sl hashed_msg;
          (signature, recovery_id) = secp_sign sl message seckey in
      Ok \<lparr>sig_type = SigSecp256k1,
          sig_data = secp_signature_serialize sl signature @ [secp_recovery_serialize sl recovery_id]\<rparr>))"

definition sign_bls ::
  "('bsk, 'bpk, 'bsg, 'h) bls_libs \<Rightarrow> bytes \<Rightarrow> bytes \<Rightarrow> (Signature, CryptoError) result" where
  "sign_bls bl privkey msg =
    and_then (map_err CryptoBls (bls_private_from_bytes bl privkey)) (\<lambda>privkey.
      Ok \<lparr>sig_type = SigBls, sig_data = bls_signature_as_bytes bl (bls_sign bl privkey msg)\<rparr>)"

primrec sign ::
  "addr_libs \<Rightarrow> ('ssk, 'spk, 'ssg, 'ri, 'm) secp_libs \<Rightarrow> ('bsk, 'bpk, 'bsg, 'h) bls_libs \<Rightarrow>
   SignatureType \<Rightarrow> bytes \<Rightarrow> bytes \<Rightarrow> (Signature, CryptoError) result" where
  "sign al sl bl SigSecp256k1 privkey msg = sign_secp256k1 al sl privkey msg"
| "sign al sl bl SigBls privkey msg = sign_bls bl privkey msg"

definition verify_bls ::
  "('bsk, 'bpk, 'bsg, 'h) bls_libs \<Rightarrow> Signature \<Rightarrow> bytes \<Rightarrow> bytes \<Rightarrow> (bool, CryptoError) result" where
  "verify_bls bl s pubkey msg =
    and_then (map_err CryptoBls (bls_public_from_bytes bl pubkey)) (\<lambda>pubkey.
      let hashed_msg = bls_hash bl msg in
    and_then (map_err CryptoBls (bls_signature_from_bytes bl (sig_data s))) (\<lambda>signature.
      Ok (bls_verify bl signature [hashed_msg] [pubkey])))"

text \<open>The lengths of secp256k1 signatures are checked by an assertion, so other lengths panic.\<close>

definition verify_secp256k1 ::
  "addr_libs \<Rightarrow> ('ssk, 'spk, 'ssg, 'ri, 'm) secp_libs \<Rightarrow> Signature \<Rightarrow> bytes \<Rightarrow> bytes \<Rightarrow>
   (bool, CryptoError) result" where
  "verify_secp256k1 al sl s pubkey msg =
    and_then (blake2b_256 al msg) (\<lambda>hashed_msg.
      let message = secp_message_parse sl hashed_msg in
    and_then (assertion (length (sig_data s) = SIGNATURE_SIZE + 1)) (\<lambda>_.
    and_then (map_err CryptoSecp256k1 (secp_signature_parse_slice sl (take SIGNATURE_SIZE (sig_data s)))) (\<lambda>signature.
    and_then (map_err CryptoSecp256k1 (secp_public_parse sl pubkey)) (\<lambda>pubkey.
      Ok (secp_verify sl message signature pubkey)))))"

primrec expect :: "('a, 'e) result \<Rightarrow> ('a, 'f) result" where
  "expect (Ok x) = Ok x"
| "expect (Err e) = Panic"
| "expect Panic = Panic"

definition verify ::
  "addr_libs \<Rightarrow> ('ssk, 'spk, 'ssg, 'ri, 'm) secp_libs \<Rightarrow> ('bsk, 'bpk, 'bsg, 'h) bls_libs \<Rightarrow>
   Signature \<Rightarrow> Address \<Rightarrow> bytes \<Rightarrow> (bool, CryptoError) result" where
  "verify al sl bl s addr msg =
    (case (sig_type s, protocol addr) of
       (SigSecp256k1, Secp256k1) \<Rightarrow>
         and_then (blake2b_256 al msg) (\<lambda>hashed_msg.
           let message = secp_message_parse sl hashed_msg in
         and_then (assertion (length (sig_data s) = SIGNATURE_SIZE + 1)) (\<lambda>_.
           let signature = secp_signature_parse sl (take SIGNATURE_SIZE (sig_data s)) in
         and_then (index_at (sig_data s) SIGNATURE_SIZE) (\<lambda>recovery_id.
         and_then (map_err CryptoSecp256k1 (secp_recovery_parse sl recovery_id)) (\<lambda>recovery_id.
         and_then (map_err CryptoSecp256k1 (secp_recover sl message signature recovery_id)) (\<lambda>pubkey.
         and_then (expect (new_secp256k1_addr al (secp_public_serialize sl pubkey))) (\<lambda>recovery_addr.
           Ok (recovery_addr = addr)))))))
     | (SigBls, Bls) \<Rightarrow> verify_bls bl s (payload addr) msg
     | _ \<Rightarrow> Err (NotSameType (sig_type s) (protocol addr)))"

definition verify_raw ::
  "addr_libs \<Rightarrow> ('ssk, 'spk, 'ssg, 'ri, 'm) secp_libs \<Rightarrow> ('bsk, 'bpk, 'bsg, 'h) bls_libs \<Rightarrow>
   Signature \<Rightarrow> bytes \<Rightarrow> bytes \<Rightarrow> (bool, CryptoError) result" where
  "verify_raw al sl bl s pubkey msg =
    (case sig_type s of
       SigSecp256k1 \<Rightarrow> verify_secp256k1 al sl s pubkey msg
     | SigBls \<Rightarrow> verify_bls bl s pubkey msg)"

subsection \<open>Verifiable random values\<close>

definition to_le_bytes :: "u64 \<Rightarrow> bytes" where
  "to_le_bytes w = map (\<lambda>i. ucast (drop_bit (8 * i) w)) [0..<8]"

definition hash_vrf_base :: "(bytes \<Rightarrow> bytes) \<Rightarrow> u64 \<Rightarrow> bytes \<Rightarrow> Address \<Rightarrow> (bytes, 'e) result" where
  "hash_vrf_base digest personalization msg miner =
    and_then (assertion (protocol miner = Id)) (\<lambda>_.
      sha256 digest (to_le_bytes personalization @ [0] @ msg @ [0] @ as_bytes miner))"

definition compute_vrf ::
  "(bytes \<Rightarrow> bytes) \<Rightarrow> ('bsk, 'bpk, 'bsg, 'h) bls_libs \<Rightarrow> 'bsk \<Rightarrow> u64 \<Rightarrow> bytes \<Rightarrow> Address \<Rightarrow> ('bsg, 'e) result" where
  "compute_vrf digest bl worker_priv_key personalization msg owner =
    and_then (hash_vrf_base digest personalization msg owner) (\<lambda>msg. Ok (bls_sign bl worker_priv_key msg))"

definition verify_vrf ::
  "(bytes \<Rightarrow> bytes) \<Rightarrow> ('bsk, 'bpk, 'bsg, 'h) bls_libs \<Rightarrow> 'bpk \<Rightarrow> u64 \<Rightarrow> bytes \<Rightarrow> Address \<Rightarrow> 'bsg \<Rightarrow> (bool, 'e) result" where
  "verify_vrf digest bl pubkey personalization msg miner prf =
    and_then (hash_vrf_base digest personalization msg miner) (\<lambda>msg.
      Ok (bls_verify bl prf [bls_hash bl msg] [pubkey]))"

subsection \<open>Randomness of the chain\<close>

datatype DomainSeparationTag =
  TicketProduction | ElectionProofProduction | WinningPoStChallengeSeed | WindowedPoStChallengeSeed
| SealRandomness | InteractiveSealChallengeSeed | WindowedPoStDeadlineAssignment

primrec tag_i64 :: "DomainSeparationTag \<Rightarrow> u64" where
  "tag_i64 TicketProduction = 1"
| "tag_i64 ElectionProofProduction = 2"
| "tag_i64 WinningPoStChallengeSeed = 3"
| "tag_i64 WindowedPoStChallengeSeed = 4"
| "tag_i64 SealRandomness = 5"
| "tag_i64 InteractiveSealChallengeSeed = 6"
| "tag_i64 WindowedPoStDeadlineAssignment = 7"

definition to_be_bytes :: "u64 \<Rightarrow> bytes" where
  "to_be_bytes w = rev (to_le_bytes w)"

text \<open>The bytes that are hashed, and the hash; writing into a vector does not fail. The round is the bits of an \<open>i64\<close>.\<close>

definition randomness_data :: "DomainSeparationTag \<Rightarrow> bytes \<Rightarrow> u64 \<Rightarrow> bytes \<Rightarrow> bytes" where
  "randomness_data pers vrf_digest round entropy =
    to_be_bytes (tag_i64 pers) @ vrf_digest @ to_be_bytes round @ entropy"

definition draw_randomness ::
  "addr_libs \<Rightarrow> bytes \<Rightarrow> DomainSeparationTag \<Rightarrow> u64 \<Rightarrow> bytes \<Rightarrow> (bytes, 'e) result" where
  "draw_randomness al rbase pers round entropy =
    and_then (blake2b_256 al rbase) (\<lambda>vrf_digest. blake2b_256 al (randomness_data pers vrf_digest round entropy))"

lemma to_le_bytes_inject: "to_le_bytes v = to_le_bytes w \<longleftrightarrow> v = w"
proof
  assume eq: "to_le_bytes v = to_le_bytes w"
  show "v = w"
  proof (rule bit_word_eqI)
    fix n
    assume "n < LENGTH(64)"
    then have "n div 8 < 8" "8 * (n div 8) + n mod 8 = n" by simp_all
    moreover have "(ucast (drop_bit (8 * (n div 8)) v) :: u8) = ucast (drop_bit (8 * (n div 8)) w)"
      using eq \<open>n div 8 < 8\<close> by (auto simp: to_le_bytes_def)
    then have "bit (ucast (drop_bit (8 * (n div 8)) v) :: u8) (n mod 8) = bit (ucast (drop_bit (8 * (n div 8)) w) :: u8) (n mod 8)"
      by simp
    ultimately show "bit v n = bit w n" by (simp add: bit_ucast_iff bit_drop_bit_eq)
  qed
qed simp

lemma length_to_be_bytes [simp]: "length (to_be_bytes w) = 8"
  by (simp add: to_be_bytes_def to_le_bytes_def)

lemma tag_i64_inject: "tag_i64 p = tag_i64 q \<longleftrightarrow> p = q"
  by (cases p; cases q) simp_all

text \<open>The hashed bytes determine the domain, the digest, the round and the entropy.\<close>

lemma randomness_data_inject:
  "length d = length d' \<Longrightarrow> randomness_data p d r e = randomness_data p' d' r' e' \<longleftrightarrow> p = p' \<and> d = d' \<and> r = r' \<and> e = e'"
  by (auto simp: randomness_data_def to_be_bytes_def to_le_bytes_inject tag_i64_inject to_le_bytes_def [THEN arg_cong, of length])

subsection \<open>What the crates document\<close>

locale signature_schemes =
  fixes al :: addr_libs
    and sl :: "('ssk, 'spk, 'ssg, 'ri, 'm) secp_libs"
    and bl :: "('bsk, 'bpk, 'bsg, 'h) bls_libs"
  assumes address_functions: "addr_laws al"
    and secp_secret: "secp_secret_parse sl (secp_secret_serialize sl sk) = Ok sk"
    and secp_public_parse: "secp_public_parse sl (secp_public_serialize sl pk) = Ok pk"
    and secp_public_length: "length (secp_public_serialize sl pk) = 65"
    and secp_signature: "secp_signature_parse sl (secp_signature_serialize sl sg) = sg"
    and secp_signature_slice: "secp_signature_parse_slice sl (secp_signature_serialize sl sg) = Ok sg"
    and secp_signature_length: "length (secp_signature_serialize sl sg) = 64"
    and secp_recovery: "secp_recovery_parse sl (secp_recovery_serialize sl ri) = Ok ri"
    and secp_sign_recover: "secp_sign sl m sk = (sg, ri) \<Longrightarrow> secp_recover sl m sg ri = Ok (secp_public sl sk)"
    and secp_sign_verify: "secp_sign sl m sk = (sg, ri) \<Longrightarrow> secp_verify sl m sg (secp_public sl sk)"
    and bls_private: "bls_private_from_bytes bl (bls_private_as_bytes bl bsk) = Ok bsk"
    and bls_public: "bls_public_from_bytes bl (bls_public_as_bytes bl bpk) = Ok bpk"
    and bls_public_length: "length (bls_public_as_bytes bl bpk) = 48"
    and bls_signature: "bls_signature_from_bytes bl (bls_signature_as_bytes bl bsg) = Ok bsg"
    and bls_sign_verify: "bls_verify bl (bls_sign bl bsk d) [bls_hash bl d] [bls_public_key bl bsk]"
begin

lemma blake2b_256_Ok: "blake2b_256 al d = Ok (blake2b_hash al 32 d)"
  using address_functions by (simp add: blake2b_256_def addr_laws_def Let_def)

lemma secp_address:
  "new_secp256k1_addr al (secp_public_serialize sl pk) =
    Ok \<lparr>protocol = Secp256k1, payload = blake2b_hash al PAYLOAD_HASH_LEN (secp_public_serialize sl pk)\<rparr>"
proof -
  have "length (blake2b_hash al PAYLOAD_HASH_LEN d) = PAYLOAD_HASH_LEN" for d
    using address_functions by (simp add: addr_laws_def PAYLOAD_HASH_LEN_def)
  then show ?thesis
    using blake2b_variable_Ok [where 'a = AddressError, OF address_functions, of PAYLOAD_HASH_LEN]
    by (simp add: new_secp256k1_addr_def secp_public_length address_constants address_hash_def address_new_def)
qed

lemma bls_address:
  "new_bls_addr (bls_public_as_bytes bl pk) = Ok \<lparr>protocol = Bls, payload = bls_public_as_bytes bl pk\<rparr>"
  by (simp add: new_bls_addr_def address_new_def bls_public_length address_constants)

lemma sign_secp256k1_verifies:
  assumes "secp_secret_parse sl privkey = Ok sk" "new_secp256k1_addr al (secp_public_serialize sl (secp_public sl sk)) = Ok addr"
  shows "\<exists>s. sign_secp256k1 al sl privkey msg = Ok s \<and> verify al sl bl s addr msg = Ok True \<and>
    verify_raw al sl bl s (secp_public_serialize sl (secp_public sl sk)) msg = Ok True"
proof -
  obtain sg ri where sg: "secp_sign sl (secp_message_parse sl (blake2b_hash al 32 msg)) sk = (sg, ri)" by fastforce
  have "protocol addr = Secp256k1" using assms(2) by (auto simp: secp_address)
  then show ?thesis
    using assms sg
    by (simp add: sign_secp256k1_def verify_def verify_raw_def verify_secp256k1_def blake2b_256_Ok SIGNATURE_SIZE_def
        secp_signature_length secp_signature secp_signature_slice secp_recovery secp_public_parse
        secp_sign_recover [OF sg] secp_sign_verify [OF sg] index_at_def nth_append)
qed

lemma sign_bls_verifies:
  assumes "bls_private_from_bytes bl privkey = Ok sk" "new_bls_addr (bls_public_as_bytes bl (bls_public_key bl sk)) = Ok addr"
  shows "\<exists>s. sign_bls bl privkey msg = Ok s \<and> verify al sl bl s addr msg = Ok True \<and>
    verify_raw al sl bl s (bls_public_as_bytes bl (bls_public_key bl sk)) msg = Ok True"
  using assms
  by (auto simp: bls_address sign_bls_def verify_def verify_raw_def verify_bls_def bls_public bls_signature bls_sign_verify)

end

text \<open>
  A concrete instance of the laws: secret keys are bytes, the public key and the signature repeat the secret
  key. It shows that the laws can hold; it is not a secure scheme.
\<close>

definition padded_byte :: "nat \<Rightarrow> u8 \<Rightarrow> bytes" where
  "padded_byte n b = replicate (n - 1) 0 @ [b]"

definition parse_padded :: "nat \<Rightarrow> bytes \<Rightarrow> (u8, string) result" where
  "parse_padded n b = (if length b = n \<and> n \<noteq> 0 then Ok (last b) else Err ''length'')"

definition plain_secp :: "(u8, u8, u8, u8, bytes) secp_libs" where
  "plain_secp =
    \<lparr>secp_secret_parse = parse_padded 32, secp_secret_serialize = padded_byte 32, secp_public = (\<lambda>sk. sk),
     secp_public_parse = parse_padded 65, secp_public_serialize = padded_byte 65,
     secp_message_parse = (\<lambda>b. b), secp_signature_parse = last,
     secp_signature_parse_slice = parse_padded 64, secp_signature_serialize = padded_byte 64,
     secp_recovery_parse = Ok, secp_recovery_serialize = (\<lambda>r. r),
     secp_sign = (\<lambda>m sk. (sk, 0)), secp_recover = (\<lambda>m sg ri. Ok sg), secp_verify = (\<lambda>m sg pk. sg = pk)\<rparr>"

definition plain_bls :: "(u8, u8, u8 \<times> bytes, bytes) bls_libs" where
  "plain_bls =
    \<lparr>bls_private_from_bytes = parse_padded 32, bls_private_as_bytes = padded_byte 32, bls_public_key = (\<lambda>sk. sk),
     bls_public_from_bytes = parse_padded 48, bls_public_as_bytes = padded_byte 48,
     bls_signature_from_bytes = (\<lambda>b. if b = [] then Err ''length'' else Ok (hd b, List.tl b)),
     bls_signature_as_bytes = (\<lambda>(k, d). k # d), bls_sign = (\<lambda>sk d. (sk, d)), bls_hash = (\<lambda>d. d),
     bls_verify = (\<lambda>(k, d) hs pks. hs = [d] \<and> pks = [k])\<rparr>"

lemma parse_padded_byte [simp]: "n \<noteq> 0 \<Longrightarrow> parse_padded n (padded_byte n b) = Ok b"
  by (simp add: parse_padded_def padded_byte_def)

lemma length_padded_byte [simp]: "n \<noteq> 0 \<Longrightarrow> length (padded_byte n b) = n"
  by (simp add: padded_byte_def)

lemma last_padded_byte [simp]: "last (padded_byte n b) = b"
  by (simp add: padded_byte_def)

interpretation plain: signature_schemes address_rfc plain_secp plain_bls
  by unfold_locales (auto simp: plain_secp_def plain_bls_def address_rfc_laws)

subsection \<open>Properties\<close>

text \<open>
  Verifiable random values: the value computed for a miner with an identifier address is accepted for
  the public key of its worker and the same inputs; for any other kind of address computing and verifying panic.
\<close>

lemma vrf_verifies:
  assumes "signature_schemes al sl bl" "\<forall>d. length (digest d) = 32"
  shows "and_then (compute_vrf digest bl sk personalization msg miner)
      (verify_vrf digest bl (bls_public_key bl sk) personalization msg miner) =
    (if protocol miner = Id then Ok True else (Panic :: (bool, 'e) result))"
  using assms signature_schemes.bls_sign_verify [OF assms(1)]
  by (simp add: compute_vrf_def verify_vrf_def hash_vrf_base_def sha256_def)

text \<open>
  Verifying a secp256k1 signature whose data is not 65 bytes long panics instead of returning an error, for every
  address of that kind and every message; decoding accepts data of any length, so such a signature can
  arrive in a message.
\<close>

lemma signature_length_panics:
  assumes "addr_laws al" "length d \<noteq> 65" "protocol addr = Secp256k1" "codec_libs lib"
  shows "decode_signature lib (encode_signature lib \<lparr>sig_type = SigSecp256k1, sig_data = d\<rparr> @ r) =
      Ok (\<lparr>sig_type = SigSecp256k1, sig_data = d\<rparr>, r) \<and>
    verify al sl bl \<lparr>sig_type = SigSecp256k1, sig_data = d\<rparr> addr msg = Panic \<and>
    verify_raw al sl bl \<lparr>sig_type = SigSecp256k1, sig_data = d\<rparr> pubkey msg = Panic"
  using assms codec_libs.signature_rt [OF assms(4)]
  by (simp add: verify_def verify_raw_def verify_secp256k1_def blake2b_256_def SIGNATURE_SIZE_def addr_laws_def Let_def)

end
