(* ===== verification/Wallet.thy ===== *)
theory Wallet
  imports Crypto "HOL-Library.Char_ord" "HOL-Library.List_Lexorder" "HOL-Library.Sublist"
begin

text \<open>
  The wallet (\<open>src/wallet/src\<close>): key types and key information, the \<open>KeyStore\<close> interface with its
  in-memory implementation, keys with their addresses, and the wallet that keeps keys in memory and in a store.

  The interface is a record of methods over the state of a store, and the locale \<open>key_store\<close> its contract. A
  method that changes the wallet returns it updated, whatever its result, so that the state after an error
  or a panic is modelled. The lock around the wallet makes every public call one step of \<open>wallet_step\<close>. Random keys
  are arguments; the network of printed addresses is the global of \<open>Address\<close>, an argument \<open>net\<close>.
\<close>

datatype KeyType = KeySecp256k1 | KeyBls | Libp2pHost | JwtHmacSecret | Other string

primrec key_type_display :: "KeyType \<Rightarrow> string" where
  "key_type_display KeySecp256k1 = ''secp256k1''"
| "key_type_display KeyBls = ''bls''"
| "key_type_display Libp2pHost = ''libp2p-host''"
| "key_type_display JwtHmacSecret = ''jwt-hmac-secret''"
| "key_type_display (Other s) = s"

definition key_type_deserialize :: "string \<Rightarrow> KeyType" where
  "key_type_deserialize s =
    (if s = ''secp256k1'' then KeySecp256k1
     else if s = ''bls'' then KeyBls
     else if s = ''libp2p-host'' then Libp2pHost
     else if s = ''jwt-hmac-secret'' then JwtHmacSecret
     else Other s)"

record KeyInfo =
  ki_type :: KeyType
  ki_private_key :: bytes

datatype WalletError =
  WalletIo string | WalletJson string | WalletAddress AddressError | WalletCrypto CryptoError
| UnknownKeyType | WalletKeyStore string

subsection \<open>Key stores\<close>

record 's keystore =
  ks_list :: "'s \<Rightarrow> (string list, string) result"
  ks_get :: "'s \<Rightarrow> string \<Rightarrow> (KeyInfo option, string) result"
  ks_put :: "'s \<Rightarrow> string \<Rightarrow> KeyInfo \<Rightarrow> 's \<times> (unit, string) result"
  ks_delete :: "'s \<Rightarrow> string \<Rightarrow> 's \<times> (unit, string) result"

text \<open>
  The hash map of the memory store is the list of its entries; the order in which the keys are
  listed is unspecified and given by the function \<open>enum\<close>.
\<close>

type_synonym MemKeyStore = "(string \<times> KeyInfo) list"

definition mem_new :: MemKeyStore where
  "mem_new = []"

definition mem_keystore :: "(string list \<Rightarrow> string list) \<Rightarrow> MemKeyStore keystore" where
  "mem_keystore enum =
    \<lparr>ks_list = (\<lambda>m. Ok (enum (remdups (map fst m)))),
     ks_get = (\<lambda>m key. Ok (map_of m key)),
     ks_put = (\<lambda>m key info. ((key, info) # m, Ok ())),
     ks_delete = (\<lambda>m key. (filter (\<lambda>e. fst e \<noteq> key) m, Ok ()))\<rparr>"

subsection \<open>Keys\<close>

record WalletKey =
  wk_info :: KeyInfo
  wk_pubkey :: bytes
  wk_address :: Address

definition wallet_key_secp256k1 ::
  "addr_libs \<Rightarrow> ('ssk, 'spk, 'ssg, 'ri, 'm) secp_libs \<Rightarrow> bytes \<Rightarrow> (WalletKey, WalletError) result" where
  "wallet_key_secp256k1 al sl privkey =
    and_then (map_err (WalletCrypto \<circ> CryptoSecp256k1) (secp_secret_parse sl privkey)) (\<lambda>seckey.
      let pubkey = secp_public_serialize sl (secp_public sl seckey) in
    and_then (map_err WalletAddress (new_secp256k1_addr al pubkey)) (\<lambda>address.
      Ok \<lparr>wk_info = \<lparr>ki_type = KeySecp256k1, ki_private_key = secp_secret_serialize sl seckey\<rparr>,
          wk_pubkey = pubkey, wk_address = address\<rparr>))"

definition wallet_key_bls :: "('bsk, 'bpk, 'bsg, 'h) bls_libs \<Rightarrow> bytes \<Rightarrow> (WalletKey, WalletError) result" where
  "wallet_key_bls bl privkey =
    and_then (map_err (WalletCrypto \<circ> CryptoBls) (bls_private_from_bytes bl privkey)) (\<lambda>seckey.
      let pubkey = bls_public_as_bytes bl (bls_public_key bl seckey) in
    and_then (map_err WalletAddress (new_bls_addr pubkey)) (\<lambda>address.
      Ok \<lparr>wk_info = \<lparr>ki_type = KeyBls, ki_private_key = bls_private_as_bytes bl seckey\<rparr>,
          wk_pubkey = pubkey, wk_address = address\<rparr>))"

definition wallet_key_new ::
  "addr_libs \<Rightarrow> ('ssk, 'spk, 'ssg, 'ri, 'm) secp_libs \<Rightarrow> ('bsk, 'bpk, 'bsg, 'h) bls_libs \<Rightarrow> KeyInfo \<Rightarrow>
   (WalletKey, WalletError) result" where
  "wallet_key_new al sl bl info =
    (case ki_type info of
       KeySecp256k1 \<Rightarrow> wallet_key_secp256k1 al sl (ki_private_key info)
     | KeyBls \<Rightarrow> wallet_key_bls bl (ki_private_key info)
     | _ \<Rightarrow> Err UnknownKeyType)"

text \<open>The free function \<open>generate_key\<close>, with the secret keys drawn from the generator as arguments.\<close>

definition generate_random_key ::
  "addr_libs \<Rightarrow> ('ssk, 'spk, 'ssg, 'ri, 'm) secp_libs \<Rightarrow> ('bsk, 'bpk, 'bsg, 'h) bls_libs \<Rightarrow>
   KeyType \<Rightarrow> 'ssk \<Rightarrow> 'bsk \<Rightarrow> (WalletKey, WalletError) result" where
  "generate_random_key al sl bl key_type ssk bsk =
    (case key_type of
       KeySecp256k1 \<Rightarrow> wallet_key_secp256k1 al sl (secp_secret_serialize sl ssk)
     | KeyBls \<Rightarrow> wallet_key_bls bl (bls_private_as_bytes bl bsk)
     | _ \<Rightarrow> Err UnknownKeyType)"

subsection \<open>The wallet\<close>

definition WALLET_NAME_PREFIX :: string where "WALLET_NAME_PREFIX = ''wallet-''"
definition DEFAULT_KEY_NAME :: string where "DEFAULT_KEY_NAME = ''default''"

record 's WalletImpl =
  w_keys :: "Address \<rightharpoonup> WalletKey"
  w_keystore :: 's

definition wallet_new :: "'s \<Rightarrow> 's WalletImpl" where
  "wallet_new s = \<lparr>w_keys = Map.empty, w_keystore = s\<rparr>"

definition new_with_keys :: "WalletKey list \<Rightarrow> 's \<Rightarrow> 's WalletImpl" where
  "new_with_keys keys s = \<lparr>w_keys = foldl (\<lambda>m key. m(wk_address key \<mapsto> key)) Map.empty keys, w_keystore = s\<rparr>"

definition find_key :: "'s WalletImpl \<Rightarrow> Address \<Rightarrow> WalletKey option" where
  "find_key w addr = w_keys w addr"

definition wallet_name :: "addr_libs \<Rightarrow> Network \<Rightarrow> Address \<Rightarrow> (string, 'e) result" where
  "wallet_name al net addr = map_ok (\<lambda>s. WALLET_NAME_PREFIX @ s) (address_display al net addr)"

definition wallet_sign ::
  "addr_libs \<Rightarrow> ('ssk, 'spk, 'ssg, 'ri, 'm) secp_libs \<Rightarrow> ('bsk, 'bpk, 'bsg, 'h) bls_libs \<Rightarrow> Network \<Rightarrow>
   's WalletImpl \<Rightarrow> Address \<Rightarrow> bytes \<Rightarrow> (Signature, WalletError) result" where
  "wallet_sign al sl bl net w addr msg =
    (case find_key w addr of
       Some key \<Rightarrow>
         (case ki_type (wk_info key) of
            KeySecp256k1 \<Rightarrow> map_err WalletCrypto (sign_secp256k1 al sl (ki_private_key (wk_info key)) msg)
          | KeyBls \<Rightarrow> map_err WalletCrypto (sign_bls bl (ki_private_key (wk_info key)) msg)
          | _ \<Rightarrow> Err UnknownKeyType)
     | None \<Rightarrow>
         and_then (wallet_name al net addr) (\<lambda>name. Err (WalletKeyStore (''key `'' @ name @ ''` not found''))))"

definition wallet_export :: "'s WalletImpl \<Rightarrow> Address \<Rightarrow> KeyInfo option" where
  "wallet_export w addr = (case find_key w addr of Some key \<Rightarrow> Some (wk_info key) | None \<Rightarrow> None)"

definition has_key :: "'s WalletImpl \<Rightarrow> Address \<Rightarrow> bool" where
  "has_key w addr \<longleftrightarrow> find_key w addr \<noteq> None"

text \<open>A call on the store, with its error turned into the wallet's.\<close>

definition store_put :: "'s keystore \<Rightarrow> 's WalletImpl \<Rightarrow> string \<Rightarrow> KeyInfo \<Rightarrow> 's WalletImpl \<times> (unit, WalletError) result" where
  "store_put ks w name info =
    (let (s, r) = ks_put ks (w_keystore w) name info in (w\<lparr>w_keystore := s\<rparr>, map_err WalletKeyStore r))"

definition store_delete :: "'s keystore \<Rightarrow> 's WalletImpl \<Rightarrow> string \<Rightarrow> 's WalletImpl \<times> (unit, WalletError) result" where
  "store_delete ks w name =
    (let (s, r) = ks_delete ks (w_keystore w) name in (w\<lparr>w_keystore := s\<rparr>, map_err WalletKeyStore r))"

text \<open>Sequencing of steps that change the wallet: an error or a panic ends the call with the state reached.\<close>

definition and_then_w :: "'w \<times> ('a, 'e) result \<Rightarrow> ('w \<Rightarrow> 'a \<Rightarrow> 'w \<times> ('b, 'e) result) \<Rightarrow> 'w \<times> ('b, 'e) result" where
  "and_then_w m f = (case m of (w, Ok x) \<Rightarrow> f w x | (w, Err e) \<Rightarrow> (w, Err e) | (w, Panic) \<Rightarrow> (w, Panic))"

definition wallet_import ::
  "addr_libs \<Rightarrow> ('ssk, 'spk, 'ssg, 'ri, 'm) secp_libs \<Rightarrow> ('bsk, 'bpk, 'bsg, 'h) bls_libs \<Rightarrow> Network \<Rightarrow>
   's keystore \<Rightarrow> 's WalletImpl \<Rightarrow> KeyInfo \<Rightarrow> 's WalletImpl \<times> (Address, WalletError) result" where
  "wallet_import al sl bl net ks w key_info =
    and_then_w (w, wallet_key_new al sl bl key_info) (\<lambda>w key.
    and_then_w (w, wallet_name al net (wk_address key)) (\<lambda>w name.
    and_then_w (store_put ks w name (wk_info key)) (\<lambda>w _.
      (w\<lparr>w_keys := (w_keys w)(wk_address key \<mapsto> key)\<rparr>, Ok (wk_address key)))))"

function trim_start_matches :: "string \<Rightarrow> string \<Rightarrow> string" where
  "trim_start_matches p s =
    (if p \<noteq> [] \<and> prefix p s then trim_start_matches p (drop (length p) s) else s)"
  by auto
termination by (relation "measure (length \<circ> snd)") (auto simp: prefix_def)

declare trim_start_matches.simps [simp del]

fun list_loop :: "addr_libs \<Rightarrow> Network \<Rightarrow> string list \<Rightarrow> Address list \<Rightarrow> (Address list, WalletError) result" where
  "list_loop al net [] res = Ok res"
| "list_loop al net (name # names) res =
    (if prefix WALLET_NAME_PREFIX name then
       and_then (map_err WalletAddress (address_from_str al net (trim_start_matches WALLET_NAME_PREFIX name))) (\<lambda>addr.
         list_loop al net names (res @ [addr]))
     else list_loop al net names res)"

definition list_addrs :: "addr_libs \<Rightarrow> Network \<Rightarrow> 's keystore \<Rightarrow> 's WalletImpl \<Rightarrow> (Address list, WalletError) result" where
  "list_addrs al net ks w =
    and_then (map_err WalletKeyStore (ks_list ks (w_keystore w))) (\<lambda>names. list_loop al net (sort names) [])"

definition get_default ::
  "addr_libs \<Rightarrow> ('ssk, 'spk, 'ssg, 'ri, 'm) secp_libs \<Rightarrow> ('bsk, 'bpk, 'bsg, 'h) bls_libs \<Rightarrow>
   's keystore \<Rightarrow> 's WalletImpl \<Rightarrow> (Address option, WalletError) result" where
  "get_default al sl bl ks w =
    and_then (map_err WalletKeyStore (ks_get ks (w_keystore w) DEFAULT_KEY_NAME)) (\<lambda>found.
      case found of
        Some key_info \<Rightarrow>
          (case ki_type key_info of
             KeySecp256k1 \<Rightarrow> map_ok (Some \<circ> wk_address) (wallet_key_secp256k1 al sl (ki_private_key key_info))
           | KeyBls \<Rightarrow> map_ok (Some \<circ> wk_address) (wallet_key_bls bl (ki_private_key key_info))
           | _ \<Rightarrow> Err UnknownKeyType)
      | None \<Rightarrow> Ok None)"

text \<open>The \<open>expect\<close> on the lookup makes an unknown address panic.\<close>

definition set_default :: "'s keystore \<Rightarrow> 's WalletImpl \<Rightarrow> Address \<Rightarrow> 's WalletImpl \<times> (unit, WalletError) result" where
  "set_default ks w addr =
    (case w_keys w addr of
       None \<Rightarrow> (w, Panic)
     | Some key \<Rightarrow>
         and_then_w (store_delete ks w DEFAULT_KEY_NAME) (\<lambda>w _.
           store_put ks w DEFAULT_KEY_NAME (wk_info key)))"

definition wallet_generate_key ::
  "addr_libs \<Rightarrow> ('ssk, 'spk, 'ssg, 'ri, 'm) secp_libs \<Rightarrow> ('bsk, 'bpk, 'bsg, 'h) bls_libs \<Rightarrow> Network \<Rightarrow>
   's keystore \<Rightarrow> 's WalletImpl \<Rightarrow> KeyType \<Rightarrow> 'ssk \<Rightarrow> 'bsk \<Rightarrow> 's WalletImpl \<times> (Address, WalletError) result" where
  "wallet_generate_key al sl bl net ks w key_type ssk bsk =
    and_then_w (w, generate_random_key al sl bl key_type ssk bsk) (\<lambda>w key.
    and_then_w (w, wallet_name al net (wk_address key)) (\<lambda>w name.
    and_then_w (store_put ks w name (wk_info key)) (\<lambda>w _.
      let old = w_keys w (wk_address key);
          w = w\<lparr>w_keys := (w_keys w)(wk_address key \<mapsto> key)\<rparr> in
    and_then_w (w, assertion (old = None)) (\<lambda>w _.
    and_then_w (w, map_err WalletKeyStore (ks_get ks (w_keystore w) DEFAULT_KEY_NAME)) (\<lambda>w found.
    and_then_w (if found = None then store_put ks w DEFAULT_KEY_NAME (wk_info key) else (w, Ok ())) (\<lambda>w _.
      (w, Ok (wk_address key))))))))"

text \<open>The public calls: each takes the lock, so it is one step on the shared wallet.\<close>

datatype ('ssk, 'bsk) wallet_call =
  CallSign Address bytes | CallExport Address | CallImport KeyInfo | CallListAddrs | CallGetDefault
| CallSetDefault Address | CallGenerateKey KeyType 'ssk 'bsk | CallHasKey Address

datatype wallet_reply =
  ReplySignature "(Signature, WalletError) result" | ReplyInfo "KeyInfo option" | ReplyAddress "(Address, WalletError) result"
| ReplyAddresses "(Address list, WalletError) result" | ReplyDefault "(Address option, WalletError) result"
| ReplyUnit "(unit, WalletError) result" | ReplyBool bool

primrec wallet_step ::
  "addr_libs \<Rightarrow> ('ssk, 'spk, 'ssg, 'ri, 'm) secp_libs \<Rightarrow> ('bsk, 'bpk, 'bsg, 'h) bls_libs \<Rightarrow> Network \<Rightarrow>
   's keystore \<Rightarrow> 's WalletImpl \<Rightarrow> ('ssk, 'bsk) wallet_call \<Rightarrow> 's WalletImpl \<times> wallet_reply" where
  "wallet_step al sl bl net ks w (CallSign addr msg) = (w, ReplySignature (wallet_sign al sl bl net w addr msg))"
| "wallet_step al sl bl net ks w (CallExport addr) = (w, ReplyInfo (wallet_export w addr))"
| "wallet_step al sl bl net ks w (CallImport info) = map_prod id ReplyAddress (wallet_import al sl bl net ks w info)"
| "wallet_step al sl bl net ks w CallListAddrs = (w, ReplyAddresses (list_addrs al net ks w))"
| "wallet_step al sl bl net ks w CallGetDefault = (w, ReplyDefault (get_default al sl bl ks w))"
| "wallet_step al sl bl net ks w (CallSetDefault addr) = map_prod id ReplyUnit (set_default ks w addr)"
| "wallet_step al sl bl net ks w (CallGenerateKey ty ssk bsk) =
    map_prod id ReplyAddress (wallet_generate_key al sl bl net ks w ty ssk bsk)"
| "wallet_step al sl bl net ks w (CallHasKey addr) = (w, ReplyBool (has_key w addr))"

definition wallet_run ::
  "addr_libs \<Rightarrow> ('ssk, 'spk, 'ssg, 'ri, 'm) secp_libs \<Rightarrow> ('bsk, 'bpk, 'bsg, 'h) bls_libs \<Rightarrow> Network \<Rightarrow>
   's keystore \<Rightarrow> 's WalletImpl \<Rightarrow> ('ssk, 'bsk) wallet_call list \<Rightarrow> 's WalletImpl" where
  "wallet_run al sl bl net ks w cs = foldl (\<lambda>w c. fst (wallet_step al sl bl net ks w c)) w cs"

subsection \<open>The contract of key stores\<close>

locale key_store =
  fixes ks :: "'s keystore"
    and \<alpha> :: "'s \<Rightarrow> (string \<rightharpoonup> KeyInfo)"
  assumes listed: "\<exists>ns. ks_list ks s = Ok ns \<and> distinct ns \<and> set ns = dom (\<alpha> s)"
    and found: "ks_get ks s n = Ok (\<alpha> s n)"
    and stored: "\<exists>s'. ks_put ks s n i = (s', Ok ()) \<and> \<alpha> s' = (\<alpha> s)(n \<mapsto> i)"
    and deleted: "\<exists>s'. ks_delete ks s n = (s', Ok ()) \<and> \<alpha> s' = (\<alpha> s)(n := None)"
begin

lemma store_put_Ok:
  "\<exists>s'. store_put ks w n i = (w\<lparr>w_keystore := s'\<rparr>, Ok ()) \<and> \<alpha> s' = (\<alpha> (w_keystore w))(n \<mapsto> i)"
  using stored [of "w_keystore w" n i] by (auto simp: store_put_def)

lemma store_delete_Ok:
  "\<exists>s'. store_delete ks w n = (w\<lparr>w_keystore := s'\<rparr>, Ok ()) \<and> \<alpha> s' = (\<alpha> (w_keystore w))(n := None)"
  using deleted [of "w_keystore w" n] by (auto simp: store_delete_def)

end

lemma mem_key_store:
  assumes "\<And>ns. distinct ns \<Longrightarrow> distinct (enum ns)" "\<And>ns. set (enum ns) = set ns"
  shows "key_store (mem_keystore enum) map_of"
  by unfold_locales
    (auto simp: mem_keystore_def assms dom_map_of_conv_image_fst map_of_filter_key)

interpretation mem: key_store "mem_keystore rev" map_of
  by (rule mem_key_store) auto

subsection \<open>The invariant of wallets\<close>

definition hashed :: "Address \<Rightarrow> bool" where
  "hashed a \<longleftrightarrow> protocol a \<noteq> Id \<and> payload_len_ok a"

definition stored_name :: "addr_libs \<Rightarrow> Network \<Rightarrow> Address \<Rightarrow> string" where
  "stored_name al net a = (case (wallet_name al net a :: (string, unit) result) of Ok s \<Rightarrow> s | _ \<Rightarrow> [])"

text \<open>
  The keys in memory are those their information determines, the store holds exactly their
  information under their names and possibly a default, and the default is the key of an address in memory.
\<close>

definition wallet_inv ::
  "addr_libs \<Rightarrow> ('ssk, 'spk, 'ssg, 'ri, 'm) secp_libs \<Rightarrow> ('bsk, 'bpk, 'bsg, 'h) bls_libs \<Rightarrow> Network \<Rightarrow>
   ('s \<Rightarrow> (string \<rightharpoonup> KeyInfo)) \<Rightarrow> 's WalletImpl \<Rightarrow> bool" where
  "wallet_inv al sl bl net \<alpha> w \<longleftrightarrow>
    (\<forall>a k. w_keys w a = Some k \<longrightarrow> wk_address k = a \<and> wallet_key_new al sl bl (wk_info k) = Ok k) \<and>
    (\<forall>a k. w_keys w a = Some k \<longrightarrow> \<alpha> (w_keystore w) (stored_name al net a) = Some (wk_info k)) \<and>
    dom (\<alpha> (w_keystore w)) \<subseteq> insert DEFAULT_KEY_NAME (stored_name al net ` dom (w_keys w)) \<and>
    (\<forall>i. \<alpha> (w_keystore w) DEFAULT_KEY_NAME = Some i \<longrightarrow>
      (\<exists>k. wallet_key_new al sl bl i = Ok k \<and> wk_address k \<in> dom (w_keys w)))"

locale wallet_env = signature_schemes al sl bl + key_store ks \<alpha>
  for al :: addr_libs
    and sl :: "('ssk, 'spk, 'ssg, 'ri, 'm) secp_libs"
    and bl :: "('bsk, 'bpk, 'bsg, 'h) bls_libs"
    and ks :: "'s keystore"
    and \<alpha> :: "'s \<Rightarrow> (string \<rightharpoonup> KeyInfo)" +
  fixes net :: Network
begin

lemma key_new_hashed:
  assumes "wallet_key_new al sl bl i = Ok k"
  shows "hashed (wk_address k)" "wallet_key_new al sl bl (wk_info k) = Ok k"
proof -
  have len: "length (blake2b_hash al PAYLOAD_HASH_LEN d) = PAYLOAD_HASH_LEN" for d
    using address_functions by (simp add: addr_laws_def PAYLOAD_HASH_LEN_def)
  show "hashed (wk_address k)" "wallet_key_new al sl bl (wk_info k) = Ok k"
    using assms
    by (auto simp: wallet_key_new_def wallet_key_secp256k1_def wallet_key_bls_def result_simps secp_address bls_address
        hashed_def payload_len_ok_def len bls_public_length BLS_PUBLIC_KEY_LEN_def secp_secret bls_private Let_def
        split: KeyType.splits)
qed

lemma random_key_new:
  "generate_random_key al sl bl ty ssk bsk = Ok k \<Longrightarrow> wallet_key_new al sl bl (wk_info k) = Ok k"
  by (auto simp: generate_random_key_def wallet_key_new_def wallet_key_secp256k1_def wallet_key_bls_def result_simps
      secp_secret bls_private Let_def split: KeyType.splits)

lemma wallet_name_Ok:
  assumes "hashed a"
  shows "wallet_name al net a = (Ok (stored_name al net a) :: (string, 'e) result)"
    and "prefix WALLET_NAME_PREFIX (stored_name al net a)"
    and "address_from_str al net (trim_start_matches WALLET_NAME_PREFIX (stored_name al net a)) = Ok a"
proof -
  let ?t = "network_prefix net @ protocol_char (protocol a) #
    base32_encode al (payload a @ blake2b_hash al CHECKSUM_HASH_LEN (as_bytes a))"
  have ph: "protocol a \<noteq> Id" "payload_len_ok a" using assms by (simp_all add: hashed_def)
  note shown = address_text_hashed [OF address_functions ph, where net = net]
  have name: "stored_name al net a = WALLET_NAME_PREFIX @ ?t"
    using shown(1) [where 'a = unit] by (simp add: stored_name_def wallet_name_def)
  show "prefix WALLET_NAME_PREFIX (stored_name al net a)" by (simp add: name)
  show "wallet_name al net a = (Ok (stored_name al net a) :: (string, 'e) result)"
    using shown(1) [where 'a = 'e] by (simp add: wallet_name_def name)
  have "\<not> prefix WALLET_NAME_PREFIX ?t"
    by (cases net) (simp_all add: NETWORK_MAINNET_PREFIX_def NETWORK_TESTNET_PREFIX_def WALLET_NAME_PREFIX_def)
  then have "trim_start_matches WALLET_NAME_PREFIX ?t = ?t" by (subst trim_start_matches.simps) simp
  then have "trim_start_matches WALLET_NAME_PREFIX (stored_name al net a) = ?t"
    unfolding name by (subst trim_start_matches.simps) (simp add: WALLET_NAME_PREFIX_def)
  with shown(2) show "address_from_str al net (trim_start_matches WALLET_NAME_PREFIX (stored_name al net a)) = Ok a" by simp
qed

lemma stored_name_inj: "hashed a \<Longrightarrow> hashed b \<Longrightarrow> stored_name al net a = stored_name al net b \<Longrightarrow> a = b"
  by (metis wallet_name_Ok(3) result.inject(1))

lemma stored_name_default: "hashed a \<Longrightarrow> stored_name al net a \<noteq> DEFAULT_KEY_NAME"
  using wallet_name_Ok(2) [of a] by (auto simp: WALLET_NAME_PREFIX_def DEFAULT_KEY_NAME_def)

lemma inv_hashed: "wallet_inv al sl bl net \<alpha> w \<Longrightarrow> w_keys w a = Some k \<Longrightarrow> hashed a"
  unfolding wallet_inv_def using key_new_hashed(1) by metis

lemma inv_name_neq:
  "wallet_inv al sl bl net \<alpha> w \<Longrightarrow> hashed b \<Longrightarrow> w_keys w a = Some k \<Longrightarrow> a \<noteq> b \<Longrightarrow>
   stored_name al net a \<noteq> stored_name al net b"
  using stored_name_inj inv_hashed by blast

lemma inv_add:
  assumes inv: "wallet_inv al sl bl net \<alpha> w" and k: "wallet_key_new al sl bl (wk_info k) = Ok k"
    and s: "\<alpha> s = (\<alpha> (w_keystore w))(stored_name al net (wk_address k) \<mapsto> wk_info k)"
  shows "wallet_inv al sl bl net \<alpha> (w\<lparr>w_keystore := s, w_keys := (w_keys w)(wk_address k \<mapsto> k)\<rparr>)"
proof -
  note I = inv [unfolded wallet_inv_def]
  have h: "hashed (wk_address k)" by (rule key_new_hashed(1) [OF k])
  note neq = inv_name_neq [OF inv h] stored_name_default [OF h, symmetric]
  show ?thesis
    unfolding wallet_inv_def
  proof (intro conjI allI impI, goal_cases)
    case (1 a k')
    then show ?case using I k by (auto split: if_splits)
  next
    case (2 a k')
    then show ?case using I k by (auto split: if_splits)
  next
    case (3 a k')
    then show ?case using I s neq(1) [of a] by (auto split: if_splits)
  next
    case 4
    then show ?case using I s by auto
  next
    case (5 i)
    then show ?case using I s neq(2) by auto
  qed
qed

lemma inv_default:
  assumes inv: "wallet_inv al sl bl net \<alpha> w" and s: "\<alpha> s = (\<alpha> (w_keystore w))(DEFAULT_KEY_NAME := d)"
    and d: "\<And>i. d = Some i \<Longrightarrow> \<exists>k. wallet_key_new al sl bl i = Ok k \<and> wk_address k \<in> dom (w_keys w)"
  shows "wallet_inv al sl bl net \<alpha> (w\<lparr>w_keystore := s\<rparr>)"
proof -
  note I = inv [unfolded wallet_inv_def]
  have neq: "stored_name al net a \<noteq> DEFAULT_KEY_NAME" if "w_keys w a = Some k" for a k
    using stored_name_default [OF inv_hashed [OF inv that]] .
  show ?thesis
    unfolding wallet_inv_def
  proof (intro conjI allI impI, goal_cases)
    case (1 a k)
    then show ?case using I by auto
  next
    case (2 a k)
    then show ?case using I by auto
  next
    case (3 a k)
    then show ?case using I s neq [of a k] by auto
  next
    case 4
    then show ?case using I s by (auto split: if_splits)
  next
    case (5 i)
    then show ?case using d s by auto
  qed
qed

lemma inv_import:
  assumes inv: "wallet_inv al sl bl net \<alpha> w"
  shows "wallet_inv al sl bl net \<alpha> (fst (wallet_import al sl bl net ks w i))"
proof (cases "wallet_key_new al sl bl i")
  case (Ok k)
  note k = key_new_hashed [OF Ok]
  obtain s where "store_put ks w (stored_name al net (wk_address k)) (wk_info k) = (w\<lparr>w_keystore := s\<rparr>, Ok ())"
    "\<alpha> s = (\<alpha> (w_keystore w))(stored_name al net (wk_address k) \<mapsto> wk_info k)"
    using store_put_Ok by blast
  with inv_add [OF inv k(2)] show ?thesis
    by (simp add: wallet_import_def and_then_w_def Ok wallet_name_Ok(1) [OF k(1)])
qed (simp_all add: wallet_import_def and_then_w_def inv)

lemma inv_generate:
  assumes inv: "wallet_inv al sl bl net \<alpha> w"
  shows "wallet_inv al sl bl net \<alpha> (fst (wallet_generate_key al sl bl net ks w ty ssk bsk))"
proof (cases "generate_random_key al sl bl ty ssk bsk")
  case (Ok k)
  note new = random_key_new [OF Ok]
  note k = key_new_hashed(1) [OF new]
  obtain s where s: "store_put ks w (stored_name al net (wk_address k)) (wk_info k) = (w\<lparr>w_keystore := s\<rparr>, Ok ())"
    "\<alpha> s = (\<alpha> (w_keystore w))(stored_name al net (wk_address k) \<mapsto> wk_info k)"
    using store_put_Ok by blast
  let ?w = "w\<lparr>w_keystore := s, w_keys := (w_keys w)(wk_address k \<mapsto> k)\<rparr>"
  note inv' = inv_add [OF inv new s(2)]
  obtain s' where s': "store_put ks ?w DEFAULT_KEY_NAME (wk_info k) = (?w\<lparr>w_keystore := s'\<rparr>, Ok ())"
    "\<alpha> s' = (\<alpha> s)(DEFAULT_KEY_NAME \<mapsto> wk_info k)"
    using store_put_Ok [of ?w DEFAULT_KEY_NAME "wk_info k"] by auto
  have "wallet_inv al sl bl net \<alpha> (?w\<lparr>w_keystore := s'\<rparr>)"
    using inv_default [OF inv', of s' "Some (wk_info k)"] s'(2) new by auto
  then show ?thesis
    using inv' s s'(1)
    by (cases "w_keys w (wk_address k)")
      (simp_all add: wallet_generate_key_def and_then_w_def Ok wallet_name_Ok(1) [OF k] found Let_def)
qed (simp_all add: wallet_generate_key_def and_then_w_def inv)

lemma set_default_Ok:
  assumes inv: "wallet_inv al sl bl net \<alpha> w" and k: "w_keys w a = Some k"
  shows "\<exists>s. set_default ks w a = (w\<lparr>w_keystore := s\<rparr>, Ok ()) \<and> \<alpha> s = (\<alpha> (w_keystore w))(DEFAULT_KEY_NAME \<mapsto> wk_info k)"
proof -
  obtain s1 where s1: "store_delete ks w DEFAULT_KEY_NAME = (w\<lparr>w_keystore := s1\<rparr>, Ok ())"
    "\<alpha> s1 = (\<alpha> (w_keystore w))(DEFAULT_KEY_NAME := None)" using store_delete_Ok by blast
  with store_put_Ok [of "w\<lparr>w_keystore := s1\<rparr>" DEFAULT_KEY_NAME "wk_info k"] k show ?thesis
    by (auto simp: set_default_def and_then_w_def)
qed

lemma inv_key: "wallet_inv al sl bl net \<alpha> w \<Longrightarrow> w_keys w a = Some k \<Longrightarrow> wk_address k = a \<and> wallet_key_new al sl bl (wk_info k) = Ok k"
  unfolding wallet_inv_def by blast

lemma inv_set_default:
  assumes inv: "wallet_inv al sl bl net \<alpha> w"
  shows "wallet_inv al sl bl net \<alpha> (fst (set_default ks w a))"
proof (cases "w_keys w a")
  case None
  then show ?thesis using inv by (simp add: set_default_def)
next
  case (Some k)
  then obtain s where "set_default ks w a = (w\<lparr>w_keystore := s\<rparr>, Ok ())"
    "\<alpha> s = (\<alpha> (w_keystore w))(DEFAULT_KEY_NAME \<mapsto> wk_info k)" using set_default_Ok [OF inv] by blast
  with inv_default [OF inv, of s "Some (wk_info k)"] inv_key [OF inv Some] Some show ?thesis by auto
qed

lemma inv_step: "wallet_inv al sl bl net \<alpha> w \<Longrightarrow> wallet_inv al sl bl net \<alpha> (fst (wallet_step al sl bl net ks w c))"
  by (cases c) (simp_all add: inv_import inv_generate inv_set_default)

lemma inv_run: "wallet_inv al sl bl net \<alpha> w \<Longrightarrow> wallet_inv al sl bl net \<alpha> (wallet_run al sl bl net ks w cs)"
  by (induction cs arbitrary: w) (simp_all add: wallet_run_def inv_step)

lemma inv_reachable: "\<alpha> s = Map.empty \<Longrightarrow> wallet_inv al sl bl net \<alpha> (wallet_run al sl bl net ks (wallet_new s) cs)"
  by (rule inv_run) (simp add: wallet_inv_def wallet_new_def)

lemma inv_sign:
  assumes "wallet_inv al sl bl net \<alpha> w" "has_key w a"
  shows "\<exists>s. wallet_sign al sl bl net w a msg = Ok s \<and> verify al sl bl s a msg = Ok True"
proof -
  obtain k where k: "w_keys w a = Some k" using assms(2) by (auto simp: has_key_def find_key_def)
  note new = inv_key [OF assms(1) k]
  show ?thesis
  proof (cases "ki_type (wk_info k)")
    case KeySecp256k1
    then obtain sk where "secp_secret_parse sl (ki_private_key (wk_info k)) = Ok sk"
      "new_secp256k1_addr al (secp_public_serialize sl (secp_public sl sk)) = Ok a"
      using new by (auto simp: wallet_key_new_def wallet_key_secp256k1_def result_simps Let_def)
    from sign_secp256k1_verifies [OF this, of msg] show ?thesis
      using k KeySecp256k1 by (auto simp: wallet_sign_def find_key_def)
  next
    case KeyBls
    then obtain sk where "bls_private_from_bytes bl (ki_private_key (wk_info k)) = Ok sk"
      "new_bls_addr (bls_public_as_bytes bl (bls_public_key bl sk)) = Ok a"
      using new by (auto simp: wallet_key_new_def wallet_key_bls_def result_simps Let_def)
    from sign_bls_verifies [OF this, of msg] show ?thesis
      using k KeyBls by (auto simp: wallet_sign_def find_key_def)
  qed (use new in \<open>simp_all add: wallet_key_new_def\<close>)
qed

lemma default_key:
  "wallet_key_new al sl bl i = Ok k \<Longrightarrow> \<alpha> (w_keystore w) DEFAULT_KEY_NAME = Some i \<Longrightarrow>
   get_default al sl bl ks w = Ok (Some (wk_address k))"
  by (auto simp: get_default_def found wallet_key_new_def split: KeyType.splits)

lemma inv_get_default:
  assumes "wallet_inv al sl bl net \<alpha> w"
  shows "\<exists>d. get_default al sl bl ks w = Ok d \<and> (\<forall>a. d = Some a \<longrightarrow> has_key w a)"
proof (cases "\<alpha> (w_keystore w) DEFAULT_KEY_NAME")
  case None
  then show ?thesis by (simp add: get_default_def found)
next
  case (Some i)
  then obtain k where "wallet_key_new al sl bl i = Ok k" "wk_address k \<in> dom (w_keys w)"
    using assms unfolding wallet_inv_def by blast
  then show ?thesis using default_key [OF _ Some] by (auto simp: has_key_def find_key_def)
qed

lemma list_loop_names:
  assumes "set ns \<subseteq> insert DEFAULT_KEY_NAME (stored_name al net ` A)" "\<And>a. a \<in> A \<Longrightarrow> hashed a"
  shows "\<exists>as. list_loop al net ns res = Ok (res @ as) \<and> set as \<subseteq> A \<and>
    map (stored_name al net) as = filter (\<lambda>n. n \<noteq> DEFAULT_KEY_NAME) ns"
  using assms(1)
proof (induction ns arbitrary: res)
  case (Cons n ns)
  show ?case
  proof (cases "n = DEFAULT_KEY_NAME")
    case True
    then show ?thesis
      using Cons by (simp add: WALLET_NAME_PREFIX_def DEFAULT_KEY_NAME_def)
  next
    case False
    then obtain a where a: "a \<in> A" "n = stored_name al net a" using Cons.prems by auto
    obtain as where "list_loop al net ns (res @ [a]) = Ok ((res @ [a]) @ as)" "set as \<subseteq> A"
      "map (stored_name al net) as = filter (\<lambda>n. n \<noteq> DEFAULT_KEY_NAME) ns"
      using Cons.IH [of "res @ [a]"] Cons.prems by auto
    then show ?thesis
      using a False wallet_name_Ok(2,3) [OF assms(2) [OF a(1)]] by (intro exI [of _ "a # as"]) simp
  qed
qed simp

lemma inv_list:
  assumes inv: "wallet_inv al sl bl net \<alpha> w"
  shows "\<exists>as. list_addrs al net ks w = Ok as \<and> distinct as \<and> set as = dom (w_keys w)"
proof -
  obtain ns where ns: "ks_list ks (w_keystore w) = Ok ns" "distinct ns" "set ns = dom (\<alpha> (w_keystore w))"
    using listed by blast
  obtain as where as: "list_loop al net (sort ns) [] = Ok as" "set as \<subseteq> dom (w_keys w)"
    "map (stored_name al net) as = filter (\<lambda>n. n \<noteq> DEFAULT_KEY_NAME) (sort ns)"
    using list_loop_names [of "sort ns" "dom (w_keys w)" "[]"] inv inv_hashed [OF inv] ns(3)
    unfolding wallet_inv_def by auto
  have "distinct (map (stored_name al net) as)" using as(3) ns(2) by simp
  then have "distinct as" by (rule distinct_map [THEN iffD1, THEN conjunct1])
  moreover have "a \<in> set as" if a: "w_keys w a = Some k" for a k
  proof -
    have "stored_name al net a \<in> set (map (stored_name al net) as)"
      using inv a ns(3) stored_name_default [OF inv_hashed [OF inv a]] unfolding as(3) wallet_inv_def by auto
    then show ?thesis
      using as(2) stored_name_inj [OF inv_hashed [OF inv a] inv_hashed [OF inv]] by (auto simp: subset_iff)
  qed
  ultimately show ?thesis using as(1,2) ns(1) by (auto simp: list_addrs_def)
qed

end

interpretation plain_wallet: wallet_env address_rfc plain_secp plain_bls "mem_keystore rev" map_of Test
  by unfold_locales

subsection \<open>Properties\<close>

lemma wallet_envI: "signature_schemes al sl bl \<Longrightarrow> key_store ks \<alpha> \<Longrightarrow> wallet_env al sl bl ks \<alpha>"
  by (simp add: wallet_env_def)

text \<open>
  C4: What a wallet signs is accepted: after any sequence of calls on a wallet created over an empty key store,
  signing any message for any address of the wallet succeeds, and the signature verifies for that
  address and message.
\<close>

theorem wallet_sign_verifies:
  assumes "signature_schemes al sl bl" "key_store ks \<alpha>" "\<alpha> s = Map.empty"
    and "w = wallet_run al sl bl net ks (wallet_new s) cs" "has_key w a"
  shows "\<exists>sig. wallet_sign al sl bl net w a msg = Ok sig \<and> verify al sl bl sig a msg = Ok True"
  using wallet_env.inv_sign [OF wallet_envI [OF assms(1,2)]] assms(3-5)
    wallet_env.inv_reachable [OF wallet_envI [OF assms(1,2)]] by metis

lemma sample_wallet:
  "has_key (wallet_run address_rfc plain_secp plain_bls Test (mem_keystore rev) (wallet_new mem_new)
     [CallImport \<lparr>ki_type = KeyBls, ki_private_key = padded_byte 32 7\<rparr>])
     \<lparr>protocol = Bls, payload = padded_byte 48 7\<rparr>"
proof -
  have "hashed \<lparr>protocol = Bls, payload = padded_byte 48 7\<rparr>"
    by (simp add: hashed_def payload_len_ok_def BLS_PUBLIC_KEY_LEN_def)
  from plain_wallet.wallet_name_Ok(1) [OF this, where 'e = WalletError] show ?thesis
    by (simp add: wallet_run_def wallet_import_def wallet_key_new_def wallet_key_bls_def and_then_w_def plain_bls_def
        new_bls_addr_def address_new_def BLS_PUBLIC_KEY_LEN_def store_put_def mem_keystore_def has_key_def find_key_def Let_def)
qed

theorem wallet_sign_verifies_witness:
  "\<exists>w sig. has_key w \<lparr>protocol = Bls, payload = padded_byte 48 7\<rparr> \<and>
    wallet_sign address_rfc plain_secp plain_bls Test (w :: MemKeyStore WalletImpl) \<lparr>protocol = Bls, payload = padded_byte 48 7\<rparr> [1, 2] = Ok sig \<and>
    verify address_rfc plain_secp plain_bls sig \<lparr>protocol = Bls, payload = padded_byte 48 7\<rparr> [1, 2] = Ok True"
  using wallet_sign_verifies [OF plain.signature_schemes_axioms mem.key_store_axioms _ refl sample_wallet, of "[1, 2]"] sample_wallet
  by (auto simp: mem_new_def)

text \<open>
  C21: The memory and the store of a wallet agree: after any sequence of calls on a wallet created over an empty key
  store, listing gives each address of the wallet once and no other, the default (if any) is an
  address of the wallet, importing an exported key into any wallet over a key store gives its address again, and an address
  is made the default if it is in the wallet, while an unknown address makes the call panic.
\<close>

theorem wallet_store_consistent:
  assumes "signature_schemes al sl bl" "key_store ks \<alpha>" "\<alpha> s = Map.empty"
    and "w = wallet_run al sl bl net ks (wallet_new s) cs"
  shows "(\<exists>as. list_addrs al net ks w = Ok as \<and> distinct as \<and> (\<forall>a. a \<in> set as \<longleftrightarrow> has_key w a)) \<and>
    (\<exists>d. get_default al sl bl ks w = Ok d \<and> (\<forall>a. d = Some a \<longrightarrow> has_key w a)) \<and>
    (\<forall>i. wallet_export w a = Some i \<longrightarrow> snd (wallet_import al sl bl net ks w' i) = Ok a) \<and>
    (if has_key w a
     then \<exists>w'. set_default ks w a = (w', Ok ()) \<and> get_default al sl bl ks w' = Ok (Some a)
     else set_default ks w a = (w, Panic))"
proof (intro conjI)
  note env = wallet_envI [OF assms(1,2)]
  have inv: "wallet_inv al sl bl net \<alpha> w" using wallet_env.inv_reachable [where \<alpha> = \<alpha>, OF env assms(3)] assms(4) by simp
  show "\<exists>as. list_addrs al net ks w = Ok as \<and> distinct as \<and> (\<forall>a. a \<in> set as \<longleftrightarrow> has_key w a)"
    using wallet_env.inv_list [OF env inv] by (auto simp: has_key_def find_key_def domIff)
  show "\<exists>d. get_default al sl bl ks w = Ok d \<and> (\<forall>a. d = Some a \<longrightarrow> has_key w a)"
    by (rule wallet_env.inv_get_default [OF env inv])
  show "\<forall>i. wallet_export w a = Some i \<longrightarrow> snd (wallet_import al sl bl net ks w' i) = Ok a"
  proof (intro allI impI)
    fix i
    assume "wallet_export w a = Some i"
    then obtain k where k: "w_keys w a = Some k" "i = wk_info k"
      by (auto simp: wallet_export_def find_key_def split: option.splits)
    note new = wallet_env.inv_key [OF env inv k(1)]
    obtain s' where "store_put ks w' (stored_name al net a) i = (w'\<lparr>w_keystore := s'\<rparr>, Ok ())"
      using key_store.store_put_Ok [OF assms(2)] by blast
    with new k(2) wallet_env.wallet_name_Ok(1) [OF env wallet_env.inv_hashed [OF env inv k(1)], where 'e = WalletError]
    show "snd (wallet_import al sl bl net ks w' i) = Ok a" by (simp add: wallet_import_def and_then_w_def)
  qed
  show "if has_key w a
     then \<exists>w'. set_default ks w a = (w', Ok ()) \<and> get_default al sl bl ks w' = Ok (Some a)
     else set_default ks w a = (w, Panic)"
  proof (cases "w_keys w a")
    case (Some k)
    from wallet_env.set_default_Ok [OF env inv Some] wallet_env.inv_key [OF env inv Some] show ?thesis
      using Some wallet_env.default_key [OF env, of "wk_info k" k] by (fastforce simp: has_key_def find_key_def)
  qed (simp add: has_key_def find_key_def set_default_def)
qed

theorem wallet_store_consistent_witness:
  "\<exists>w as w'. list_addrs address_rfc Test (mem_keystore rev) w = Ok as \<and> as \<noteq> [] \<and>
    set_default (mem_keystore rev) w \<lparr>protocol = Bls, payload = padded_byte 48 7\<rparr> = (w', Ok ())"
  using wallet_store_consistent [OF plain.signature_schemes_axioms mem.key_store_axioms _ refl,
      where s = mem_new and net = Test and a = "\<lparr>protocol = Bls, payload = padded_byte 48 7\<rparr>"
        and cs = "[CallImport \<lparr>ki_type = KeyBls, ki_private_key = padded_byte 32 7\<rparr>]"] sample_wallet
  by (fastforce simp: mem_new_def)

lemma key_type_roundtrip:
  "key_type_deserialize (key_type_display t) = t \<longleftrightarrow>
    (\<forall>s. t = Other s \<longrightarrow> s \<notin> {''secp256k1'', ''bls'', ''libp2p-host'', ''jwt-hmac-secret''})"
  by (cases t) (auto simp: key_type_deserialize_def)

end
