(* ===== verification/Rpc_Protocol.thy ===== *)
theory Rpc_Protocol
  imports Plum_Prelude
begin

text \<open>
  The data of the request/response protocol between peers (\<open>src/libp2p/src/rpc/methods.rs\<close>,
  \<open>protocol.rs\<close>, \<open>mod.rs\<close>): requests, responses, response codes, protocol names, errors, events, and the
  behaviour that queues events for the network and for the application.

  Content identifiers and peer identifiers are type variables. Errors of external crates are their printed
  form. The codec only hands the data to \<open>serde_cbor\<close> and is not modelled.
\<close>

type_synonym RequestId = u64

record 'cid StatusMessage =
  heaviest_tip_set :: "'cid list"
  heaviest_tip_set_weight :: "128 word"
  genesis_hash :: 'cid

datatype GoodbyeReason = ClientShutdown | IrrelevantNetwork | Fault | UnknownReason

definition goodbye_from_u64 :: "u64 \<Rightarrow> GoodbyeReason" where
  "goodbye_from_u64 i =
    (if i = 1 then ClientShutdown else if i = 2 then IrrelevantNetwork else if i = 3 then Fault else UnknownReason)"

primrec goodbye_u64 :: "GoodbyeReason \<Rightarrow> u64" where
  "goodbye_u64 ClientShutdown = 1"
| "goodbye_u64 IrrelevantNetwork = 2"
| "goodbye_u64 Fault = 3"
| "goodbye_u64 UnknownReason = 0"

primrec goodbye_display :: "GoodbyeReason \<Rightarrow> string" where
  "goodbye_display ClientShutdown = ''Client Shutdown''"
| "goodbye_display IrrelevantNetwork = ''Irrelevant Network''"
| "goodbye_display Fault = ''Fault''"
| "goodbye_display UnknownReason = ''Unknown Reason''"

record 'cid BlockSyncRequest =
  bs_start :: "'cid list"
  bs_length :: u64
  bs_options :: u64

datatype 'cid RPCResponse = RespStatus "'cid StatusMessage" | RespBlockSync bytes

datatype ResponseTermination = TermBlockSync

text \<open>An error message is its bytes.\<close>

datatype 'cid RPCErrorResponse =
  Success "'cid RPCResponse" | InvalidRequest bytes | ServerError bytes | UnknownResponse bytes
| StreamTermination ResponseTermination

primrec as_u8 :: "'cid RPCErrorResponse \<Rightarrow> u8 option" where
  "as_u8 (Success r) = Some 0"
| "as_u8 (InvalidRequest e) = Some 1"
| "as_u8 (ServerError e) = Some 2"
| "as_u8 (UnknownResponse e) = Some 255"
| "as_u8 (StreamTermination t) = None"

definition is_response :: "u8 \<Rightarrow> bool" where
  "is_response response_code \<longleftrightarrow> response_code = 0"

definition from_error :: "u8 \<Rightarrow> bytes \<Rightarrow> 'cid RPCErrorResponse" where
  "from_error response_code err =
    (if response_code = 1 then InvalidRequest err
     else if response_code = 2 then ServerError err
     else UnknownResponse err)"

primrec response_multiple :: "'cid RPCErrorResponse \<Rightarrow> bool" where
  "response_multiple (Success resp) = (case resp of RespStatus _ \<Rightarrow> False | RespBlockSync _ \<Rightarrow> True)"
| "response_multiple (InvalidRequest e) = True"
| "response_multiple (ServerError e) = True"
| "response_multiple (UnknownResponse e) = True"
| "response_multiple (StreamTermination t) = True"

definition is_error :: "'cid RPCErrorResponse \<Rightarrow> bool" where
  "is_error r = (case r of Success _ \<Rightarrow> False | _ \<Rightarrow> True)"

subsection \<open>Protocol names\<close>

definition PROTOCOL_PREFIX :: string where "PROTOCOL_PREFIX = ''/fil/plum/req''"
definition RPC_STATUS :: string where "RPC_STATUS = ''status''"
definition RPC_GOODBYE :: string where "RPC_GOODBYE = ''goodbye''"
definition RPC_BLOCK_SYNC_REQUEST :: string where "RPC_BLOCK_SYNC_REQUEST = ''plum_block_sync_request''"
definition CBOR :: string where "CBOR = ''cbor''"

record ProtocolId =
  message_name :: string
  pid_version :: string
  encoding :: string
  protocol_id :: string

definition protocol_id_new :: "string \<Rightarrow> string \<Rightarrow> string \<Rightarrow> ProtocolId" where
  "protocol_id_new name version enc =
    \<lparr>message_name = name, pid_version = version, encoding = enc,
     protocol_id = PROTOCOL_PREFIX @ ''/'' @ name @ ''/'' @ version @ ''/'' @ enc\<rparr>"

definition protocol_info :: "ProtocolId list" where
  "protocol_info =
    [protocol_id_new RPC_STATUS ''1'' CBOR, protocol_id_new RPC_GOODBYE ''1'' CBOR,
     protocol_id_new RPC_BLOCK_SYNC_REQUEST ''1'' CBOR]"

subsection \<open>Requests\<close>

datatype 'cid RPCRequest =
  ReqStatus "'cid StatusMessage" | Goodbye GoodbyeReason | ReqBlockSync "'cid BlockSyncRequest"

primrec supported_protocols :: "'cid RPCRequest \<Rightarrow> ProtocolId list" where
  "supported_protocols (ReqStatus m) = [protocol_id_new RPC_STATUS ''1'' CBOR]"
| "supported_protocols (Goodbye r) = [protocol_id_new RPC_GOODBYE ''1'' CBOR]"
| "supported_protocols (ReqBlockSync r) = [protocol_id_new RPC_BLOCK_SYNC_REQUEST ''1'' CBOR]"

primrec expect_response :: "'cid RPCRequest \<Rightarrow> bool" where
  "expect_response (ReqStatus m) = True"
| "expect_response (Goodbye r) = False"
| "expect_response (ReqBlockSync r) = True"

primrec request_multiple :: "'cid RPCRequest \<Rightarrow> bool" where
  "request_multiple (ReqStatus m) = False"
| "request_multiple (Goodbye r) = False"
| "request_multiple (ReqBlockSync r) = True"

primrec stream_termination :: "'cid RPCRequest \<Rightarrow> (ResponseTermination, 'e) result" where
  "stream_termination (ReqBlockSync r) = Ok TermBlockSync"
| "stream_termination (ReqStatus m) = Panic"
| "stream_termination (Goodbye r) = Panic"

subsection \<open>Errors\<close>

datatype RPCError =
  ReadError string | CborDecodeError string | InvalidProtocol string | IoError string | StreamTimeout
| ErrorResponse | Custom string

definition timeout_error :: "bool \<Rightarrow> RPCError" where
  "timeout_error elapsed = (if elapsed then StreamTimeout else Custom ''Stream timer failed'')"

primrec rpc_error_display :: "RPCError \<Rightarrow> string" where
  "rpc_error_display (ReadError err) = ''Error while reading from socket: '' @ err"
| "rpc_error_display (CborDecodeError err) = ''Error while decoding cbor: '' @ err"
| "rpc_error_display (InvalidProtocol err) = ''Invalid Protocol: '' @ err"
| "rpc_error_display (IoError err) = ''IO Error: '' @ err"
| "rpc_error_display ErrorResponse = ''RPC Response Error''"
| "rpc_error_display StreamTimeout = ''Stream Timeout''"
| "rpc_error_display (Custom err) = err"

subsection \<open>Events and the behaviour\<close>

datatype 'cid RPCEvent =
  Request RequestId "'cid RPCRequest" | Response RequestId "'cid RPCErrorResponse" | EventError RequestId RPCError

primrec event_id :: "'cid RPCEvent \<Rightarrow> RequestId" where
  "event_id (Request i r) = i"
| "event_id (Response i r) = i"
| "event_id (EventError i e) = i"

datatype ('peer, 'cid) RPCMessage = RPC 'peer "'cid RPCEvent" | PeerDialed 'peer | PeerDisconnected 'peer

datatype ('peer, 'cid) BehaviourAction = SendEvent 'peer "'cid RPCEvent" | GenerateEvent "('peer, 'cid) RPCMessage"

datatype ConnectedPoint = Dialer | Listener

type_synonym ('peer, 'cid) RPC_behaviour = "('peer, 'cid) BehaviourAction list"

definition rpc_behaviour_new :: "('peer, 'cid) RPC_behaviour" where
  "rpc_behaviour_new = []"

definition send_rpc :: "('peer, 'cid) RPC_behaviour \<Rightarrow> 'peer \<Rightarrow> 'cid RPCEvent \<Rightarrow> ('peer, 'cid) RPC_behaviour" where
  "send_rpc events peer_id rpc_event = events @ [SendEvent peer_id rpc_event]"

definition inject_connected :: "('peer, 'cid) RPC_behaviour \<Rightarrow> 'peer \<Rightarrow> ConnectedPoint \<Rightarrow> ('peer, 'cid) RPC_behaviour" where
  "inject_connected events peer_id point =
    (case point of Dialer \<Rightarrow> events @ [GenerateEvent (PeerDialed peer_id)] | Listener \<Rightarrow> events)"

definition inject_disconnected :: "('peer, 'cid) RPC_behaviour \<Rightarrow> 'peer \<Rightarrow> ('peer, 'cid) RPC_behaviour" where
  "inject_disconnected events peer_id = events @ [GenerateEvent (PeerDisconnected peer_id)]"

definition inject_node_event :: "('peer, 'cid) RPC_behaviour \<Rightarrow> 'peer \<Rightarrow> 'cid RPCEvent \<Rightarrow> ('peer, 'cid) RPC_behaviour" where
  "inject_node_event events source event = events @ [GenerateEvent (RPC source event)]"

definition behaviour_poll ::
  "('peer, 'cid) RPC_behaviour \<Rightarrow> ('peer, 'cid) RPC_behaviour \<times> ('peer, 'cid) BehaviourAction option" where
  "behaviour_poll events = (if events \<noteq> [] then (tl events, Some (hd events)) else (events, None))"

subsection \<open>Lemmas\<close>

lemma goodbye_roundtrip [simp]: "goodbye_from_u64 (goodbye_u64 r) = r"
  by (cases r) (simp_all add: goodbye_from_u64_def)

lemma from_error_code:
  "as_u8 r = Some c \<Longrightarrow> \<not> is_response c \<Longrightarrow> \<exists>e. from_error c e = r"
  by (cases r) (auto simp: from_error_def is_response_def)

lemma request_multiple_termination [simp]: "request_multiple r \<Longrightarrow> stream_termination r = Ok TermBlockSync"
  by (cases r) simp_all

lemma supported_subset: "set (supported_protocols r) \<subseteq> set protocol_info"
  by (cases r) (simp_all add: protocol_info_def)

end
