(* ===== verification/Rpc_Handler.thy ===== *)
theory Rpc_Handler
  imports Rpc_Protocol
begin

text \<open>
  The connection handler of the request/response protocol (\<open>src/libp2p/src/rpc/handler.rs\<close>): the state machine
  that opens outbound substreams for queued requests, answers inbound ones, and times both out.

  Framed substreams, sending futures and timer queues belong to tokio. They are the operations of the records
  \<open>rpc_io\<close> and \<open>delay_queue\<close> over the crates' own states; a polled object carries its future
  behaviour in its state, so any sequence of answers of the network is possible. The locale \<open>delay_contract\<close> is the documented
  behaviour of timer queues. The iteration order of the hash maps of substreams is unspecified and an
  argument of \<open>poll\<close>, as is the current time of the operations that read the clock.

  The swarm that drives the handler is the relation \<open>rpc_reach\<close>: it delivers an outcome only for a substream that
  \<open>poll\<close> requested, and each of them once.
\<close>

datatype 'a async = Ready 'a | NotReady

record ('ins, 'snd, 'outs, 'cid) rpc_io =
  in_send :: "'ins \<Rightarrow> 'cid RPCErrorResponse \<Rightarrow> 'snd"
  in_send_poll :: "'snd \<Rightarrow> 'snd \<times> (RPCError + 'ins async)"
  in_poll :: "'ins \<Rightarrow> 'ins \<times> (RPCError + 'cid RPCRequest option async)"
  in_close :: "'ins \<Rightarrow> 'ins \<times> (RPCError + unit async)"
  out_poll :: "'outs \<Rightarrow> 'outs \<times> (RPCError + 'cid RPCErrorResponse option async)"
  out_close :: "'outs \<Rightarrow> 'outs \<times> (RPCError + unit async)"

record 'dq delay_queue =
  dq_new :: 'dq
  dq_insert :: "'dq \<Rightarrow> RequestId \<Rightarrow> nat \<Rightarrow> 'dq \<times> nat"
  dq_remove :: "'dq \<Rightarrow> nat \<Rightarrow> ('dq, unit) result"
  dq_reset :: "'dq \<Rightarrow> nat \<Rightarrow> nat \<Rightarrow> ('dq, unit) result"
  dq_poll :: "'dq \<Rightarrow> 'dq \<times> (string + RequestId option async)"

definition RESPONSE_TIMEOUT :: nat where "RESPONSE_TIMEOUT = 10"
definition IO_ERROR_RETRIES :: u8 where "IO_ERROR_RETRIES = 3"

datatype KeepAlive = Until nat | KeepYes

datatype UpgrErr = Timeout | Timer | UpgradeSelect string | UpgradeApply RPCError

datatype ('ins, 'snd) InboundSubstreamState =
  ResponsePendingSend 'snd bool | ResponseIdle 'ins | InClosing 'ins | InPoisoned

datatype ('outs, 'cid) OutboundSubstreamState =
  RequestPendingResponse 'outs "'cid RPCRequest" | OutClosing 'outs | OutPoisoned

record ('ins, 'snd, 'outs, 'dq, 'cid) RPCHandler =
  pending_error :: "(RequestId \<times> UpgrErr) option"
  events_out :: "'cid RPCEvent list"
  dial_queue :: "'cid RPCEvent list"
  dial_negotiated :: u32
  inbound_substreams :: "RequestId \<rightharpoonup> ('ins, 'snd) InboundSubstreamState \<times> nat option"
  inbound_substreams_delay :: 'dq
  outbound_substreams :: "RequestId \<rightharpoonup> ('outs, 'cid) OutboundSubstreamState \<times> nat"
  outbound_substreams_delay :: 'dq
  queued_outbound_items :: "RequestId \<rightharpoonup> 'cid RPCErrorResponse list"
  current_inbound_substream_id :: RequestId
  max_dial_negotiated :: u32
  keep_alive :: KeepAlive
  inactive_timeout :: nat
  outbound_io_error_retries :: u8

definition rpc_new :: "'dq delay_queue \<Rightarrow> nat \<Rightarrow> ('ins, 'snd, 'outs, 'dq, 'cid) RPCHandler" where
  "rpc_new dq timeout =
    \<lparr>pending_error = None, events_out = [], dial_queue = [], dial_negotiated = 0,
     inbound_substreams = Map.empty, inbound_substreams_delay = dq_new dq,
     outbound_substreams = Map.empty, outbound_substreams_delay = dq_new dq,
     queued_outbound_items = Map.empty, current_inbound_substream_id = 1, max_dial_negotiated = 8,
     keep_alive = KeepYes, inactive_timeout = timeout, outbound_io_error_retries = 0\<rparr>"

definition pending_requests :: "bool \<Rightarrow> ('ins, 'snd, 'outs, 'dq, 'cid) RPCHandler \<Rightarrow> (u32, 'e) result" where
  "pending_requests oc h = add_w oc (dial_negotiated h) (of_nat (length (dial_queue h)))"

definition send_request ::
  "('ins, 'snd, 'outs, 'dq, 'cid) RPCHandler \<Rightarrow> 'cid RPCEvent \<Rightarrow> ('ins, 'snd, 'outs, 'dq, 'cid) RPCHandler" where
  "send_request h rpc_event = h\<lparr>keep_alive := KeepYes, dial_queue := dial_queue h @ [rpc_event]\<rparr>"

text \<open>\<open>InboundSubstreamState::close\<close>: the new state of the substream and of its queue.\<close>

definition timed_out :: bytes where
  "timed_out = map (of_nat \<circ> of_char) ''Request timed out''"

definition close_inbound ::
  "('ins, 'snd, 'outs, 'cid) rpc_io \<Rightarrow> ('ins, 'snd) InboundSubstreamState \<Rightarrow> 'cid RPCErrorResponse list \<Rightarrow>
   (('ins, 'snd) InboundSubstreamState \<times> 'cid RPCErrorResponse list, unit) result" where
  "close_inbound io st outbound_queue =
    (let error = ServerError timed_out; termination = StreamTermination TermBlockSync in
     case st of
       ResponsePendingSend substream closing \<Rightarrow>
         Ok (ResponsePendingSend substream closing,
             if \<not> closing then outbound_queue @ [error, termination] else outbound_queue)
     | ResponseIdle substream \<Rightarrow>
         (case in_poll io substream of
            (substream, Inr (Ready None)) \<Rightarrow> Ok (InClosing substream, outbound_queue)
          | (substream, _) \<Rightarrow> Ok (ResponsePendingSend (in_send io substream error) True, outbound_queue))
     | InClosing substream \<Rightarrow> Ok (InClosing substream, outbound_queue)
     | InPoisoned \<Rightarrow> Panic)"

subsection \<open>Events of the connection\<close>

definition inject_fully_negotiated_inbound ::
  "bool \<Rightarrow> 'dq delay_queue \<Rightarrow> nat \<Rightarrow> ('ins, 'snd, 'outs, 'dq, 'cid) RPCHandler \<Rightarrow> 'cid RPCRequest \<Rightarrow> 'ins \<Rightarrow>
   (('ins, 'snd, 'outs, 'dq, 'cid) RPCHandler, unit) result" where
  "inject_fully_negotiated_inbound oc dq now h req substream =
    (let h = (case keep_alive h of
                Until _ \<Rightarrow> h\<lparr>keep_alive := Until (now + inactive_timeout h)\<rparr>
              | KeepYes \<Rightarrow> h) in
     case req of
       Goodbye _ \<Rightarrow> Ok (h\<lparr>events_out := events_out h @ [Request 0 req]\<rparr>)
     | _ \<Rightarrow>
         let i = current_inbound_substream_id h;
             (q, delay_key) = dq_insert dq (inbound_substreams_delay h) i RESPONSE_TIMEOUT in
         and_then (add_w oc i 1) (\<lambda>next.
           Ok (h\<lparr>inbound_substreams_delay := q,
                 inbound_substreams := (inbound_substreams h)(i \<mapsto> (ResponseIdle substream, Some delay_key)),
                 events_out := events_out h @ [Request i req],
                 current_inbound_substream_id := next\<rparr>)))"

definition inject_fully_negotiated_outbound ::
  "bool \<Rightarrow> 'dq delay_queue \<Rightarrow> nat \<Rightarrow> ('ins, 'snd, 'outs, 'dq, 'cid) RPCHandler \<Rightarrow> 'outs \<Rightarrow> 'cid RPCEvent \<Rightarrow>
   (('ins, 'snd, 'outs, 'dq, 'cid) RPCHandler, unit) result" where
  "inject_fully_negotiated_outbound oc dq now h out rpc_event =
    and_then (sub_w oc (dial_negotiated h) 1) (\<lambda>n.
      let h = h\<lparr>dial_negotiated := n,
                keep_alive :=
                  (if n = 0 \<and> dial_queue h = [] \<and> outbound_substreams h = Map.empty
                   then Until (now + inactive_timeout h) else KeepYes)\<rparr> in
      case rpc_event of
        Request i request \<Rightarrow>
          if expect_response request then
            let (q, delay_key) = dq_insert dq (outbound_substreams_delay h) i RESPONSE_TIMEOUT in
            Ok (h\<lparr>outbound_substreams_delay := q,
                  outbound_substreams := (outbound_substreams h)(i \<mapsto> (RequestPendingResponse out request, delay_key))\<rparr>)
          else Ok h
      | _ \<Rightarrow> Ok h)"

text \<open>The new state of a substream and its queue when the application answers its request.\<close>

definition respond ::
  "('ins, 'snd, 'outs, 'cid) rpc_io \<Rightarrow> ('ins, 'snd) InboundSubstreamState \<Rightarrow> 'cid RPCErrorResponse \<Rightarrow>
   'cid RPCErrorResponse list option \<Rightarrow>
   (('ins, 'snd) InboundSubstreamState \<times> 'cid RPCErrorResponse list option, unit) result" where
  "respond io st response queue =
    (case st of
       ResponseIdle substream \<Rightarrow>
         (case response of
            StreamTermination _ \<Rightarrow> Ok (InClosing substream, queue)
          | _ \<Rightarrow>
              Ok (ResponsePendingSend (in_send io substream response)
                    (\<not> response_multiple response \<or> is_error response), queue))
     | ResponsePendingSend substream closing \<Rightarrow>
         if response_multiple response then
           Ok (ResponsePendingSend substream closing,
               Some ((case queue of Some items \<Rightarrow> items | None \<Rightarrow> []) @ [response]))
         else Ok (ResponsePendingSend substream True, queue)
     | InClosing substream \<Rightarrow> Ok (InClosing substream, queue)
     | InPoisoned \<Rightarrow> Panic)"

definition inject_event ::
  "('ins, 'snd, 'outs, 'cid) rpc_io \<Rightarrow> ('ins, 'snd, 'outs, 'dq, 'cid) RPCHandler \<Rightarrow> 'cid RPCEvent \<Rightarrow>
   (('ins, 'snd, 'outs, 'dq, 'cid) RPCHandler, unit) result" where
  "inject_event io h rpc_event =
    (case rpc_event of
       Request _ _ \<Rightarrow> Ok (send_request h rpc_event)
     | Response i response \<Rightarrow>
         (case inbound_substreams h i of
            Some (st, key) \<Rightarrow>
              and_then (respond io st response (queued_outbound_items h i)) (\<lambda>(st, queue).
                Ok (h\<lparr>inbound_substreams := (inbound_substreams h)(i \<mapsto> (st, key)),
                      queued_outbound_items := (queued_outbound_items h)(i := queue)\<rparr>))
          | None \<Rightarrow> Ok h)
     | EventError _ _ \<Rightarrow> Ok h)"

text \<open>The slot that \<open>poll\<close> took for the failed dial is not given back: \<open>dial_negotiated\<close> stays as it is.\<close>

definition inject_dial_upgrade_error ::
  "bool \<Rightarrow> ('ins, 'snd, 'outs, 'dq, 'cid) RPCHandler \<Rightarrow> 'cid RPCEvent \<Rightarrow> UpgrErr \<Rightarrow>
   (('ins, 'snd, 'outs, 'dq, 'cid) RPCHandler, unit) result" where
  "inject_dial_upgrade_error oc h request error =
    (let report = (\<lambda>h :: ('ins, 'snd, 'outs, 'dq, 'cid) RPCHandler.
           let h = h\<lparr>outbound_io_error_retries := 0\<rparr>;
               request_id = (case request of Request i _ \<Rightarrow> i | _ \<Rightarrow> 0) in
           Ok (if pending_error h = None then h\<lparr>pending_error := Some (request_id, error)\<rparr> else h)) in
     case error of
       UpgradeApply (IoError _) \<Rightarrow>
         and_then (add_w oc (outbound_io_error_retries h) 1) (\<lambda>n.
           let h = h\<lparr>outbound_io_error_retries := n\<rparr> in
           if n < IO_ERROR_RETRIES then Ok (send_request h request) else report h)
     | _ \<Rightarrow> report h)"

subsection \<open>Polling\<close>

datatype 'cid HandlerEvent = HandlerCustom "'cid RPCEvent" | OutboundSubstreamRequest "'cid RPCRequest" "'cid RPCEvent"

datatype 'cid poll_answer = PollReady "'cid HandlerEvent" | PollNotReady | PollErr UpgrErr

text \<open>
  Each part of \<open>poll\<close> returns the handler with the answer of an early return, or \<open>None\<close> if polling goes on.
\<close>

type_synonym ('ins, 'snd, 'outs, 'dq, 'cid) poll_part =
  "(('ins, 'snd, 'outs, 'dq, 'cid) RPCHandler \<times> 'cid poll_answer option, unit) result"

definition error_event :: "RequestId \<Rightarrow> RPCError \<Rightarrow> 'cid poll_answer" where
  "error_event i e = PollReady (HandlerCustom (EventError i e))"

definition poll_pending_error ::
  "('ins, 'snd, 'outs, 'dq, 'cid) RPCHandler \<Rightarrow> ('ins, 'snd, 'outs, 'dq, 'cid) poll_part" where
  "poll_pending_error h =
    (case pending_error h of
       None \<Rightarrow> Ok (h, None)
     | Some (request_id, err) \<Rightarrow>
         let h = h\<lparr>pending_error := None\<rparr> in
         Ok (h, Some (case err of
           UpgradeApply e \<Rightarrow> error_event request_id e
         | UpgradeSelect e \<Rightarrow> error_event request_id (Custom e)
         | _ \<Rightarrow> error_event request_id (Custom ''Protocol negotiation timeout''))))"

definition poll_events_out ::
  "('ins, 'snd, 'outs, 'dq, 'cid) RPCHandler \<Rightarrow> ('ins, 'snd, 'outs, 'dq, 'cid) poll_part" where
  "poll_events_out h =
    (case events_out h of
       e # es \<Rightarrow> Ok (h\<lparr>events_out := es\<rparr>, Some (PollReady (HandlerCustom e)))
     | [] \<Rightarrow> Ok (h, None))"

definition expire_inbound ::
  "('ins, 'snd, 'outs, 'cid) rpc_io \<Rightarrow> ('ins, 'snd, 'outs, 'dq, 'cid) RPCHandler \<Rightarrow> RequestId \<Rightarrow>
   (('ins, 'snd, 'outs, 'dq, 'cid) RPCHandler, unit) result" where
  "expire_inbound io h i =
    (case inbound_substreams h i of
       Some (st, _) \<Rightarrow>
         and_then (close_inbound io st (case queued_outbound_items h i of Some items \<Rightarrow> items | None \<Rightarrow> [])) (\<lambda>(st, items).
           Ok (h\<lparr>inbound_substreams := (inbound_substreams h)(i \<mapsto> (st, None)),
                 queued_outbound_items := (queued_outbound_items h)(i \<mapsto> items)\<rparr>))
     | None \<Rightarrow> Ok h)"

partial_function (option) purge_inbound ::
  "('ins, 'snd, 'outs, 'cid) rpc_io \<Rightarrow> 'dq delay_queue \<Rightarrow> ('ins, 'snd, 'outs, 'dq, 'cid) RPCHandler \<Rightarrow>
   ('ins, 'snd, 'outs, 'dq, 'cid) poll_part option" where
  "purge_inbound io dq h =
    (case dq_poll dq (inbound_substreams_delay h) of
       (q, Inr (Ready (Some i))) \<Rightarrow>
         (case expire_inbound io (h\<lparr>inbound_substreams_delay := q\<rparr>) i of
            Ok h \<Rightarrow> purge_inbound io dq h
          | Err e \<Rightarrow> Some (Err e)
          | Panic \<Rightarrow> Some Panic)
     | (q, Inl e) \<Rightarrow> Some (Ok (h\<lparr>inbound_substreams_delay := q\<rparr>, Some (PollErr Timer)))
     | (q, Inr _) \<Rightarrow> Some (Ok (h\<lparr>inbound_substreams_delay := q\<rparr>, None)))"

definition purge_outbound ::
  "'dq delay_queue \<Rightarrow> ('ins, 'snd, 'outs, 'dq, 'cid) RPCHandler \<Rightarrow> ('ins, 'snd, 'outs, 'dq, 'cid) poll_part" where
  "purge_outbound dq h =
    (case dq_poll dq (outbound_substreams_delay h) of
       (q, Inr (Ready (Some i))) \<Rightarrow>
         Ok (h\<lparr>outbound_substreams_delay := q, outbound_substreams := (outbound_substreams h)(i := None)\<rparr>,
             Some (error_event i (Custom ''Stream timed out'')))
     | (q, Inl e) \<Rightarrow> Ok (h\<lparr>outbound_substreams_delay := q\<rparr>, Some (PollErr Timer))
     | (q, Inr _) \<Rightarrow> Ok (h\<lparr>outbound_substreams_delay := q\<rparr>, None))"

text \<open>\<open>apply_queued_responses\<close>: the new state, the queue, and whether there are new items to send.\<close>

definition apply_queued_responses ::
  "('ins, 'snd, 'outs, 'cid) rpc_io \<Rightarrow> 'ins \<Rightarrow> 'cid RPCErrorResponse list option \<Rightarrow>
   ('ins, 'snd) InboundSubstreamState \<times> 'cid RPCErrorResponse list option \<times> bool" where
  "apply_queued_responses io raw_substream queue =
    (case queue of
       Some (item # items) \<Rightarrow>
         (case item of
            StreamTermination _ \<Rightarrow> (InClosing raw_substream, Some items, True)
          | chunk \<Rightarrow> (ResponsePendingSend (in_send io raw_substream chunk) False, Some items, True))
     | _ \<Rightarrow> (ResponseIdle raw_substream, queue, False))"

definition set_inbound ::
  "RequestId \<Rightarrow> ('ins, 'snd) InboundSubstreamState \<Rightarrow> nat option \<Rightarrow> ('ins, 'snd, 'outs, 'dq, 'cid) RPCHandler \<Rightarrow>
   ('ins, 'snd, 'outs, 'dq, 'cid) RPCHandler" where
  "set_inbound i st key h = h\<lparr>inbound_substreams := (inbound_substreams h)(i \<mapsto> (st, key))\<rparr>"

definition set_outbound ::
  "RequestId \<Rightarrow> ('outs, 'cid) OutboundSubstreamState \<Rightarrow> nat \<Rightarrow> ('ins, 'snd, 'outs, 'dq, 'cid) RPCHandler \<Rightarrow>
   ('ins, 'snd, 'outs, 'dq, 'cid) RPCHandler" where
  "set_outbound i st key h = h\<lparr>outbound_substreams := (outbound_substreams h)(i \<mapsto> (st, key))\<rparr>"

text \<open>Dropping a substream with its timer; removing a timer that is not in the queue panics.\<close>

definition drop_inbound ::
  "'dq delay_queue \<Rightarrow> RequestId \<Rightarrow> nat option \<Rightarrow> ('ins, 'snd, 'outs, 'dq, 'cid) RPCHandler \<Rightarrow>
   (('ins, 'snd, 'outs, 'dq, 'cid) RPCHandler, unit) result" where
  "drop_inbound dq i key h =
    and_then (case key of
                Some delay_key \<Rightarrow> dq_remove dq (inbound_substreams_delay h) delay_key
              | None \<Rightarrow> Ok (inbound_substreams_delay h)) (\<lambda>q.
      Ok (h\<lparr>inbound_substreams_delay := q, inbound_substreams := (inbound_substreams h)(i := None)\<rparr>))"

definition drop_outbound ::
  "'dq delay_queue \<Rightarrow> RequestId \<Rightarrow> nat \<Rightarrow> ('ins, 'snd, 'outs, 'dq, 'cid) RPCHandler \<Rightarrow>
   (('ins, 'snd, 'outs, 'dq, 'cid) RPCHandler, unit) result" where
  "drop_outbound dq i delay_key h =
    and_then (dq_remove dq (outbound_substreams_delay h) delay_key) (\<lambda>q.
      Ok (h\<lparr>outbound_substreams_delay := q, outbound_substreams := (outbound_substreams h)(i := None)\<rparr>))"

text \<open>
  Driving one inbound substream, the inner loop of \<open>poll\<close>: it runs again as long as a queued item
  was taken, so it ends with the queue.
\<close>

function drive_inbound ::
  "('ins, 'snd, 'outs, 'cid) rpc_io \<Rightarrow> 'dq delay_queue \<Rightarrow> RequestId \<Rightarrow> ('ins, 'snd, 'outs, 'dq, 'cid) RPCHandler \<Rightarrow>
   ('ins, 'snd, 'outs, 'dq, 'cid) poll_part" where
  "drive_inbound io dq i h =
    (case inbound_substreams h i of
       None \<Rightarrow> Panic
     | Some (ResponsePendingSend substream closing, key) \<Rightarrow>
         (case in_send_poll io substream of
            (substream, Inr (Ready raw_substream)) \<Rightarrow>
              if closing then Ok (set_inbound i (InClosing raw_substream) key h, None)
              else
                (case apply_queued_responses io raw_substream (queued_outbound_items h i) of
                   (st, queue, new_items_to_send) \<Rightarrow>
                     let h' = (set_inbound i st key h)\<lparr>queued_outbound_items := (queued_outbound_items h)(i := queue)\<rparr> in
                     if new_items_to_send then drive_inbound io dq i h' else Ok (h', None))
          | (substream, Inr NotReady) \<Rightarrow> Ok (set_inbound i (ResponsePendingSend substream closing) key h, None)
          | (substream, Inl e) \<Rightarrow> and_then (drop_inbound dq i key h) (\<lambda>h. Ok (h, Some (error_event 0 e))))
     | Some (ResponseIdle substream, key) \<Rightarrow>
         (case apply_queued_responses io substream (queued_outbound_items h i) of
            (st, queue, new_items_to_send) \<Rightarrow>
              let h' = (set_inbound i st key h)\<lparr>queued_outbound_items := (queued_outbound_items h)(i := queue)\<rparr> in
              if new_items_to_send then drive_inbound io dq i h' else Ok (h', None))
     | Some (InClosing substream, key) \<Rightarrow>
         (case in_close io substream of
            (substream, Inr NotReady) \<Rightarrow> Ok (set_inbound i (InClosing substream) key h, None)
          | _ \<Rightarrow>
              and_then (drop_inbound dq i key (h\<lparr>queued_outbound_items := (queued_outbound_items h)(i := None)\<rparr>)) (\<lambda>h.
                Ok (h, None)))
     | Some (InPoisoned, key) \<Rightarrow> Panic)"
  by pat_completeness auto
termination
  by (relation "measure (\<lambda>(io, dq, i, h). length (case queued_outbound_items h i of Some items \<Rightarrow> items | None \<Rightarrow> []))")
    (auto simp: apply_queued_responses_def set_inbound_def split: option.splits list.splits RPCErrorResponse.splits)

declare drive_inbound.simps [simp del]

definition drive_outbound ::
  "('ins, 'snd, 'outs, 'cid) rpc_io \<Rightarrow> 'dq delay_queue \<Rightarrow> RequestId \<Rightarrow> ('ins, 'snd, 'outs, 'dq, 'cid) RPCHandler \<Rightarrow>
   ('ins, 'snd, 'outs, 'dq, 'cid) poll_part" where
  "drive_outbound io dq i h =
    (case outbound_substreams h i of
       None \<Rightarrow> Panic
     | Some (RequestPendingResponse substream request, delay_key) \<Rightarrow>
         (case out_poll io substream of
            (substream, Inr (Ready (Some response))) \<Rightarrow>
              and_then
                (if request_multiple request \<and> \<not> is_error response then
                   and_then (dq_reset dq (outbound_substreams_delay h) delay_key RESPONSE_TIMEOUT) (\<lambda>q.
                     Ok ((set_outbound i (RequestPendingResponse substream request) delay_key h)
                           \<lparr>outbound_substreams_delay := q\<rparr>))
                 else Ok (set_outbound i (OutClosing substream) delay_key h)) (\<lambda>h.
              Ok (h, Some (PollReady (HandlerCustom (Response i response)))))
          | (substream, Inr (Ready None)) \<Rightarrow>
              and_then (drop_outbound dq i delay_key h) (\<lambda>h.
                if request_multiple request then
                  and_then (stream_termination request) (\<lambda>t.
                    Ok (h, Some (PollReady (HandlerCustom (Response i (StreamTermination t))))))
                else Ok (h, Some (error_event i (Custom ''Stream closed early. Empty response''))))
          | (substream, Inr NotReady) \<Rightarrow>
              Ok (set_outbound i (RequestPendingResponse substream request) delay_key h, None)
          | (substream, Inl e) \<Rightarrow>
              and_then (drop_outbound dq i delay_key h) (\<lambda>h. Ok (h, Some (error_event i e))))
     | Some (OutClosing substream, delay_key) \<Rightarrow>
         (case out_close io substream of
            (substream, Inr NotReady) \<Rightarrow> Ok (set_outbound i (OutClosing substream) delay_key h, None)
          | _ \<Rightarrow> and_then (drop_outbound dq i delay_key h) (\<lambda>h. Ok (h, None)))
     | Some (OutPoisoned, delay_key) \<Rightarrow> Panic)"

text \<open>A part of \<open>poll\<close> that runs unless an earlier one returned, and the loop over substreams.\<close>

definition and_poll ::
  "('ins, 'snd, 'outs, 'dq, 'cid) poll_part \<Rightarrow>
   (('ins, 'snd, 'outs, 'dq, 'cid) RPCHandler \<Rightarrow> ('ins, 'snd, 'outs, 'dq, 'cid) poll_part) \<Rightarrow>
   ('ins, 'snd, 'outs, 'dq, 'cid) poll_part" where
  "and_poll m f = and_then m (\<lambda>(h, answer). case answer of Some a \<Rightarrow> Ok (h, Some a) | None \<Rightarrow> f h)"

primrec drive_all ::
  "(RequestId \<Rightarrow> ('ins, 'snd, 'outs, 'dq, 'cid) RPCHandler \<Rightarrow> ('ins, 'snd, 'outs, 'dq, 'cid) poll_part) \<Rightarrow>
   RequestId list \<Rightarrow> ('ins, 'snd, 'outs, 'dq, 'cid) RPCHandler \<Rightarrow> ('ins, 'snd, 'outs, 'dq, 'cid) poll_part" where
  "drive_all f [] h = Ok (h, None)"
| "drive_all f (i # is) h = and_poll (f i h) (drive_all f is)"

definition establish_outbound ::
  "bool \<Rightarrow> ('ins, 'snd, 'outs, 'dq, 'cid) RPCHandler \<Rightarrow> ('ins, 'snd, 'outs, 'dq, 'cid) poll_part" where
  "establish_outbound oc h =
    (case dial_queue h of
       rpc_event # queue \<Rightarrow>
         if dial_negotiated h < max_dial_negotiated h then
           and_then (add_w oc (dial_negotiated h) 1) (\<lambda>n.
             let h = h\<lparr>dial_negotiated := n, dial_queue := queue\<rparr> in
             case rpc_event of
               Request i req \<Rightarrow> Ok (h, Some (PollReady (OutboundSubstreamRequest req (Request i req))))
             | _ \<Rightarrow> Ok (h, None))
         else Ok (h, None)
     | [] \<Rightarrow> Ok (h, None))"

text \<open>
  \<open>poll\<close>, with the orders in which the substreams are visited. The value \<open>None\<close> would be a
  loop over expired timers that does not end.
\<close>

definition rpc_poll ::
  "bool \<Rightarrow> ('ins, 'snd, 'outs, 'cid) rpc_io \<Rightarrow> 'dq delay_queue \<Rightarrow> RequestId list \<Rightarrow> RequestId list \<Rightarrow>
   ('ins, 'snd, 'outs, 'dq, 'cid) RPCHandler \<Rightarrow>
   (('ins, 'snd, 'outs, 'dq, 'cid) RPCHandler \<times> 'cid poll_answer, unit) result option" where
  "rpc_poll oc io dq in_order out_order h =
    (let finish = map_ok (\<lambda>(h, answer). (h, case answer of Some a \<Rightarrow> a | None \<Rightarrow> PollNotReady)) in
     case and_poll (poll_pending_error h) poll_events_out of
       Ok (h, None) \<Rightarrow>
         map_option (\<lambda>purged. finish
           (and_poll (and_poll (and_poll (and_poll purged
              (purge_outbound dq))
              (\<lambda>h. drive_all (drive_inbound io dq) in_order h))
              (\<lambda>h. drive_all (drive_outbound io dq) out_order h))
              (establish_outbound oc)))
           (purge_inbound io dq h)
     | part \<Rightarrow> Some (finish part))"

subsection \<open>The swarm driving the handler\<close>

text \<open>
  What the swarm does with a handler: negotiated substreams, messages of the application, failed dials, and
  polling. The system is the handler with the dials in flight. An outcome is delivered only for
  a dial in flight; fewer than \<open>2 ^ 64\<close> inbound requests arrive on one connection.
\<close>

datatype ('ins, 'outs, 'cid) rpc_action =
  Inbound nat "'cid RPCRequest" 'ins | Outbound nat 'outs "'cid RPCEvent" | AppEvent "'cid RPCEvent"
| DialError "'cid RPCEvent" UpgrErr | Poll "RequestId list" "RequestId list"

type_synonym ('ins, 'snd, 'outs, 'dq, 'cid) rpc_system =
  "('ins, 'snd, 'outs, 'dq, 'cid) RPCHandler \<times> 'cid RPCEvent list"

definition visits :: "RequestId list \<Rightarrow> (RequestId \<rightharpoonup> 'a) \<Rightarrow> bool" where
  "visits order m \<longleftrightarrow> distinct order \<and> set order = dom m"

primrec rpc_enabled :: "('ins, 'snd, 'outs, 'dq, 'cid) rpc_system \<Rightarrow> ('ins, 'outs, 'cid) rpc_action \<Rightarrow> bool" where
  "rpc_enabled sys (Inbound now req substream) \<longleftrightarrow> unat (current_inbound_substream_id (fst sys)) + 1 < 2 ^ 64"
| "rpc_enabled sys (Outbound now substream e) \<longleftrightarrow> e \<in> set (snd sys)"
| "rpc_enabled sys (AppEvent e) \<longleftrightarrow> True"
| "rpc_enabled sys (DialError e err) \<longleftrightarrow> e \<in> set (snd sys)"
| "rpc_enabled sys (Poll in_order out_order) \<longleftrightarrow>
    visits in_order (inbound_substreams (fst sys)) \<and> visits out_order (outbound_substreams (fst sys))"

definition dialled :: "'cid poll_answer \<Rightarrow> 'cid RPCEvent list" where
  "dialled answer = (case answer of PollReady (OutboundSubstreamRequest req info) \<Rightarrow> [info] | _ \<Rightarrow> [])"

primrec rpc_exec ::
  "bool \<Rightarrow> ('ins, 'snd, 'outs, 'cid) rpc_io \<Rightarrow> 'dq delay_queue \<Rightarrow> ('ins, 'snd, 'outs, 'dq, 'cid) rpc_system \<Rightarrow>
   ('ins, 'outs, 'cid) rpc_action \<Rightarrow> (('ins, 'snd, 'outs, 'dq, 'cid) rpc_system, unit) result option" where
  "rpc_exec oc io dq sys (Inbound now req substream) =
    Some (map_ok (\<lambda>h. (h, snd sys)) (inject_fully_negotiated_inbound oc dq now (fst sys) req substream))"
| "rpc_exec oc io dq sys (Outbound now substream e) =
    Some (map_ok (\<lambda>h. (h, remove1 e (snd sys))) (inject_fully_negotiated_outbound oc dq now (fst sys) substream e))"
| "rpc_exec oc io dq sys (AppEvent e) = Some (map_ok (\<lambda>h. (h, snd sys)) (inject_event io (fst sys) e))"
| "rpc_exec oc io dq sys (DialError e err) =
    Some (map_ok (\<lambda>h. (h, remove1 e (snd sys))) (inject_dial_upgrade_error oc (fst sys) e err))"
| "rpc_exec oc io dq sys (Poll in_order out_order) =
    map_option (map_ok (\<lambda>(h, answer). (h, snd sys @ dialled answer))) (rpc_poll oc io dq in_order out_order (fst sys))"

inductive rpc_steps ::
  "bool \<Rightarrow> ('ins, 'snd, 'outs, 'cid) rpc_io \<Rightarrow> 'dq delay_queue \<Rightarrow> ('ins, 'snd, 'outs, 'dq, 'cid) rpc_system \<Rightarrow>
   ('ins, 'snd, 'outs, 'dq, 'cid) rpc_system \<Rightarrow> bool"
  for oc io dq where
  rpc_refl: "rpc_steps oc io dq sys sys"
| rpc_step: "rpc_steps oc io dq sys sys' \<Longrightarrow> rpc_enabled sys' a \<Longrightarrow> rpc_exec oc io dq sys' a = Some (Ok sys'') \<Longrightarrow>
    rpc_steps oc io dq sys sys''"

primrec rpc_run ::
  "bool \<Rightarrow> ('ins, 'snd, 'outs, 'cid) rpc_io \<Rightarrow> 'dq delay_queue \<Rightarrow> ('ins, 'snd, 'outs, 'dq, 'cid) rpc_system \<Rightarrow>
   ('ins, 'outs, 'cid) rpc_action list \<Rightarrow> (('ins, 'snd, 'outs, 'dq, 'cid) rpc_system, unit) result option" where
  "rpc_run oc io dq sys [] = Some (Ok sys)"
| "rpc_run oc io dq sys (a # as) =
    (case rpc_exec oc io dq sys a of Some (Ok sys') \<Rightarrow> rpc_run oc io dq sys' as | other \<Rightarrow> other)"

text \<open>A request of the application whose dial fails: it is queued, dialled, fails, and the failure is reported.\<close>

definition failed_dial :: "RequestId \<times> 'cid RPCRequest \<Rightarrow> ('ins, 'outs, 'cid) rpc_action list" where
  "failed_dial = (\<lambda>(i, r). [AppEvent (Request i r), Poll [] [], DialError (Request i r) Timeout, Poll [] []])"

subsection \<open>The contract of timer queues\<close>

definition conn_ok :: "('dq \<Rightarrow> nat \<rightharpoonup> RequestId) \<Rightarrow> ('ins, 'snd, 'outs, 'dq, 'cid) RPCHandler \<Rightarrow> bool" where
  "conn_ok \<alpha> h \<longleftrightarrow>
    (\<forall>i st key. inbound_substreams h i = Some (st, key) \<longrightarrow>
      st \<noteq> InPoisoned \<and> (\<forall>k. key = Some k \<longrightarrow> \<alpha> (inbound_substreams_delay h) k = Some i)) \<and>
    (\<forall>i st k. outbound_substreams h i = Some (st, k) \<longrightarrow>
      st \<noteq> OutPoisoned \<and> \<alpha> (outbound_substreams_delay h) k = Some i)"

primrec is_request :: "'cid RPCEvent \<Rightarrow> bool" where
  "is_request (Request i r) = True"
| "is_request (Response i r) = False"
| "is_request (EventError i e) = False"

definition dial_ok :: "('ins, 'snd, 'outs, 'dq, 'cid) rpc_system \<Rightarrow> bool" where
  "dial_ok sys \<longleftrightarrow>
    length (snd sys) \<le> unat (dial_negotiated (fst sys)) \<and> dial_negotiated (fst sys) \<le> 8 \<and>
    max_dial_negotiated (fst sys) = 8 \<and> list_all is_request (dial_queue (fst sys)) \<and>
    list_all is_request (snd sys) \<and> outbound_io_error_retries (fst sys) < IO_ERROR_RETRIES"

definition same_dial ::
  "('ins, 'snd, 'outs, 'dq, 'cid) RPCHandler \<Rightarrow> ('ins, 'snd, 'outs, 'dq, 'cid) RPCHandler \<Rightarrow> bool" where
  "same_dial h h' \<longleftrightarrow> dial_queue h' = dial_queue h \<and> dial_negotiated h' = dial_negotiated h \<and>
    max_dial_negotiated h' = max_dial_negotiated h \<and> outbound_io_error_retries h' = outbound_io_error_retries h"

definition no_dial :: "'cid poll_answer option \<Rightarrow> bool" where
  "no_dial answer \<longleftrightarrow> (\<forall>a. answer = Some a \<longrightarrow> dialled a = [])"

lemma same_dial_trans: "same_dial h1 h2 \<Longrightarrow> same_dial h2 h3 \<Longrightarrow> same_dial h1 h3"
  by (simp add: same_dial_def)

lemma no_dial_simps [simp]: "no_dial None" "no_dial (Some (error_event i e))" "no_dial (Some (PollErr err))"
  "no_dial (Some (PollReady (HandlerCustom ev)))"
  by (simp_all add: no_dial_def dialled_def error_event_def)

lemma and_poll_simps [simp]:
  "and_poll (Ok (h, None)) f = f h" "and_poll (Ok (h, Some a)) f = Ok (h, Some a)"
  by (simp_all add: and_poll_def)

lemma respond_ok: "st \<noteq> InPoisoned \<Longrightarrow> \<exists>st' q. respond io st r queue = Ok (st', q) \<and> st' \<noteq> InPoisoned"
  by (cases st; cases r) (auto simp: respond_def)

lemma close_inbound_ok: "st \<noteq> InPoisoned \<Longrightarrow> \<exists>st' q. close_inbound io st queue = Ok (st', q) \<and> st' \<noteq> InPoisoned"
  by (cases st) (auto simp: close_inbound_def Let_def split: prod.splits sum.splits async.splits option.splits)

lemma apply_queued_ok: "apply_queued_responses io raw queue = (st, q, b) \<Longrightarrow> st \<noteq> InPoisoned"
  by (auto simp: apply_queued_responses_def split: option.splits list.splits RPCErrorResponse.splits)

lemma conn_ok_inD:
  assumes "conn_ok \<alpha> h" "inbound_substreams h i = Some (st, key)"
  shows "st \<noteq> InPoisoned" "key = Some k \<Longrightarrow> \<alpha> (inbound_substreams_delay h) k = Some i"
  using assms unfolding conn_ok_def by blast+

lemma conn_ok_outD:
  assumes "conn_ok \<alpha> h" "outbound_substreams h i = Some (st, k)"
  shows "st \<noteq> OutPoisoned" "\<alpha> (outbound_substreams_delay h) k = Some i"
  using assms unfolding conn_ok_def by blast+

lemma conn_ok_inbound:
  "conn_ok \<alpha> h \<Longrightarrow> st \<noteq> InPoisoned \<Longrightarrow> (\<And>k. key = Some k \<Longrightarrow> \<alpha> (inbound_substreams_delay h) k = Some i) \<Longrightarrow>
   conn_ok \<alpha> (set_inbound i st key h)"
  unfolding conn_ok_def set_inbound_def by (auto split: if_splits)

lemma conn_ok_outbound:
  "conn_ok \<alpha> h \<Longrightarrow> st \<noteq> OutPoisoned \<Longrightarrow> \<alpha> (outbound_substreams_delay h) k = Some i \<Longrightarrow>
   conn_ok \<alpha> (set_outbound i st k h)"
  unfolding conn_ok_def set_outbound_def by (auto split: if_splits)

lemma conn_ok_cong:
  "inbound_substreams h' = inbound_substreams h \<Longrightarrow> outbound_substreams h' = outbound_substreams h \<Longrightarrow>
   \<alpha> (inbound_substreams_delay h') = \<alpha> (inbound_substreams_delay h) \<Longrightarrow>
   \<alpha> (outbound_substreams_delay h') = \<alpha> (outbound_substreams_delay h) \<Longrightarrow> conn_ok \<alpha> h' = conn_ok \<alpha> h"
  by (simp add: conn_ok_def)

definition queued :: "RequestId \<Rightarrow> ('ins, 'snd, 'outs, 'dq, 'cid) RPCHandler \<Rightarrow> nat" where
  "queued i h = length (case queued_outbound_items h i of Some items \<Rightarrow> items | None \<Rightarrow> [])"

text \<open>
  What a part of \<open>poll\<close> that drives one substream guarantees: it returns, keeps the invariant of
  connections and the dials, opens no substream, and leaves the other substreams alone.
\<close>

definition drive_post ::
  "('dq \<Rightarrow> nat \<rightharpoonup> RequestId) \<Rightarrow> (('ins, 'snd, 'outs, 'dq, 'cid) RPCHandler \<Rightarrow> RequestId \<rightharpoonup> 'x) \<Rightarrow>
   (('ins, 'snd, 'outs, 'dq, 'cid) RPCHandler \<Rightarrow> RequestId \<rightharpoonup> 'y) \<Rightarrow> RequestId \<Rightarrow>
   ('ins, 'snd, 'outs, 'dq, 'cid) RPCHandler \<Rightarrow> ('ins, 'snd, 'outs, 'dq, 'cid) poll_part \<Rightarrow> bool" where
  "drive_post \<alpha> these others i h m \<longleftrightarrow>
    (\<exists>h' a. m = Ok (h', a) \<and> conn_ok \<alpha> h' \<and> same_dial h h' \<and> no_dial a \<and> others h' = others h \<and>
      (\<forall>j. j \<noteq> i \<longrightarrow> these h' j = these h j))"

text \<open>A handler with nothing to do, and the slots for dials that no dial in flight will give back.\<close>

definition quiet :: "('dq \<Rightarrow> nat \<rightharpoonup> RequestId) \<Rightarrow> ('ins, 'snd, 'outs, 'dq, 'cid) RPCHandler \<Rightarrow> bool" where
  "quiet \<alpha> h \<longleftrightarrow> pending_error h = None \<and> events_out h = [] \<and> dial_queue h = [] \<and> max_dial_negotiated h = 8 \<and>
    inbound_substreams h = Map.empty \<and> outbound_substreams h = Map.empty \<and>
    \<alpha> (inbound_substreams_delay h) = Map.empty \<and> \<alpha> (outbound_substreams_delay h) = Map.empty"

text \<open>What any part of \<open>poll\<close> but the last guarantees.\<close>

definition part_ok ::
  "('dq \<Rightarrow> nat \<rightharpoonup> RequestId) \<Rightarrow> ('ins, 'snd, 'outs, 'dq, 'cid) RPCHandler \<Rightarrow> ('ins, 'snd, 'outs, 'dq, 'cid) poll_part \<Rightarrow> bool" where
  "part_ok \<alpha> h m \<longleftrightarrow> (\<exists>h' a. m = Ok (h', a) \<and> conn_ok \<alpha> h' \<and> same_dial h h' \<and> no_dial a)"

lemma part_ok_poll:
  assumes "part_ok \<alpha> h m" "\<And>h'. m = Ok (h', None) \<Longrightarrow> conn_ok \<alpha> h' \<Longrightarrow> part_ok \<alpha> h' (f h')"
  shows "part_ok \<alpha> h (and_poll m f)"
proof -
  obtain h' a where m: "m = Ok (h', a)" "conn_ok \<alpha> h'" "same_dial h h'" "no_dial a" using assms(1) by (auto simp: part_ok_def)
  with assms(2) [of h'] show ?thesis
    by (cases a) (auto simp: part_ok_def and_poll_def intro: same_dial_trans)
qed

lemma drive_all_ok:
  assumes "\<And>i h. conn_ok \<alpha> h \<Longrightarrow> i \<in> dom (these h) \<Longrightarrow> drive_post \<alpha> these others i h (f i h)"
    and "conn_ok \<alpha> h" "distinct is" "set is \<subseteq> dom (these h)"
  shows "part_ok \<alpha> h (drive_all f is h)"
    and "drive_all f is h = Ok (h', a) \<Longrightarrow> others h' = others h"
  using assms(2-)
proof (induction "is" arbitrary: h)
  case (Cons i js)
  { case 1
    obtain h1 a1 where d: "f i h = Ok (h1, a1)" "conn_ok \<alpha> h1" "same_dial h h1" "no_dial a1"
      "\<forall>j. j \<noteq> i \<longrightarrow> these h1 j = these h j"
      using assms(1) [of h i] 1 by (auto simp: drive_post_def)
    moreover have "set js \<subseteq> dom (these h1)" using 1 d(5) by (fastforce simp: domIff)
    ultimately show ?case
      using Cons(1) [of h1] 1 by (auto intro!: part_ok_poll simp: part_ok_def [of _ _ "Ok _"]) }
  { case 2
    obtain h1 a1 where d: "f i h = Ok (h1, a1)" "conn_ok \<alpha> h1" "others h1 = others h"
      "\<forall>j. j \<noteq> i \<longrightarrow> these h1 j = these h j"
      using assms(1) [of h i] 2 by (auto simp: drive_post_def)
    moreover have "set js \<subseteq> dom (these h1)" using 2 d(4) by (fastforce simp: domIff)
    ultimately show ?case
      using Cons(2) [of h1] 2 by (auto simp: and_poll_def split: option.splits) }
qed (auto simp: part_ok_def same_dial_def)

locale delay_contract =
  fixes dq :: "'dq delay_queue"
    and \<alpha> :: "'dq \<Rightarrow> nat \<rightharpoonup> RequestId"
  assumes new: "\<alpha> (dq_new dq) = Map.empty"
    and finite_timers: "finite (dom (\<alpha> q))"
    and insert: "dq_insert dq q i d = (q', k) \<Longrightarrow> \<alpha> q k = None \<and> \<alpha> q' = (\<alpha> q)(k \<mapsto> i)"
    and remove: "\<alpha> q k = Some i \<Longrightarrow> \<exists>q'. dq_remove dq q k = Ok q' \<and> \<alpha> q' = (\<alpha> q)(k := None)"
    and reset: "\<alpha> q k = Some i \<Longrightarrow> \<exists>q'. dq_reset dq q k d = Ok q' \<and> \<alpha> q' = \<alpha> q"
    and poll_expired: "dq_poll dq q = (q', Inr (Ready (Some i))) \<Longrightarrow> \<exists>k. \<alpha> q k = Some i \<and> \<alpha> q' = (\<alpha> q)(k := None)"
    and poll_failed: "dq_poll dq q = (q', Inl e) \<Longrightarrow> \<alpha> q' = \<alpha> q"
    and poll_waiting: "dq_poll dq q = (q', Inr NotReady) \<Longrightarrow> \<alpha> q' = \<alpha> q"
    and poll_none: "dq_poll dq q = (q', Inr (Ready None)) \<Longrightarrow> \<alpha> q' = \<alpha> q"
    and poll_empty: "\<alpha> q = Map.empty \<Longrightarrow> \<exists>q'. dq_poll dq q = (q', Inr (Ready None))"
begin

lemma drop_inbound_ok:
  assumes ok: "conn_ok \<alpha> h" and i: "inbound_substreams h i = Some (st, key)"
  shows "\<exists>h'. drop_inbound dq i key h = Ok h' \<and> conn_ok \<alpha> h' \<and> same_dial h h' \<and>
    inbound_substreams h' = (inbound_substreams h)(i := None) \<and> outbound_substreams h' = outbound_substreams h \<and>
    queued_outbound_items h' = queued_outbound_items h"
proof (cases key)
  case None
  then show ?thesis using ok by (auto simp: drop_inbound_def same_dial_def conn_ok_def)
next
  case (Some k)
  then have "\<alpha> (inbound_substreams_delay h) k = Some i" using ok i unfolding conn_ok_def by blast
  then obtain q where q: "dq_remove dq (inbound_substreams_delay h) k = Ok q"
    "\<alpha> q = (\<alpha> (inbound_substreams_delay h))(k := None)" using remove by blast
  have "k' \<noteq> k" if "inbound_substreams h j = Some (st', Some k')" "j \<noteq> i" for j st' k'
    using conn_ok_inD(2) [OF ok that(1)] conn_ok_inD(2) [OF ok i] that(2) Some by auto
  then show ?thesis
    using ok q Some by (auto simp: drop_inbound_def same_dial_def conn_ok_def)
qed

lemma drop_outbound_ok:
  assumes ok: "conn_ok \<alpha> h" and i: "outbound_substreams h i = Some (st, k)"
  shows "\<exists>h'. drop_outbound dq i k h = Ok h' \<and> conn_ok \<alpha> h' \<and> same_dial h h' \<and>
    outbound_substreams h' = (outbound_substreams h)(i := None) \<and> inbound_substreams h' = inbound_substreams h"
proof -
  have "\<alpha> (outbound_substreams_delay h) k = Some i" using ok i unfolding conn_ok_def by blast
  then obtain q where q: "dq_remove dq (outbound_substreams_delay h) k = Ok q"
    "\<alpha> q = (\<alpha> (outbound_substreams_delay h))(k := None)" using remove by blast
  have "k' \<noteq> k" if "outbound_substreams h j = Some (st', k')" "j \<noteq> i" for j st' k'
    using conn_ok_outD(2) [OF ok that(1)] conn_ok_outD(2) [OF ok i] that(2) by auto
  then show ?thesis
    using ok q by (auto simp: drop_outbound_def same_dial_def conn_ok_def)
qed

lemma drive_queued_ok:
  fixes h :: "('ins, 'snd, 'outs, 'dq, 'cid) RPCHandler"
  assumes ok: "conn_ok \<alpha> h" and i: "inbound_substreams h i = Some (st0, key)"
    and IH: "\<And>h' :: ('ins, 'snd, 'outs, 'dq, 'cid) RPCHandler. queued i h' < queued i h \<Longrightarrow> conn_ok \<alpha> h' \<Longrightarrow>
      i \<in> dom (inbound_substreams h') \<Longrightarrow> drive_post \<alpha> inbound_substreams outbound_substreams i h' (drive_inbound io dq i h')"
    and ap: "apply_queued_responses io raw (queued_outbound_items h i) = (st, queue, b)"
    and h': "h' = (set_inbound i st key h)\<lparr>queued_outbound_items := (queued_outbound_items h)(i := queue)\<rparr>"
  shows "drive_post \<alpha> inbound_substreams outbound_substreams i h (if b then drive_inbound io dq i h' else Ok (h', None))"
proof -
  have st: "st \<noteq> InPoisoned" by (rule apply_queued_ok [OF ap])
  have "conn_ok \<alpha> (set_inbound i st key h)" using conn_ok_inbound [OF ok st] conn_ok_inD(2) [OF ok i] by blast
  then have ok': "conn_ok \<alpha> h'" unfolding h' by (simp add: conn_ok_def)
  have fr: "same_dial h h'" "outbound_substreams h' = outbound_substreams h" "i \<in> dom (inbound_substreams h')"
    "\<And>j. j \<noteq> i \<Longrightarrow> inbound_substreams h' j = inbound_substreams h j"
    by (simp_all add: h' set_inbound_def same_dial_def)
  show ?thesis
  proof (cases b)
    case True
    then have "queued i h' < queued i h"
      using ap by (auto simp: h' queued_def apply_queued_responses_def split: option.splits list.splits RPCErrorResponse.splits)
    from IH [OF this ok' fr(3)] show ?thesis
      using True fr same_dial_trans by (fastforce simp: drive_post_def)
  qed (use ok' fr in \<open>simp add: drive_post_def\<close>)
qed

lemma drive_inbound_ok:
  assumes "conn_ok \<alpha> h" "i \<in> dom (inbound_substreams h)"
  shows "drive_post \<alpha> inbound_substreams outbound_substreams i h (drive_inbound io dq i h)"
  using assms
proof (induction "queued i h" arbitrary: h rule: less_induct)
  case less
  obtain st key where i: "inbound_substreams h i = Some (st, key)" using less.prems(2) by auto
  note ok = less.prems(1)
  note st = conn_ok_inD [OF ok i]
  note again = drive_queued_ok [OF ok i less.hyps]
  have set: "drive_post \<alpha> inbound_substreams outbound_substreams i h (Ok (set_inbound i st' key h, None))"
    if "st' \<noteq> InPoisoned" for st'
    using conn_ok_inbound [OF ok that st(2)] by (simp add: drive_post_def set_inbound_def same_dial_def)
  obtain h1 where drop: "drop_inbound dq i key h = Ok h1" "conn_ok \<alpha> h1" "same_dial h h1"
    "inbound_substreams h1 = (inbound_substreams h)(i := None)" "outbound_substreams h1 = outbound_substreams h"
    using drop_inbound_ok [OF ok i] by blast
  let ?h = "h\<lparr>queued_outbound_items := (queued_outbound_items h)(i := None)\<rparr>"
  have "conn_ok \<alpha> ?h" "inbound_substreams ?h i = Some (st, key)" using ok i by (simp_all add: conn_ok_def)
  then obtain h2 where drop2: "drop_inbound dq i key ?h = Ok h2" "conn_ok \<alpha> h2" "same_dial h h2"
    "inbound_substreams h2 = (inbound_substreams h)(i := None)" "outbound_substreams h2 = outbound_substreams h"
    using drop_inbound_ok [of ?h i st key] by (auto simp: same_dial_def)
  have dropped: "drive_post \<alpha> inbound_substreams outbound_substreams i h (Ok (h1, Some (error_event 0 e)))"
    "drive_post \<alpha> inbound_substreams outbound_substreams i h (Ok (h2, None))" for e
    using drop drop2 by (simp_all add: drive_post_def)
  show ?case
  proof (cases st)
    case (ResponsePendingSend substream closing)
    then show ?thesis
      using i set drop(1) dropped(1) again
      by (subst drive_inbound.simps) (auto simp: Let_def split: prod.splits sum.splits async.splits)
  next
    case (ResponseIdle substream)
    then show ?thesis
      using i again by (subst drive_inbound.simps) (auto simp: Let_def split: prod.splits)
  next
    case (InClosing substream)
    then show ?thesis
      using i set drop2(1) dropped(2)
      by (subst drive_inbound.simps) (auto split: prod.splits sum.splits async.splits)
  qed (use st in simp)
qed

lemma drive_outbound_ok:
  assumes ok: "conn_ok \<alpha> h" and "i \<in> dom (outbound_substreams h)"
  shows "drive_post \<alpha> outbound_substreams inbound_substreams i h (drive_outbound io dq i h)"
proof -
  obtain st k where i: "outbound_substreams h i = Some (st, k)" using assms(2) by auto
  note st = conn_ok_outD [OF ok i]
  obtain h' where drop: "drop_outbound dq i k h = Ok h'" "conn_ok \<alpha> h'" "same_dial h h'"
    "outbound_substreams h' = (outbound_substreams h)(i := None)" "inbound_substreams h' = inbound_substreams h"
    using drop_outbound_ok [OF ok i] by blast
  obtain q where q: "dq_reset dq (outbound_substreams_delay h) k RESPONSE_TIMEOUT = Ok q"
    "\<alpha> q = \<alpha> (outbound_substreams_delay h)" using reset [OF st(2)] by blast
  have set: "conn_ok \<alpha> (set_outbound i st' k h)" "same_dial h (set_outbound i st' k h)"
    "conn_ok \<alpha> ((set_outbound i st' k h)\<lparr>outbound_substreams_delay := q\<rparr>)"
    "same_dial h ((set_outbound i st' k h)\<lparr>outbound_substreams_delay := q\<rparr>)" if "st' \<noteq> OutPoisoned" for st'
    using conn_ok_outbound [OF ok that st(2)] q(2) by (simp_all add: same_dial_def set_outbound_def conn_ok_def)
  have fr: "inbound_substreams (set_outbound i st' k h) = inbound_substreams h"
    "j \<noteq> i \<Longrightarrow> outbound_substreams (set_outbound i st' k h) j = outbound_substreams h j" for st' j
    by (simp_all add: set_outbound_def)
  show ?thesis
  proof (cases st)
    case (RequestPendingResponse substream request)
    then show ?thesis
      using i drop q set fr
      by (auto simp: drive_outbound_def drive_post_def split: prod.splits sum.splits async.splits option.splits)
  next
    case (OutClosing substream)
    then show ?thesis
      using i drop set fr
      by (auto simp: drive_outbound_def drive_post_def split: prod.splits sum.splits async.splits)
  qed (use st in simp)
qed

lemma expire_inbound_ok:
  assumes ok: "conn_ok \<alpha> h" and k: "\<alpha> (inbound_substreams_delay h) k = Some i" and q: "\<alpha> q = (\<alpha> (inbound_substreams_delay h))(k := None)"
  shows "\<exists>h'. expire_inbound io (h\<lparr>inbound_substreams_delay := q\<rparr>) i = Ok h' \<and> conn_ok \<alpha> h' \<and> same_dial h h' \<and>
    inbound_substreams_delay h' = q \<and> outbound_substreams h' = outbound_substreams h \<and>
    dom (inbound_substreams h') = dom (inbound_substreams h)"
proof -
  have live: "\<alpha> q k' = Some j" if "inbound_substreams h j = Some (st, Some k')" "j \<noteq> i" for j st k'
    using conn_ok_inD(2) [OF ok that(1)] that(2) k q by auto
  have outs: "outbound_substreams h j = Some (st, k') \<Longrightarrow> st \<noteq> OutPoisoned \<and> \<alpha> (outbound_substreams_delay h) k' = Some j" for j st k'
    using conn_ok_outD [OF ok] by blast
  have ins: "inbound_substreams h j = Some (st, key) \<Longrightarrow> st \<noteq> InPoisoned" for j st key
    using conn_ok_inD(1) [OF ok] by blast
  show ?thesis
  proof (cases "inbound_substreams h i")
    case None
    then show ?thesis using live ins outs by (fastforce simp: expire_inbound_def conn_ok_def same_dial_def)
  next
    case (Some e)
    obtain st key where e: "e = (st, key)" by fastforce
    obtain st' items where "close_inbound io st (case queued_outbound_items h i of Some items \<Rightarrow> items | None \<Rightarrow> []) = Ok (st', items)"
      "st' \<noteq> InPoisoned" using close_inbound_ok [OF ins] Some e by metis
    then show ?thesis
      using Some e live ins outs by (auto simp: expire_inbound_def conn_ok_def same_dial_def)
  qed
qed

lemma purge_inbound_ok:
  assumes "conn_ok \<alpha> h"
  shows "\<exists>m. purge_inbound io dq h = Some m \<and> part_ok \<alpha> h m \<and>
    (\<forall>h' a. m = Ok (h', a) \<longrightarrow> outbound_substreams h' = outbound_substreams h \<and> dom (inbound_substreams h') = dom (inbound_substreams h))"
  using assms
proof (induction "card (dom (\<alpha> (inbound_substreams_delay h)))" arbitrary: h rule: less_induct)
  case less
  obtain q r where poll: "dq_poll dq (inbound_substreams_delay h) = (q, r)" by fastforce
  have keep: "part_ok \<alpha> h (Ok (h\<lparr>inbound_substreams_delay := q\<rparr>, a))" if "\<alpha> q = \<alpha> (inbound_substreams_delay h)" "no_dial a" for a
    using less.prems that by (simp add: part_ok_def conn_ok_def same_dial_def)
  consider i where "r = Inr (Ready (Some i))" | e where "r = Inl e" | "r = Inr NotReady" | "r = Inr (Ready None)"
    by (metis async.exhaust option.exhaust sum.exhaust)
  then show ?case
  proof cases
    case 1
    then obtain k where k: "\<alpha> (inbound_substreams_delay h) k = Some i" "\<alpha> q = (\<alpha> (inbound_substreams_delay h))(k := None)"
      using poll poll_expired by blast
    obtain h' where h': "expire_inbound io (h\<lparr>inbound_substreams_delay := q\<rparr>) i = Ok h'" "conn_ok \<alpha> h'" "same_dial h h'"
      "inbound_substreams_delay h' = q" "outbound_substreams h' = outbound_substreams h" "dom (inbound_substreams h') = dom (inbound_substreams h)"
      using expire_inbound_ok [OF less.prems k] by blast
    have "card (dom (\<alpha> q)) < card (dom (\<alpha> (inbound_substreams_delay h)))"
      using k finite_timers by (auto intro!: psubset_card_mono)
    with less.hyps [of h'] h' obtain m where m: "purge_inbound io dq h' = Some m" "part_ok \<alpha> h' m"
      "\<forall>h'' a. m = Ok (h'', a) \<longrightarrow> outbound_substreams h'' = outbound_substreams h' \<and> dom (inbound_substreams h'') = dom (inbound_substreams h')"
      by auto
    then have "part_ok \<alpha> h m" using h'(3) same_dial_trans by (fastforce simp: part_ok_def)
    then show ?thesis
      using m h' 1 poll by (subst purge_inbound.simps) simp
  next
    case 2
    then show ?thesis using poll keep poll_failed [of "inbound_substreams_delay h" q] by (subst purge_inbound.simps) simp
  next
    case 3
    then show ?thesis using poll keep poll_waiting by (subst purge_inbound.simps) simp
  next
    case 4
    then show ?thesis using poll keep poll_none by (subst purge_inbound.simps) simp
  qed
qed

lemma purge_outbound_ok:
  assumes ok: "conn_ok \<alpha> h"
  shows "part_ok \<alpha> h (purge_outbound dq h)"
    and "purge_outbound dq h = Ok (h', None) \<Longrightarrow>
      inbound_substreams h' = inbound_substreams h \<and> outbound_substreams h' = outbound_substreams h"
proof -
  obtain q r where poll: "dq_poll dq (outbound_substreams_delay h) = (q, r)" by fastforce
  have keep: "part_ok \<alpha> h (Ok (h\<lparr>outbound_substreams_delay := q\<rparr>, a))" if "\<alpha> q = \<alpha> (outbound_substreams_delay h)" "no_dial a" for a
    using ok that by (simp add: part_ok_def conn_ok_def same_dial_def)
  show "part_ok \<alpha> h (purge_outbound dq h)"
  proof (cases "\<exists>i. r = Inr (Ready (Some i))")
    case True
    then obtain i k where k: "r = Inr (Ready (Some i))" "\<alpha> (outbound_substreams_delay h) k = Some i"
      "\<alpha> q = (\<alpha> (outbound_substreams_delay h))(k := None)"
      using poll poll_expired by blast
    have "st \<noteq> OutPoisoned \<and> \<alpha> q k' = Some j" if "outbound_substreams h j = Some (st, k')" "j \<noteq> i" for j st k'
      using conn_ok_outD [OF ok that(1)] that(2) k by auto
    then show ?thesis
      using ok poll k(1) by (auto simp: purge_outbound_def part_ok_def conn_ok_def same_dial_def)
  next
    case False
    then show ?thesis
      using poll keep poll_failed poll_waiting poll_none
      by (auto simp: purge_outbound_def split: sum.splits async.splits option.splits)
  qed
  show "purge_outbound dq h = Ok (h', None) \<Longrightarrow>
      inbound_substreams h' = inbound_substreams h \<and> outbound_substreams h' = outbound_substreams h"
    by (auto simp: purge_outbound_def split: prod.splits sum.splits async.splits option.splits)
qed

lemma establish_ok:
  assumes "conn_ok \<alpha> h" "dial_ok (h, ds)"
  shows "\<exists>h' a. establish_outbound oc h = Ok (h', a) \<and> conn_ok \<alpha> h' \<and>
    dial_ok (h', ds @ (case a of Some a \<Rightarrow> dialled a | None \<Rightarrow> [])) \<and>
    unat (dial_negotiated h') = unat (dial_negotiated h) + length (case a of Some a \<Rightarrow> dialled a | None \<Rightarrow> [])"
proof (cases "dial_queue h")
  case (Cons e es)
  then obtain i req where e: "e = Request i req" using assms(2) by (cases e) (auto simp: dial_ok_def)
  show ?thesis
  proof (cases "dial_negotiated h < 8")
    case True
    then have n: "unat (dial_negotiated h) < 8" by (simp add: word_less_nat_alt)
    then have u: "unat (dial_negotiated h + 1) = unat (dial_negotiated h) + 1" by (simp add: unat_word_ariths)
    have "add_w oc (dial_negotiated h) 1 = (Ok (dial_negotiated h + 1) :: (u32, unit) result)"
      using n by (intro add_w_Ok) simp
    moreover have "dial_negotiated h + 1 \<le> 8" using n u by (simp add: word_le_nat_alt)
    ultimately show ?thesis
      using assms Cons e True u by (auto simp: establish_outbound_def dial_ok_def dialled_def conn_ok_def)
  qed (use assms Cons in \<open>auto simp: establish_outbound_def dial_ok_def\<close>)
qed (use assms in \<open>auto simp: establish_outbound_def\<close>)

lemma dial_ok_same: "same_dial h h' \<Longrightarrow> dial_ok (h, ds) \<Longrightarrow> dial_ok (h', ds)"
  by (simp add: same_dial_def dial_ok_def)

lemma early_ok:
  assumes "conn_ok \<alpha> h"
  shows "part_ok \<alpha> h (and_poll (poll_pending_error h) poll_events_out)"
    and "and_poll (poll_pending_error h) poll_events_out = Ok (h', None) \<Longrightarrow> h' = h"
  using assms
  by (auto simp: and_poll_def poll_pending_error_def poll_events_out_def part_ok_def conn_ok_def same_dial_def Let_def
      split: option.splits list.splits UpgrErr.splits)

lemma inbound_drives:
  assumes "conn_ok \<alpha> h" "visits order (inbound_substreams h)"
  shows "part_ok \<alpha> h (drive_all (drive_inbound io dq) order h)"
    and "drive_all (drive_inbound io dq) order h = Ok (h', a) \<Longrightarrow> outbound_substreams h' = outbound_substreams h"
proof -
  have o: "distinct order" "set order \<subseteq> dom (inbound_substreams h)" using assms(2) by (simp_all add: visits_def)
  note all = drive_all_ok [where these = inbound_substreams and f = "drive_inbound io dq" and others = outbound_substreams, OF _ assms(1) o]
  show "part_ok \<alpha> h (drive_all (drive_inbound io dq) order h)" by (rule all(1)) (rule drive_inbound_ok)
  show "drive_all (drive_inbound io dq) order h = Ok (h', a) \<Longrightarrow> outbound_substreams h' = outbound_substreams h"
    by (rule all(2)) (rule drive_inbound_ok)
qed

lemma outbound_drives:
  assumes "conn_ok \<alpha> h" "visits order (outbound_substreams h)"
  shows "part_ok \<alpha> h (drive_all (drive_outbound io dq) order h)"
proof -
  have o: "distinct order" "set order \<subseteq> dom (outbound_substreams h)" using assms(2) by (simp_all add: visits_def)
  show ?thesis
    by (rule drive_all_ok(1) [where these = outbound_substreams and others = inbound_substreams, OF _ assms(1) o]) (rule drive_outbound_ok)
qed

lemma drives_ok:
  assumes "conn_ok \<alpha> h" "visits in_order (inbound_substreams h)" "visits out_order (outbound_substreams h)"
  shows "part_ok \<alpha> h (and_poll (drive_all (drive_inbound io dq) in_order h) (drive_all (drive_outbound io dq) out_order))"
proof (rule part_ok_poll [OF inbound_drives(1) [OF assms(1,2)]])
  fix h'
  assume h': "drive_all (drive_inbound io dq) in_order h = Ok (h', None)" "conn_ok \<alpha> h'"
  have "visits out_order (outbound_substreams h')" using inbound_drives(2) [OF assms(1,2) h'(1)] assms(3) by simp
  then show "part_ok \<alpha> h' (drive_all (drive_outbound io dq) out_order h')" by (rule outbound_drives [OF h'(2)])
qed

lemma and_poll_assoc: "and_poll (and_poll m f) g = and_poll m (\<lambda>h. and_poll (f h) g)"
  by (cases m) (auto simp: and_poll_def split: option.splits)

lemma poll_ok:
  assumes ok: "conn_ok \<alpha> h" and dial: "dial_ok (h, ds)"
    and v: "visits in_order (inbound_substreams h)" "visits out_order (outbound_substreams h)"
  shows "\<exists>h' a. rpc_poll oc io dq in_order out_order h = Some (Ok (h', a)) \<and> conn_ok \<alpha> h' \<and> dial_ok (h', ds @ dialled a) \<and>
    unat (dial_negotiated h') = unat (dial_negotiated h) + length (dialled a)"
proof (cases "\<exists>h'. and_poll (poll_pending_error h) poll_events_out = Ok (h', None)")
  case True
  then have early: "and_poll (poll_pending_error h) poll_events_out = Ok (h, None)" using early_ok(2) [OF ok] by auto
  obtain m where m: "purge_inbound io dq h = Some m" "part_ok \<alpha> h m"
    "\<And>h' a. m = Ok (h', a) \<Longrightarrow> outbound_substreams h' = outbound_substreams h \<and> dom (inbound_substreams h') = dom (inbound_substreams h)"
    using purge_inbound_ok [OF ok] by blast
  let ?m = "and_poll (and_poll m (purge_outbound dq))
    (\<lambda>h. and_poll (drive_all (drive_inbound io dq) in_order h) (drive_all (drive_outbound io dq) out_order))"
  have "part_ok \<alpha> h ?m"
    unfolding and_poll_assoc
  proof (rule part_ok_poll [OF m(2)])
    fix h1
    assume h1: "m = Ok (h1, None)" "conn_ok \<alpha> h1"
    show "part_ok \<alpha> h1 (and_poll (purge_outbound dq h1)
      (\<lambda>h. and_poll (drive_all (drive_inbound io dq) in_order h) (drive_all (drive_outbound io dq) out_order)))"
    proof (rule part_ok_poll [OF purge_outbound_ok(1) [OF h1(2)]])
      fix h2
      assume h2: "purge_outbound dq h1 = Ok (h2, None)" "conn_ok \<alpha> h2"
      show "part_ok \<alpha> h2 (and_poll (drive_all (drive_inbound io dq) in_order h2) (drive_all (drive_outbound io dq) out_order))"
        using drives_ok [OF h2(2)] v purge_outbound_ok(2) [OF h1(2) h2(1)] m(3) [OF h1(1)] by (simp add: visits_def)
    qed
  qed
  then obtain h' a where "?m = Ok (h', a)" "conn_ok \<alpha> h'" "same_dial h h'" "no_dial a" by (auto simp: part_ok_def)
  moreover from this establish_ok [OF this(2) dial_ok_same [OF this(3) dial], of oc]
  obtain h2 a2 where "establish_outbound oc h' = Ok (h2, a2)" "conn_ok \<alpha> h2" "dial_ok (h2, ds @ (case a2 of Some a \<Rightarrow> dialled a | None \<Rightarrow> []))"
    "unat (dial_negotiated h2) = unat (dial_negotiated h') + length (case a2 of Some a \<Rightarrow> dialled a | None \<Rightarrow> [])"
    by blast
  ultimately show ?thesis
    using early m(1) dial_ok_same [OF _ dial]
    by (cases a; cases a2) (auto simp: rpc_poll_def and_poll_assoc [symmetric] no_dial_def dialled_def [of PollNotReady] same_dial_def)
next
  case False
  with early_ok(1) [OF ok] obtain h' a where "and_poll (poll_pending_error h) poll_events_out = Ok (h', Some a)"
    "conn_ok \<alpha> h'" "same_dial h h'" "dialled a = []"
    unfolding part_ok_def no_dial_def by (metis not_None_eq)
  then show ?thesis using dial_ok_same [OF _ dial] by (auto simp: rpc_poll_def same_dial_def)
qed

lemma inbound_ok:
  assumes ok: "conn_ok \<alpha> h" and n: "unat (current_inbound_substream_id h) + 1 < 2 ^ 64"
  shows "\<exists>h'. inject_fully_negotiated_inbound oc dq now h req substream = Ok h' \<and> conn_ok \<alpha> h' \<and> same_dial h h'"
proof -
  obtain q k where q: "dq_insert dq (inbound_substreams_delay h) (current_inbound_substream_id h) RESPONSE_TIMEOUT = (q, k)"
    by fastforce
  note ins = insert [OF q]
  have live: "\<alpha> q k' = Some j" if "inbound_substreams h j = Some (st, Some k')" for j st k'
    using conn_ok_inD(2) [OF ok that] ins by auto
  have "add_w oc (current_inbound_substream_id h) 1 = (Ok (current_inbound_substream_id h + 1) :: (u64, unit) result)"
    using n by (intro add_w_Ok) simp
  then show ?thesis
    using ok q ins live
    by (cases req; cases "keep_alive h") (auto simp: inject_fully_negotiated_inbound_def conn_ok_def same_dial_def Let_def)
qed

lemma outbound_ok:
  fixes h :: "('ins, 'snd, 'outs, 'dq, 'cid) RPCHandler"
  assumes ok: "conn_ok \<alpha> h" and dial: "dial_ok (h, ds)" and e: "e \<in> set ds"
  shows "\<exists>h'. inject_fully_negotiated_outbound oc dq now h out e = Ok h' \<and> conn_ok \<alpha> h' \<and> dial_ok (h', remove1 e ds) \<and>
    unat (dial_negotiated h') = unat (dial_negotiated h) - 1"
proof -
  have pos: "0 < length ds" using e by auto
  moreover have "length ds \<le> unat (dial_negotiated h)" using dial by (simp add: dial_ok_def)
  ultimately have "1 \<le> unat (dial_negotiated h)" by linarith
  then have n: "1 \<le> dial_negotiated h" by (simp add: word_le_nat_alt)
  then have u: "unat (dial_negotiated h - 1) = unat (dial_negotiated h) - 1" by (simp add: unat_sub)
  have sub: "sub_w oc (dial_negotiated h) 1 = (Ok (dial_negotiated h - 1) :: (u32, unit) result)"
    by (rule sub_w_Ok [OF n])
  have "unat (dial_negotiated h) \<le> 8" using dial by (simp add: dial_ok_def word_le_nat_alt)
  with u have "dial_negotiated h - 1 \<le> 8" unfolding word_le_nat_alt by simp
  then have d: "dial_ok (h', remove1 e ds)" if "dial_negotiated h' = dial_negotiated h - 1" "dial_queue h' = dial_queue h"
    "max_dial_negotiated h' = max_dial_negotiated h" "outbound_io_error_retries h' = outbound_io_error_retries h"
    for h' :: "('ins, 'snd, 'outs, 'dq, 'cid) RPCHandler"
    using dial that u e by (auto simp: dial_ok_def length_remove1 list_all_iff dest: notin_set_remove1 set_remove1_subset [THEN subsetD])
  obtain i r where r: "e = Request i r" using dial e by (cases e) (auto simp: dial_ok_def list_all_iff)
  obtain q k where q: "dq_insert dq (outbound_substreams_delay h) i RESPONSE_TIMEOUT = (q, k)" by fastforce
  note ins = insert [OF q]
  have live: "st \<noteq> OutPoisoned \<and> \<alpha> q k' = Some j" if "outbound_substreams h j = Some (st, k')" for j st k'
    using conn_ok_outD [OF ok that] ins by auto
  show ?thesis
    using ok sub q ins live d u unfolding r
    by (cases "expect_response r") (auto simp: inject_fully_negotiated_outbound_def conn_ok_def Let_def)
qed

lemma event_ok:
  assumes ok: "conn_ok \<alpha> h" and dial: "dial_ok (h, ds)"
  shows "\<exists>h'. inject_event io h e = Ok h' \<and> conn_ok \<alpha> h' \<and> dial_ok (h', ds) \<and> dial_negotiated h' = dial_negotiated h"
proof (cases e)
  case (Response i r)
  show ?thesis
  proof (cases "inbound_substreams h i")
    case (Some s)
    obtain st key where s: "s = (st, key)" by fastforce
    note st = conn_ok_inD [OF ok Some [unfolded s]]
    obtain st' q where "respond io st r (queued_outbound_items h i) = Ok (st', q)" "st' \<noteq> InPoisoned"
      using respond_ok [OF st(1)] by blast
    with conn_ok_inbound [OF ok this(2) st(2)] show ?thesis
      using Response Some s dial by (auto simp: inject_event_def set_inbound_def conn_ok_def dial_ok_def)
  qed (use Response ok dial in \<open>simp add: inject_event_def\<close>)
qed (use ok dial in \<open>auto simp: inject_event_def send_request_def conn_ok_def dial_ok_def\<close>)

lemma dial_error_ok:
  assumes ok: "conn_ok \<alpha> h" and dial: "dial_ok (h, ds)" and e: "e \<in> set ds"
  shows "\<exists>h'. inject_dial_upgrade_error oc h e err = Ok h' \<and> conn_ok \<alpha> h' \<and> dial_ok (h', remove1 e ds) \<and>
    dial_negotiated h' = dial_negotiated h"
proof -
  have r: "unat (outbound_io_error_retries h) < 3" using dial by (simp add: dial_ok_def IO_ERROR_RETRIES_def word_less_nat_alt)
  then have add: "add_w oc (outbound_io_error_retries h) 1 = (Ok (outbound_io_error_retries h + 1) :: (u8, unit) result)"
    by (intro add_w_Ok) simp
  have req: "is_request e" using dial e by (auto simp: dial_ok_def list_all_iff)
  have d: "list_all is_request (remove1 e ds)" "length (remove1 e ds) \<le> unat (dial_negotiated h)"
    using dial by (auto simp: dial_ok_def list_all_iff length_remove1 dest: set_remove1_subset [THEN subsetD])
  show ?thesis
    using ok dial req d add
    by (cases err rule: UpgrErr.exhaust; (cases "\<exists>x. err = UpgradeApply (IoError x)")?)
      (auto simp: inject_dial_upgrade_error_def send_request_def conn_ok_def dial_ok_def Let_def IO_ERROR_RETRIES_def
        split: RPCError.splits)
qed

lemma exec_ok:
  assumes "conn_ok \<alpha> (fst sys)" "dial_ok sys" "rpc_enabled sys a"
  shows "\<exists>sys'. rpc_exec oc io dq sys a = Some (Ok sys') \<and> conn_ok \<alpha> (fst sys') \<and> dial_ok sys'"
proof -
  obtain h ds where sys: "sys = (h, ds)" by fastforce
  show ?thesis
  proof (cases a)
    case (Inbound now req substream)
    then show ?thesis
      using inbound_ok [of h oc now req substream] dial_ok_same [of h _ ds] assms sys by auto
  next
    case (Outbound now substream e)
    then show ?thesis using outbound_ok [of h ds e oc now substream] assms sys by auto
  next
    case (AppEvent e)
    then show ?thesis using event_ok [of h ds io e] assms sys by auto
  next
    case (DialError e err)
    then show ?thesis using dial_error_ok [of h ds e oc err] assms sys by auto
  next
    case (Poll in_order out_order)
    then show ?thesis using poll_ok [of h ds in_order out_order oc io] assms sys by auto
  qed
qed

lemma init_ok: "conn_ok \<alpha> (rpc_new dq t)" "dial_ok (rpc_new dq t, [])"
  by (simp_all add: conn_ok_def rpc_new_def dial_ok_def IO_ERROR_RETRIES_def)

lemma steps_ok:
  assumes "rpc_steps oc io dq sys sys'" "conn_ok \<alpha> (fst sys)" "dial_ok sys"
  shows "conn_ok \<alpha> (fst sys') \<and> dial_ok sys'"
  using assms
proof (induction rule: rpc_steps.induct)
  case (rpc_step sys sys' a sys'')
  then show ?case using exec_ok [of sys' a oc io] by auto
qed simp

text \<open>Polling a handler without substreams and timers only opens a substream for the first queued request.\<close>

lemma poll_quiet:
  assumes "pending_error h = None" "events_out h = []" "\<alpha> (inbound_substreams_delay h) = Map.empty"
    "\<alpha> (outbound_substreams_delay h) = Map.empty"
  shows "\<exists>q q'. \<alpha> q = Map.empty \<and> \<alpha> q' = Map.empty \<and> rpc_poll oc io dq [] [] h =
    Some (map_ok (\<lambda>(h, answer). (h, case answer of Some a \<Rightarrow> a | None \<Rightarrow> PollNotReady))
      (establish_outbound oc (h\<lparr>inbound_substreams_delay := q, outbound_substreams_delay := q'\<rparr>)))"
proof -
  obtain q where q: "dq_poll dq (inbound_substreams_delay h) = (q, Inr (Ready None))" using poll_empty assms(3) by blast
  obtain q' where q': "dq_poll dq (outbound_substreams_delay h) = (q', Inr (Ready None))" using poll_empty assms(4) by blast
  have "purge_inbound io dq h = Some (Ok (h\<lparr>inbound_substreams_delay := q\<rparr>, None))"
    using q by (subst purge_inbound.simps) simp
  then show ?thesis
    using assms q q' poll_none [OF q] poll_none [OF q']
    by (intro exI [of _ q] exI [of _ q'])
      (simp add: rpc_poll_def poll_pending_error_def poll_events_out_def purge_outbound_def)
qed

lemma failed_dial_quiet:
  assumes quiet: "quiet \<alpha> h" and n: "dial_negotiated h < 8"
  shows "\<exists>h'. rpc_run oc io dq (h, []) (failed_dial (i, r)) = Some (Ok (h', [])) \<and> rpc_steps oc io dq (h, []) (h', []) \<and>
    quiet \<alpha> h' \<and> dial_negotiated h' = dial_negotiated h + 1"
proof -
  have add: "add_w oc (dial_negotiated h) 1 = (Ok (dial_negotiated h + 1) :: (u32, unit) result)"
    using n by (intro add_w_Ok) (simp add: word_less_nat_alt)
  let ?e = "Request i r" and ?h1 = "send_request h (Request i r)"
  obtain q q' where q: "\<alpha> q = Map.empty" "\<alpha> q' = Map.empty" "rpc_poll oc io dq [] [] ?h1 =
    Some (map_ok (\<lambda>(h, answer). (h, case answer of Some a \<Rightarrow> a | None \<Rightarrow> PollNotReady))
      (establish_outbound oc (?h1\<lparr>inbound_substreams_delay := q, outbound_substreams_delay := q'\<rparr>)))"
    using poll_quiet [of ?h1 oc io] quiet by (auto simp: send_request_def quiet_def)
  let ?h2 = "?h1\<lparr>inbound_substreams_delay := q, outbound_substreams_delay := q', dial_negotiated := dial_negotiated h + 1, dial_queue := []\<rparr>"
  let ?h3 = "?h2\<lparr>outbound_io_error_retries := 0, pending_error := Some (i, Timeout)\<rparr>"
  let ?h4 = "?h2\<lparr>outbound_io_error_retries := 0\<rparr>"
  have e1: "rpc_exec oc io dq (h, []) (AppEvent ?e) = Some (Ok (?h1, []))" by (simp add: inject_event_def)
  have e2: "rpc_exec oc io dq (?h1, []) (Poll [] []) = Some (Ok (?h2, [?e]))"
    using q(3) quiet add n by (simp add: establish_outbound_def send_request_def quiet_def dialled_def)
  have e3: "rpc_exec oc io dq (?h2, [?e]) (DialError ?e Timeout) = Some (Ok (?h3, []))"
    using quiet by (simp add: inject_dial_upgrade_error_def send_request_def quiet_def)
  have e4: "rpc_exec oc io dq (?h3, []) (Poll [] []) = Some (Ok (?h4, []))"
    using quiet by (simp add: rpc_poll_def poll_pending_error_def error_event_def dialled_def send_request_def quiet_def)
  have v: "rpc_enabled (h', ds) (Poll [] [])" if "inbound_substreams h' = Map.empty" "outbound_substreams h' = Map.empty" for h' ds
    using that by (simp add: visits_def)
  have "rpc_steps oc io dq (h, []) (?h4, [])"
    by (rule rpc_step [OF rpc_step [OF rpc_step [OF rpc_step [OF rpc_refl _ e1] v e2] _ e3] v e4])
      (use quiet in \<open>simp_all add: send_request_def quiet_def\<close>)
  moreover have "rpc_run oc io dq (h, []) (failed_dial (i, r)) = Some (Ok (?h4, []))"
    using e1 e2 e3 e4 by (simp add: failed_dial_def del: rpc_exec.simps)
  moreover have "quiet \<alpha> ?h4" using quiet q(1,2) by (simp add: quiet_def send_request_def)
  ultimately show ?thesis by (intro exI [of _ ?h4]) simp
qed

lemma rpc_steps_trans: "rpc_steps oc io dq' b c \<Longrightarrow> rpc_steps oc io dq' a b \<Longrightarrow> rpc_steps oc io dq' a c"
  by (induction rule: rpc_steps.induct) (auto intro: rpc_step)

lemma rpc_run_append:
  "rpc_run oc io dq sys (as @ bs) = (case rpc_run oc io dq sys as of Some (Ok sys') \<Rightarrow> rpc_run oc io dq sys' bs | other \<Rightarrow> other)"
  by (induction as arbitrary: sys) (auto split: option.splits result.splits)

lemma failed_dials_quiet:
  assumes "quiet \<alpha> h" "unat (dial_negotiated h) + length rs \<le> 8"
  shows "\<exists>h'. rpc_run oc io dq (h, []) (concat (map failed_dial rs)) = Some (Ok (h', [])) \<and>
    rpc_steps oc io dq (h, []) (h', []) \<and> quiet \<alpha> h' \<and> unat (dial_negotiated h') = unat (dial_negotiated h) + length rs"
  using assms
proof (induction rs arbitrary: h)
  case (Cons r rs)
  obtain i req where r: "r = (i, req)" by fastforce
  have n: "dial_negotiated h < 8" using Cons.prems(2) by (simp add: word_less_nat_alt)
  obtain h1 where h1: "rpc_run oc io dq (h, []) (failed_dial r) = Some (Ok (h1, []))" "rpc_steps oc io dq (h, []) (h1, [])"
    "quiet \<alpha> h1" "dial_negotiated h1 = dial_negotiated h + 1"
    using failed_dial_quiet [OF Cons.prems(1) n] unfolding r by blast
  have "unat (dial_negotiated h1) = unat (dial_negotiated h) + 1"
    using n h1(4) by (simp add: unat_word_ariths word_less_nat_alt)
  with Cons.IH [OF h1(3)] Cons.prems(2) h1(1) rpc_steps_trans [OF _ h1(2)] show ?case
    by (fastforce simp: rpc_run_append)
qed (simp add: rpc_refl)

lemma no_slot_no_dial:
  assumes "conn_ok \<alpha> h" "dial_ok (h, [])" "dial_negotiated h = 8" "rpc_enabled (h, []) a"
    and "rpc_exec oc io dq (h, []) a = Some (Ok (h', ds))"
  shows "dial_negotiated h' = 8 \<and> ds = []"
proof (cases a)
  case (Inbound now req substream)
  then show ?thesis using inbound_ok [OF assms(1), of oc now req substream] assms(3-5) by (auto simp: same_dial_def)
next
  case (AppEvent e)
  then show ?thesis using event_ok [OF assms(1,2), of io e] assms(3,5) by auto
next
  case (Poll in_order out_order)
  then obtain b where b: "dial_ok (h', dialled b)" "unat (dial_negotiated h') = 8 + length (dialled b)" "ds = dialled b"
    using poll_ok [OF assms(1,2), of in_order out_order oc io] assms(3-5) by auto
  have "unat (dial_negotiated h') \<le> 8" using b(1) by (simp add: dial_ok_def word_le_nat_alt)
  with b have "dialled b = []" "unat (dial_negotiated h') = unat (8 :: u32)" by simp_all
  with b(3) show ?thesis using unsigned_word_eqI by blast
qed (use assms(4) in auto)

lemma no_slot_steps:
  assumes "rpc_steps oc io dq sys sys'" "conn_ok \<alpha> (fst sys)" "dial_ok sys" "dial_negotiated (fst sys) = 8" "snd sys = []"
  shows "dial_negotiated (fst sys') = 8 \<and> snd sys' = []"
  using assms
proof (induction rule: rpc_steps.induct)
  case (rpc_step sys sys' a sys'')
  then have "dial_negotiated (fst sys') = 8" "snd sys' = []" by blast+
  moreover have "conn_ok \<alpha> (fst sys')" "dial_ok sys'" using steps_ok [OF rpc_step.hyps(1)] rpc_step.prems by blast+
  ultimately show ?case
    using no_slot_no_dial [of "fst sys'" a oc io "fst sys''" "snd sys''"] rpc_step.hyps(2,3) by (cases sys'; cases sys'') simp
qed simp

end

text \<open>
  Concrete instances: a timer queue in which every timer has expired when it is polled, oldest first, and substreams that
  are always ready.
\<close>

definition expired_queue :: "(nat \<times> RequestId) list delay_queue" where
  "expired_queue =
    \<lparr>dq_new = [],
     dq_insert = (\<lambda>es i d. let k = Suc (sum_list (map fst es)) in (es @ [(k, i)], k)),
     dq_remove = (\<lambda>es k. if k \<in> fst ` set es then Ok (filter (\<lambda>e. fst e \<noteq> k) es) else Panic),
     dq_reset = (\<lambda>es k d. if k \<in> fst ` set es then Ok es else Panic),
     dq_poll = (\<lambda>es. case es of [] \<Rightarrow> ([], Inr (Ready None))
       | (k, i) # es' \<Rightarrow> (filter (\<lambda>e. fst e \<noteq> k) es', Inr (Ready (Some i))))\<rparr>"

definition ready_io :: "(unit, unit, unit, 'cid) rpc_io" where
  "ready_io =
    \<lparr>in_send = (\<lambda>_ _. ()), in_send_poll = (\<lambda>_. ((), Inr (Ready ()))), in_poll = (\<lambda>_. ((), Inr NotReady)),
     in_close = (\<lambda>_. ((), Inr (Ready ()))), out_poll = (\<lambda>_. ((), Inr (Ready None))), out_close = (\<lambda>_. ((), Inr (Ready ())))\<rparr>"

lemma fresh_key: "map_of es (Suc (sum_list (map fst es))) = None"
proof -
  have "k \<le> sum_list (map fst es)" if "k \<in> fst ` set es" for k
    using that member_le_sum_list [of k "map fst es"] by simp
  then show ?thesis by (fastforce simp: map_of_eq_None_iff)
qed

lemma map_of_snoc_fresh: "map_of es k = None \<Longrightarrow> map_of (es @ [(k, i)]) = (map_of es)(k \<mapsto> i)"
  by (auto simp: map_add_def fun_eq_iff split: option.splits)

interpretation expired: delay_contract expired_queue map_of
proof unfold_locales
  fix q q' :: "(nat \<times> RequestId) list" and i d k
  assume "dq_insert expired_queue q i d = (q', k)"
  then show "map_of q k = None \<and> map_of q' = (map_of q)(k \<mapsto> i)"
    using fresh_key [of q] map_of_snoc_fresh [OF fresh_key [of q], of i] by (auto simp: expired_queue_def Let_def)
next
  fix q :: "(nat \<times> RequestId) list" and k i
  assume "map_of q k = Some i"
  then have "k \<in> fst ` set q" by (force dest: map_of_SomeD)
  then show "\<exists>q'. dq_remove expired_queue q k = Ok q' \<and> map_of q' = (map_of q)(k := None)"
    and "\<exists>q'. dq_reset expired_queue q k d = Ok q' \<and> map_of q' = map_of q" for d
    by (simp_all add: expired_queue_def map_of_filter_key)
qed (auto simp: expired_queue_def map_of_filter_key finite_dom_map_of split: list.splits prod.splits)

subsection \<open>Properties\<close>

text \<open>
  C2: The handler never fails: in every state the swarm can bring it to, whatever the network and the timers do,
  every event that can happen next is handled without a panic, polling returns (the loops over expired timers and
  queued responses end), and at most eight dials are in flight.
\<close>

theorem rpc_handler_safe:
  assumes "delay_contract dq \<alpha>" "rpc_steps oc io dq (rpc_new dq t, []) sys" "rpc_enabled sys a"
  shows "\<exists>sys'. rpc_exec oc io dq sys a = Some (Ok sys') \<and> length (snd sys') \<le> 8"
proof -
  have "conn_ok \<alpha> (fst sys)" "dial_ok sys"
    using delay_contract.steps_ok [OF assms(1,2)] delay_contract.init_ok [OF assms(1)] by auto
  from delay_contract.exec_ok [OF assms(1) this assms(3), of oc io] show ?thesis
    by (fastforce simp: dial_ok_def word_le_nat_alt)
qed

theorem rpc_handler_safe_witness:
  "\<exists>sys'. rpc_exec True (ready_io :: (unit, unit, unit, nat) rpc_io) expired_queue (rpc_new expired_queue 30, [])
      (Inbound 0 (ReqBlockSync \<lparr>bs_start = [], bs_length = 1, bs_options = 0\<rparr>) ()) = Some (Ok sys') \<and> length (snd sys') \<le> 8"
  by (rule rpc_handler_safe [OF expired.delay_contract_axioms rpc_refl]) (simp add: rpc_new_def)

text \<open>
  C22: Failed dials use up the handler: a failed dial does not give back its slot, so after eight requests
  whose dials fail, no later request is ever dialled, whatever happens on the connection.
\<close>

theorem rpc_dial_slots_lost:
  assumes "delay_contract dq \<alpha>" "length rs = 8"
  shows "\<exists>h. rpc_run oc io dq (rpc_new dq t, []) (concat (map failed_dial rs)) = Some (Ok (h, [])) \<and>
    rpc_steps oc io dq (rpc_new dq t, []) (h, []) \<and>
    (\<forall>sys. rpc_steps oc io dq (h, []) sys \<longrightarrow> snd sys = [])"
proof -
  have "quiet \<alpha> (rpc_new dq t)" using delay_contract.new [OF assms(1)] by (simp add: quiet_def rpc_new_def)
  then obtain h where h: "rpc_run oc io dq (rpc_new dq t, []) (concat (map failed_dial rs)) = Some (Ok (h, []))"
    "rpc_steps oc io dq (rpc_new dq t, []) (h, [])" "unat (dial_negotiated h) = unat (8 :: u32)"
    using delay_contract.failed_dials_quiet [OF assms(1), of "rpc_new dq t" rs oc io] assms(2) by (auto simp: rpc_new_def)
  moreover have "conn_ok \<alpha> h" "dial_ok (h, [])"
    using delay_contract.steps_ok [OF assms(1) h(2)] delay_contract.init_ok [OF assms(1)] by auto
  ultimately show ?thesis
    using delay_contract.no_slot_steps [OF assms(1)] unsigned_word_eqI [OF h(3)] by fastforce
qed

theorem rpc_dial_slots_lost_witness:
  "\<exists>h. rpc_run True ready_io expired_queue (rpc_new expired_queue 30, [])
      (concat (map failed_dial (replicate 8 (1, ReqStatus \<lparr>heaviest_tip_set = [], heaviest_tip_set_weight = 0, genesis_hash = 0 :: nat\<rparr>)))) =
      Some (Ok (h, [])) \<and> (\<forall>sys. rpc_steps True ready_io expired_queue (h, []) sys \<longrightarrow> snd sys = [])"
  using rpc_dial_slots_lost [OF expired.delay_contract_axioms,
      of "replicate 8 (1, ReqStatus \<lparr>heaviest_tip_set = [], heaviest_tip_set_weight = 0, genesis_hash = 0 :: nat\<rparr>)" True ready_io 30]
  by fastforce

end
