(* ===== verification/Gas.thy ===== *)
theory Gas
  imports Sector Piece Message
begin

text \<open>
  Gas prices of the virtual machine (\<open>src/vm/src/gas.rs\<close>, \<open>gas_v0.rs\<close>): the price list, the price of each
  operation, the table of price lists by epoch and the lookup of the list for an epoch.

  Gas is a big integer. The table is a static hash map with one entry; the lookup takes the table, as the list of its
  entries, as an argument.
\<close>

record PricelistV0 =
  on_chain_message_base :: int
  on_chain_message_per_byte :: int
  on_chain_return_value_per_byte :: int
  send_base :: int
  send_transfer_funds :: int
  send_invoke_method :: int
  ipld_get_base :: int
  ipld_get_per_byte :: int
  ipld_put_base :: int
  ipld_put_per_byte :: int
  create_actor_base :: int
  create_actor_extra :: int
  delete_actor :: int
  hashing_base :: int
  hashing_per_byte :: int
  compute_unsealed_sector_cid_base :: int
  verify_seal_base :: int
  verify_post_base :: int
  verify_consensus_fault :: int

definition MethodSend :: u64 where "MethodSend = 0"

definition on_chain_message :: "PricelistV0 \<Rightarrow> u64 \<Rightarrow> int" where
  "on_chain_message pl msg_size = on_chain_message_base pl + on_chain_message_per_byte pl * uint msg_size"

definition on_chain_return_value :: "PricelistV0 \<Rightarrow> u64 \<Rightarrow> int" where
  "on_chain_return_value pl data_size = uint data_size * on_chain_return_value_per_byte pl"

definition on_method_invocation :: "PricelistV0 \<Rightarrow> int \<Rightarrow> u64 \<Rightarrow> int" where
  "on_method_invocation pl value method_num =
    (let invocation = send_base pl;
         invocation = (if value \<noteq> 0 then invocation + send_transfer_funds pl else invocation) in
     if method_num \<noteq> MethodSend then invocation + send_invoke_method pl else invocation)"

definition on_ipld_get :: "PricelistV0 \<Rightarrow> u64 \<Rightarrow> int" where
  "on_ipld_get pl data_size = ipld_get_base pl + uint data_size * ipld_get_per_byte pl"

definition on_ipld_put :: "PricelistV0 \<Rightarrow> u64 \<Rightarrow> int" where
  "on_ipld_put pl data_size = ipld_put_base pl + uint data_size * ipld_put_per_byte pl"

definition on_create_actor :: "PricelistV0 \<Rightarrow> int" where
  "on_create_actor pl = create_actor_base pl + create_actor_extra pl"

definition on_delete_actor :: "PricelistV0 \<Rightarrow> int" where
  "on_delete_actor pl = delete_actor pl"

definition on_verify_signature :: "PricelistV0 \<Rightarrow> SignatureType \<Rightarrow> u64 \<Rightarrow> int" where
  "on_verify_signature pl ty plan_text_size =
    (let gas_for = (\<lambda>s :: u64. 3 * uint s + 2) in
     case ty of SigBls \<Rightarrow> gas_for plan_text_size | SigSecp256k1 \<Rightarrow> gas_for plan_text_size)"

definition on_hashing :: "PricelistV0 \<Rightarrow> u64 \<Rightarrow> int" where
  "on_hashing pl data_size = hashing_base pl + uint data_size * hashing_per_byte pl"

definition on_compute_unsealed_sector_cid :: "PricelistV0 \<Rightarrow> RegisteredProof \<Rightarrow> 'cid PieceInfo list \<Rightarrow> int" where
  "on_compute_unsealed_sector_cid pl proof_type pieces = compute_unsealed_sector_cid_base pl"

definition on_verify_seal :: "PricelistV0 \<Rightarrow> 'cid SealVerifyInfo \<Rightarrow> int" where
  "on_verify_seal pl info = verify_seal_base pl"

definition on_verify_post :: "PricelistV0 \<Rightarrow> 'cid WindowPoStVerifyInfo \<Rightarrow> int" where
  "on_verify_post pl info = verify_post_base pl"

definition on_verify_consensus_fault :: "PricelistV0 \<Rightarrow> int" where
  "on_verify_consensus_fault pl = verify_consensus_fault pl"

definition PRICES :: "(int \<times> PricelistV0) list" where
  "PRICES =
    [(0, \<lparr>on_chain_message_base = 0, on_chain_message_per_byte = 2, on_chain_return_value_per_byte = 8,
          send_base = 5, send_transfer_funds = 5, send_invoke_method = 10,
          ipld_get_base = 10, ipld_get_per_byte = 1, ipld_put_base = 20, ipld_put_per_byte = 2,
          create_actor_base = 40, create_actor_extra = 500, delete_actor = -500,
          hashing_base = 5, hashing_per_byte = 2, compute_unsealed_sector_cid_base = 100,
          verify_seal_base = 2000, verify_post_base = 700, verify_consensus_fault = 10\<rparr>)]"

text \<open>\<open>max().unwrap_or(&0)\<close> over the filtered keys, and \<open>expect\<close> on the lookup.\<close>

definition best_epoch :: "(int \<times> 'p) list \<Rightarrow> int \<Rightarrow> int" where
  "best_epoch prices epoch =
    (case filter (\<lambda>e. e > 0 \<and> e \<le> epoch) (map fst prices) of [] \<Rightarrow> 0 | e # es \<Rightarrow> fold max es e)"

definition pricelist_by_epoch :: "(int \<times> 'p) list \<Rightarrow> int \<Rightarrow> ('p, 'e) result" where
  "pricelist_by_epoch prices epoch =
    (case map_of prices (best_epoch prices epoch) of Some p \<Rightarrow> Ok p | None \<Rightarrow> Panic)"

lemma fold_max: "fold max es e = Max (set (e # es))" for e :: int
  by (simp only: Max.set_eq_fold)

text \<open>
  The lookup of prices: in any table with prices for epoch 0 and none for negative epochs it returns, for every epoch from 0 on, the
  prices of the latest epoch of the table that is not later, and in the static table it returns a price list
  for every epoch, under which creating and then deleting an actor costs its base price.
\<close>

lemma pricelist_latest:
  assumes "distinct (map fst prices)" "0 \<in> fst ` set prices" "\<forall>e \<in> fst ` set prices. 0 \<le> e" "0 \<le> epoch"
  shows "(\<exists>e p. pricelist_by_epoch prices epoch = (Ok p :: ('p, 'e) result) \<and> (e, p) \<in> set prices \<and> e \<le> epoch \<and>
      (\<forall>e' \<in> fst ` set prices. e' \<le> epoch \<longrightarrow> e' \<le> e)) \<and>
    (\<forall>n. \<exists>p. pricelist_by_epoch PRICES n = (Ok p :: (PricelistV0, 'e) result) \<and>
      on_create_actor p + on_delete_actor p = create_actor_base p)"
proof (intro conjI allI)
  let ?es = "filter (\<lambda>e. e > 0 \<and> e \<le> epoch) (map fst prices)"
  have best: "best_epoch prices epoch \<in> fst ` set prices \<and> best_epoch prices epoch \<le> epoch \<and>
    (\<forall>e' \<in> fst ` set prices. e' \<le> epoch \<longrightarrow> e' \<le> best_epoch prices epoch)"
  proof (cases ?es)
    case Nil
    then show ?thesis using assms(2-4) by (force simp: best_epoch_def filter_empty_conv)
  next
    case (Cons e es)
    then have b: "best_epoch prices epoch = Max (set ?es)" unfolding best_epoch_def fold_max [symmetric] by (simp add: fold_max)
    have "Max (set ?es) \<in> set ?es" using Cons by (intro Max_in) auto
    moreover have "e' \<le> Max (set ?es)" if "e' \<in> fst ` set prices" "e' \<le> epoch" "0 < e'" for e'
      using that by (intro Max_ge) auto
    ultimately show ?thesis unfolding b using assms(3) by (fastforce simp: not_less le_less)
  qed
  then obtain p where "map_of prices (best_epoch prices epoch) = Some p"
    by (metis map_of_eq_None_iff option.exhaust)
  with best show "\<exists>e p. pricelist_by_epoch prices epoch = (Ok p :: ('p, 'e) result) \<and> (e, p) \<in> set prices \<and> e \<le> epoch \<and>
      (\<forall>e' \<in> fst ` set prices. e' \<le> epoch \<longrightarrow> e' \<le> e)"
    by (auto simp: pricelist_by_epoch_def intro!: exI [of _ "best_epoch prices epoch"] dest: map_of_SomeD)
  show "\<exists>p. pricelist_by_epoch PRICES n = (Ok p :: (PricelistV0, 'e) result) \<and>
      on_create_actor p + on_delete_actor p = create_actor_base p" for n
    by (simp add: pricelist_by_epoch_def best_epoch_def PRICES_def on_create_actor_def on_delete_actor_def)
qed

end
