(* ===== verification/Peer_Mgr.thy ===== *)
theory Peer_Mgr
  imports Plum_Prelude "HOL-Library.AList"
begin

text \<open>
  The peer manager (\<open>src/peermgr/src/lib.rs\<close>): the peers of the node and the channel through which handles ask to add
  and remove them. The hash map of peers is the list of its entries and the unbounded channel is a list of actions;
  the clock and the logging are left out.
\<close>

definition MAX_FIL_PEERS :: u32 where "MAX_FIL_PEERS = 32"
definition MIN_FIL_PEERS :: u32 where "MIN_FIL_PEERS = 8"

datatype 'peer Action = AddPeer 'peer | RemovePeer 'peer

datatype ConnectionState = Enabled | NotConnected

record ('peer, 'addr) PeerMgr =
  bootstrappers :: "'addr list"
  peers :: "('peer \<times> ConnectionState) list"
  rx :: "'peer Action list"
  max_fil_peers :: u32
  min_fil_peers :: u32
  expanding :: bool

definition peermgr_new :: "('peer, 'addr) PeerMgr" where
  "peermgr_new =
    \<lparr>bootstrappers = [], peers = [], rx = [], max_fil_peers = MAX_FIL_PEERS, min_fil_peers = MIN_FIL_PEERS,
     expanding = False\<rparr>"

definition add_peer :: "('peer, 'addr) PeerMgr \<Rightarrow> 'peer \<Rightarrow> ('peer, 'addr) PeerMgr" where
  "add_peer m peer_id = m\<lparr>rx := rx m @ [AddPeer peer_id]\<rparr>"

definition remove_peer :: "('peer, 'addr) PeerMgr \<Rightarrow> 'peer \<Rightarrow> ('peer, 'addr) PeerMgr" where
  "remove_peer m peer_id = m\<lparr>rx := rx m @ [RemovePeer peer_id]\<rparr>"

definition get_peer_count :: "('peer, 'addr) PeerMgr \<Rightarrow> nat" where
  "get_peer_count m = length (peers m)"

definition on_add_peer :: "('peer, 'addr) PeerMgr \<Rightarrow> 'peer \<Rightarrow> ('peer, 'addr) PeerMgr" where
  "on_add_peer m peer_id =
    (if get_peer_count m < unat (max_fil_peers m) then m\<lparr>peers := AList.update peer_id Enabled (peers m)\<rparr> else m)"

definition on_remove_peer :: "('peer, 'addr) PeerMgr \<Rightarrow> 'peer \<Rightarrow> ('peer, 'addr) PeerMgr" where
  "on_remove_peer m peer_id = m\<lparr>peers := AList.delete peer_id (peers m)\<rparr>"

definition peermgr_ok :: "('peer, 'addr) PeerMgr \<Rightarrow> bool" where
  "peermgr_ok m \<longleftrightarrow> distinct (map fst (peers m)) \<and> get_peer_count m \<le> unat (max_fil_peers m)"

lemma length_update_le: "length (AList.update k v al) \<le> Suc (length al)"
  by (induction al) auto

lemma peermgr_new_ok: "peermgr_ok peermgr_new"
  by (simp add: peermgr_ok_def peermgr_new_def get_peer_count_def)

lemma on_add_peer_ok: "peermgr_ok m \<Longrightarrow> peermgr_ok (on_add_peer m p)"
  using length_update_le [of p Enabled "peers m"]
  by (auto simp: peermgr_ok_def on_add_peer_def get_peer_count_def distinct_update)

lemma on_remove_peer_ok: "peermgr_ok m \<Longrightarrow> peermgr_ok (on_remove_peer m p)"
  using length_delete_le [of p "peers m"]
  by (auto simp: peermgr_ok_def on_remove_peer_def get_peer_count_def distinct_delete)

lemma on_remove_peer_removes: "map_of (peers (on_remove_peer m p)) = (map_of (peers m))(p := None)"
  by (simp add: on_remove_peer_def delete_conv')

lemma on_add_peer_adds:
  "map_of (peers (on_add_peer m p)) =
    (if get_peer_count m < unat (max_fil_peers m) then (map_of (peers m))(p \<mapsto> Enabled) else map_of (peers m))"
  by (simp add: on_add_peer_def update_conv')

end
