(* ===== verification/Ipld_Value.thy ===== *)
theory Ipld_Value
  imports Codec_Libs "HOL-Library.Char_ord"
begin

text \<open>
  The IPLD data model of \<open>src/ipld\<close>: values, the order of map keys, and the DAG-CBOR codec.

  A value is a nested datatype with the constructors of \<open>IpldValue\<close>. An \<open>Integer\<close> holds an \<open>i128\<close>,
  modelled as an \<open>int\<close>: the code only compares and narrows it. A \<open>Float\<close> holds the bit pattern of
  an \<open>f64\<close>, so that equality of values is equality of representations. A \<open>BTreeMap\<close> is the
  association list of its entries in iteration order, kept strictly increasing by insertion.

  The encoder can panic, so it returns a result. The decoder calls itself through the library's
  codecs of \<open>Vec\<close> and \<open>BTreeMap\<close>; its first argument is the number of stack frames it may use,
  and running out of them is the abort of a stack overflow.
\<close>

subsection \<open>Map keys\<close>

datatype ordering = Less | Equal | Greater

definition cmp :: "'a::linorder \<Rightarrow> 'a \<Rightarrow> ordering" where
  "cmp a b = (if a < b then Less else if a = b then Equal else Greater)"

datatype map_key = MapKey (into_inner: string)

definition map_key_cmp :: "map_key \<Rightarrow> map_key \<Rightarrow> ordering" where
  "map_key_cmp self other =
    (if length (into_inner self) \<noteq> length (into_inner other)
     then cmp (length (into_inner self)) (length (into_inner other))
     else cmp (into_inner self) (into_inner other))"

instantiation map_key :: linorder
begin

definition less_eq_map_key :: "map_key \<Rightarrow> map_key \<Rightarrow> bool" where
  "less_eq_map_key a b \<longleftrightarrow> map_key_cmp a b \<noteq> Greater"

definition less_map_key :: "map_key \<Rightarrow> map_key \<Rightarrow> bool" where
  "less_map_key a b \<longleftrightarrow> map_key_cmp a b = Less"

instance
  by standard
    (auto simp: less_eq_map_key_def less_map_key_def map_key_cmp_def cmp_def
      intro: map_key.expand split: if_splits)

end

text \<open>
  \<open>BTreeMap\<close>: insertion in key order, and the search of \<open>get\<close>, which walks the keys of a node
  with the order of the type that it searches by. A map of at most eleven entries is one node.
\<close>

fun btree_insert :: "'k::linorder \<Rightarrow> 'v \<Rightarrow> ('k \<times> 'v) list \<Rightarrow> ('k \<times> 'v) list" where
  "btree_insert k v [] = [(k, v)]"
| "btree_insert k v ((k', v') # m) =
    (if k < k' then (k, v) # (k', v') # m
     else if k = k' then (k', v) # m
     else (k', v') # btree_insert k v m)"

definition btree_of :: "('k::linorder \<times> 'v) list \<Rightarrow> ('k \<times> 'v) list" where
  "btree_of es = foldl (\<lambda>m (k, v). btree_insert k v m) [] es"

fun btree_get :: "('k \<Rightarrow> ordering) \<Rightarrow> ('k \<times> 'v) list \<Rightarrow> 'v option" where
  "btree_get f [] = None"
| "btree_get f ((k, v) # m) =
    (case f k of Less \<Rightarrow> None | Equal \<Rightarrow> Some v | Greater \<Rightarrow> btree_get f m)"

text \<open>Search by a key, and by a borrowed \<open>str\<close>, whose order is the one of strings.\<close>

abbreviation get_key :: "map_key \<Rightarrow> (map_key \<times> 'v) list \<Rightarrow> 'v option" where
  "get_key k \<equiv> btree_get (map_key_cmp k)"

definition borrow_str :: "map_key \<Rightarrow> string" where
  "borrow_str k = into_inner k"

definition get_str :: "string \<Rightarrow> (map_key \<times> 'v) list \<Rightarrow> 'v option" where
  "get_str s = btree_get (\<lambda>k. cmp s (borrow_str k))"

abbreviation sorted_keys :: "('k::linorder \<times> 'v) list \<Rightarrow> bool" where
  "sorted_keys m \<equiv> sorted_wrt (<) (map fst m)"

lemma btree_insert_keys: "set (map fst (btree_insert k v m)) = insert k (set (map fst m))"
  by (induction k v m rule: btree_insert.induct) (simp_all add: insert_commute)

lemma sorted_btree_insert: "sorted_keys m \<Longrightarrow> sorted_keys (btree_insert k v m)"
proof (induction m)
  case (Cons e m)
  then show ?case
    using btree_insert_keys [of k v m] by (cases e) (auto simp: image_iff less_trans)
qed simp

lemma map_of_btree_insert: "map_of (btree_insert k v m) = (map_of m)(k \<mapsto> v)"
  by (induction m) auto

lemma set_btree_insert: "set (btree_insert k v m) \<subseteq> insert (k, v) (set m)"
  by (induction m) (auto split: if_splits)

lemma btree_of_snoc: "btree_of (es @ [(k, v)]) = btree_insert k v (btree_of es)"
  by (simp add: btree_of_def)

lemma sorted_btree_of: "sorted_keys (btree_of es)"
  by (induction es rule: rev_induct) (auto simp: btree_of_snoc sorted_btree_insert btree_of_def [of "[]"])

lemma set_btree_of: "set (btree_of es) \<subseteq> set es"
proof (induction es rule: rev_induct)
  case (snoc e es)
  then show ?case using set_btree_insert [of "fst e" "snd e" "btree_of es"]
    by (cases e) (auto simp: btree_of_snoc)
qed (simp add: btree_of_def)

lemma map_of_btree_of: "map_of (btree_of es) = map_of (rev es)"
proof (induction es rule: rev_induct)
  case (snoc e es)
  then show ?case by (cases e) (simp add: btree_of_snoc map_of_btree_insert)
qed (simp add: btree_of_def)

lemma btree_insert_greatest:
  "(\<And>k'. k' \<in> set (map fst m) \<Longrightarrow> k' < k) \<Longrightarrow> btree_insert k v m = m @ [(k, v)]"
proof (induction m)
  case (Cons e m)
  then have "fst e < k" by simp
  with Cons show ?case by (cases e) (auto dest: less_asym)
qed simp

lemma btree_of_sorted: "sorted_keys m \<Longrightarrow> btree_of m = m"
proof (induction m rule: rev_induct)
  case (snoc e m)
  then have "btree_insert (fst e) (snd e) m = m @ [(fst e, snd e)]"
    by (intro btree_insert_greatest) (auto simp: sorted_wrt_append)
  with snoc show ?case
    by (cases e) (auto simp: btree_of_snoc sorted_wrt_append)
qed (simp add: btree_of_def)

lemma map_key_cmp_Equal_iff: "map_key_cmp a b = Equal \<longleftrightarrow> a = b"
  by (auto simp: map_key_cmp_def cmp_def intro: map_key.expand split: if_splits)

lemma map_key_cmp_less: "map_key_cmp a b = cmp a b"
  unfolding cmp_def [of a b] less_map_key_def by (metis map_key_cmp_Equal_iff ordering.exhaust)

lemma get_key_map_of: "sorted_keys m \<Longrightarrow> get_key k m = map_of m k"
proof (induction m)
  case (Cons e m)
  have "map_of m k = None" if "k < fst e"
  proof -
    have "\<forall>k' \<in> set (map fst m). fst e < k'" using Cons.prems by simp
    then have "k \<notin> set (map fst m)" using that by (metis less_asym)
    then show ?thesis by (simp add: map_of_eq_None_iff)
  qed
  with Cons show ?case by (cases e) (simp add: map_key_cmp_less cmp_def)
qed simp


subsection \<open>Values\<close>

datatype 'cid ipld_value =
    Null
  | Bool bool
  | Integer int
  | Float u64
  | String string
  | Bytes bytes
  | List "'cid ipld_value list"
  | Map "(map_key \<times> 'cid ipld_value) list"
  | Link 'cid

text \<open>
  The \<open>minicbor\<close> operations that only the IPLD codec uses. \<open>e_map\<close> and \<open>d_map\<close> are the codec of
  \<open>BTreeMap\<close>, with the encodings of the entries and the inputs at which the entries start.
\<close>

datatype cbor_type =
    TBool | TNull | TUndefined | TU8 | TU16 | TU32 | TU64 | TI8 | TI16 | TI32 | TI64
  | TF16 | TF32 | TF64 | TSimple | TBytes | TString | TArray | TMap | TTag | TBreak | TUnknown u8

record ipld_libs =
  datatype_at :: "bytes \<Rightarrow> cbor_type cbor"
  skip_item :: "bytes \<Rightarrow> (unit \<times> bytes) cbor"
  e_null :: "bytes"
  e_bool :: "bool \<Rightarrow> bytes"
  d_bool :: "bytes \<Rightarrow> (bool \<times> bytes) cbor"
  e_u16 :: "16 word \<Rightarrow> bytes"
  d_u16 :: "bytes \<Rightarrow> (16 word \<times> bytes) cbor"
  e_u32 :: "u32 \<Rightarrow> bytes"
  d_u32 :: "bytes \<Rightarrow> (u32 \<times> bytes) cbor"
  e_i8 :: "u8 \<Rightarrow> bytes"
  d_i8 :: "bytes \<Rightarrow> (u8 \<times> bytes) cbor"
  e_i16 :: "16 word \<Rightarrow> bytes"
  d_i16 :: "bytes \<Rightarrow> (16 word \<times> bytes) cbor"
  e_i32 :: "u32 \<Rightarrow> bytes"
  d_i32 :: "bytes \<Rightarrow> (u32 \<times> bytes) cbor"
  e_f64 :: "u64 \<Rightarrow> bytes"
  d_f16 :: "bytes \<Rightarrow> (u32 \<times> bytes) cbor"
  d_f32 :: "bytes \<Rightarrow> (u32 \<times> bytes) cbor"
  d_f64 :: "bytes \<Rightarrow> (u64 \<times> bytes) cbor"
  e_map :: "bytes list \<Rightarrow> bytes"
  d_map :: "(bytes \<Rightarrow> bytes cbor) \<Rightarrow> bytes \<Rightarrow> (bytes list \<times> bytes) cbor"


subsection \<open>Integers\<close>

definition encode_integer :: "'cid libs \<Rightarrow> ipld_libs \<Rightarrow> int \<Rightarrow> bytes cbor" where
  "encode_integer lib il i =
    (if i < 0 then
       (if - (2 ^ 7) \<le> i then Ok (e_i8 il (word_of_int i))
        else if - (2 ^ 15) \<le> i then Ok (e_i16 il (word_of_int i))
        else if - (2 ^ 31) \<le> i then Ok (e_i32 il (word_of_int i))
        else if - (2 ^ 63) \<le> i then Ok (e_i64 lib (word_of_int i))
        else Panic)
     else
       (if i \<le> 2 ^ 8 - 1 then Ok (e_u8 lib (word_of_int i))
        else if i \<le> 2 ^ 16 - 1 then Ok (e_u16 il (word_of_int i))
        else if i \<le> 2 ^ 32 - 1 then Ok (e_u32 il (word_of_int i))
        else if i \<le> 2 ^ 64 - 1 then Ok (e_u64 lib (word_of_int i))
        else Panic))"

definition decode_integer :: "'cid libs \<Rightarrow> ipld_libs \<Rightarrow> bytes \<Rightarrow> (int \<times> bytes) cbor" where
  "decode_integer lib il b =
    and_then (datatype_at il b) (\<lambda>ty.
      case ty of
        TU8 \<Rightarrow> map_ok (map_prod uint id) (d_u8 lib b)
      | TU16 \<Rightarrow> map_ok (map_prod uint id) (d_u16 il b)
      | TU32 \<Rightarrow> map_ok (map_prod uint id) (d_u32 il b)
      | TU64 \<Rightarrow> map_ok (map_prod uint id) (d_u64 lib b)
      | TI8 \<Rightarrow> map_ok (map_prod sint id) (d_i8 il b)
      | TI16 \<Rightarrow> map_ok (map_prod sint id) (d_i16 il b)
      | TI32 \<Rightarrow> map_ok (map_prod sint id) (d_i32 il b)
      | TI64 \<Rightarrow> map_ok (map_prod sint id) (d_i64 lib b)
      | _ \<Rightarrow> Panic)"

text \<open>The integers that CBOR can hold.\<close>

definition cbor_int :: "int \<Rightarrow> bool" where
  "cbor_int i \<longleftrightarrow> - (2 ^ 63) \<le> i \<and> i < 2 ^ 64"


subsection \<open>Floating point numbers\<close>

text \<open>
  \<open>f64::from(x: f32)\<close> on bit patterns: the exponent is rebiased, a subnormal number is normalised,
  and a NaN becomes quiet. \<open>widen\<close> works on the exponent and the mantissa.
\<close>

fun top_bit :: "nat \<Rightarrow> nat" where
  "top_bit m = (if m < 2 then 0 else Suc (top_bit (m div 2)))"

declare top_bit.simps [simp del]

definition widen :: "nat \<Rightarrow> nat \<Rightarrow> nat \<times> nat" where
  "widen e m =
    (if e = 255 then (2047, if m = 0 then 0 else 2 ^ 51 + m mod 2 ^ 22 * 2 ^ 29)
     else if e = 0 then
       (if m = 0 then (0, 0) else (top_bit m + 874, (m - 2 ^ top_bit m) * 2 ^ (52 - top_bit m)))
     else (e + 896, m * 2 ^ 29))"

definition f64_from_f32 :: "u32 \<Rightarrow> u64" where
  "f64_from_f32 w =
    (let (e, m) = widen (unat (take_bit 8 (drop_bit 23 w))) (unat (take_bit 23 w)) in
     push_bit 63 (of_bool (bit w 31)) OR push_bit 52 (of_nat e) OR of_nat m)"


lemma top_bit_bounds: "0 < m \<Longrightarrow> 2 ^ top_bit m \<le> m \<and> m < 2 ^ Suc (top_bit m)"
proof (induction m rule: top_bit.induct)
  case (1 m)
  show ?case
  proof (cases "m < 2")
    case True
    with 1 show ?thesis by (simp add: top_bit.simps [of m])
  next
    case False
    then have "2 ^ top_bit (m div 2) \<le> m div 2 \<and> m div 2 < 2 ^ Suc (top_bit (m div 2))"
      by (intro "1.IH") auto
    then have "2 * 2 ^ top_bit (m div 2) \<le> m" "m < 4 * 2 ^ top_bit (m div 2)" by simp_all linarith+
    with False show ?thesis by (simp add: top_bit.simps [of m])
  qed
qed

text \<open>
  Widening is exact: scaled by \<open>2 ^ 1074\<close> and by \<open>2 ^ 149\<close>, the magnitudes of a finite \<open>f64\<close> and
  of a finite \<open>f32\<close> are integers, and they differ by the ratio of the scales.
\<close>

definition magnitude64 :: "nat \<times> nat \<Rightarrow> nat" where
  "magnitude64 = (\<lambda>(e, m). if e = 0 then m else (2 ^ 52 + m) * 2 ^ (e - 1))"

definition magnitude32 :: "nat \<Rightarrow> nat \<Rightarrow> nat" where
  "magnitude32 e m = (if e = 0 then m else (2 ^ 23 + m) * 2 ^ (e - 1))"

lemma widen_exact:
  assumes "e < 255" "m < 2 ^ 23"
  shows "magnitude64 (widen e m) = magnitude32 e m * 2 ^ 925"
proof (cases "e = 0")
  case True
  show ?thesis
  proof (cases "m = 0")
    case False
    let ?p = "top_bit m"
    have p: "2 ^ ?p \<le> m" using False top_bit_bounds [of m] by simp
    have "?p < 23"
    proof (rule ccontr)
      assume "\<not> ?p < 23"
      then have "(2 :: nat) ^ 23 \<le> 2 ^ ?p" by (intro power_increasing) auto
      with p assms(2) show False by simp
    qed
    then have k: "(2 :: nat) ^ 52 = 2 ^ ?p * 2 ^ (52 - ?p)" "(2 :: nat) ^ 925 = 2 ^ (52 - ?p) * 2 ^ (?p + 873)"
      by (simp_all flip: power_add)
    have "2 ^ 52 + (m - 2 ^ ?p) * 2 ^ (52 - ?p) = m * 2 ^ (52 - ?p)"
      using p unfolding k(1) by (metis distrib_right le_add_diff_inverse)
    then show ?thesis
      using False True unfolding magnitude64_def magnitude32_def widen_def k(2)
      by (simp add: ac_simps)
  qed (use True in \<open>simp add: magnitude64_def magnitude32_def widen_def\<close>)
next
  case False
  then have "e + 895 = (e - 1) + 896" by simp
  then have "(2 :: nat) ^ (e + 895) = 2 ^ (e - 1) * 2 ^ 896"
    by (metis power_add)
  with False assms show ?thesis
    by (simp add: magnitude64_def magnitude32_def widen_def algebra_simps)
qed


subsection \<open>The codec of values\<close>

fun encode_value :: "'cid libs \<Rightarrow> ipld_libs \<Rightarrow> 'cid ipld_value \<Rightarrow> bytes cbor"
  and encode_values :: "'cid libs \<Rightarrow> ipld_libs \<Rightarrow> 'cid ipld_value list \<Rightarrow> bytes list cbor"
  and encode_entries :: "'cid libs \<Rightarrow> ipld_libs \<Rightarrow> (map_key \<times> 'cid ipld_value) list \<Rightarrow> bytes list cbor"
where
  "encode_value lib il Null = Ok (e_null il)"
| "encode_value lib il (Bool b) = Ok (e_bool il b)"
| "encode_value lib il (Integer i) = encode_integer lib il i"
| "encode_value lib il (Float f) = Ok (e_f64 il f)"
| "encode_value lib il (Bytes b) = Ok (e_bytes lib b)"
| "encode_value lib il (String s) = Ok (e_str lib s)"
| "encode_value lib il (List vs) = map_ok (e_vec lib) (encode_values lib il vs)"
| "encode_value lib il (Map m) = map_ok (e_map il) (encode_entries lib il m)"
| "encode_value lib il (Link c) = Ok (e_cid lib c)"
| "encode_values lib il [] = Ok []"
| "encode_values lib il (v # vs) =
    and_then (encode_value lib il v) (\<lambda>e. map_ok ((#) e) (encode_values lib il vs))"
| "encode_entries lib il [] = Ok []"
| "encode_entries lib il ((k, v) # m) =
    and_then (encode_value lib il v) (\<lambda>e. map_ok ((#) (e_str lib (into_inner k) @ e)) (encode_entries lib il m))"

definition decode_map_key :: "'cid libs \<Rightarrow> bytes \<Rightarrow> (map_key \<times> bytes) cbor" where
  "decode_map_key lib b = map_ok (map_prod MapKey id) (d_str lib b)"

definition decode_entry ::
  "'cid libs \<Rightarrow> (bytes \<Rightarrow> ('v \<times> bytes) cbor) \<Rightarrow> bytes \<Rightarrow> ((map_key \<times> 'v) \<times> bytes) cbor" where
  "decode_entry lib dec b =
    and_then (decode_map_key lib b) (\<lambda>(k, r). map_ok (map_prod (Pair k) id) (dec r))"

definition decode_map ::
  "'cid libs \<Rightarrow> ipld_libs \<Rightarrow> (bytes \<Rightarrow> ('v \<times> bytes) cbor) \<Rightarrow> bytes \<Rightarrow> ((map_key \<times> 'v) list \<times> bytes) cbor" where
  "decode_map lib il dec b =
    and_then (d_map il (\<lambda>b. map_ok snd (decode_entry lib dec b)) b) (\<lambda>(starts, r).
      and_then (decode_all (decode_entry lib dec) starts) (\<lambda>es. Ok (btree_of es, r)))"

primrec decode_value :: "nat \<Rightarrow> 'cid libs \<Rightarrow> ipld_libs \<Rightarrow> bytes \<Rightarrow> ('cid ipld_value \<times> bytes) cbor" where
  "decode_value 0 lib il b = Panic"
| "decode_value (Suc n) lib il b =
    and_then (datatype_at il b) (\<lambda>ty.
      case ty of
        TNull \<Rightarrow> map_ok (map_prod (\<lambda>_. Null) id) (skip_item il b)
      | TBool \<Rightarrow> map_ok (map_prod Bool id) (d_bool il b)
      | TU8 \<Rightarrow> map_ok (map_prod Integer id) (decode_integer lib il b)
      | TU16 \<Rightarrow> map_ok (map_prod Integer id) (decode_integer lib il b)
      | TU32 \<Rightarrow> map_ok (map_prod Integer id) (decode_integer lib il b)
      | TU64 \<Rightarrow> map_ok (map_prod Integer id) (decode_integer lib il b)
      | TI8 \<Rightarrow> map_ok (map_prod Integer id) (decode_integer lib il b)
      | TI16 \<Rightarrow> map_ok (map_prod Integer id) (decode_integer lib il b)
      | TI32 \<Rightarrow> map_ok (map_prod Integer id) (decode_integer lib il b)
      | TI64 \<Rightarrow> map_ok (map_prod Integer id) (decode_integer lib il b)
      | TF16 \<Rightarrow> map_ok (map_prod (Float \<circ> f64_from_f32) id) (d_f16 il b)
      | TF32 \<Rightarrow> map_ok (map_prod (Float \<circ> f64_from_f32) id) (d_f32 il b)
      | TF64 \<Rightarrow> map_ok (map_prod Float id) (d_f64 il b)
      | TBytes \<Rightarrow> map_ok (map_prod Bytes id) (d_bytes lib b)
      | TString \<Rightarrow> map_ok (map_prod String id) (d_str lib b)
      | TArray \<Rightarrow> map_ok (map_prod List id) (decode_vec lib (decode_value n lib il) b)
      | TMap \<Rightarrow> map_ok (map_prod Map id) (decode_map lib il (decode_value n lib il) b)
      | TTag \<Rightarrow> map_ok (map_prod Link id) (d_cid lib b)
      | _ \<Rightarrow> Err (Message ''unexpected type''))"

text \<open>
  The values that have an encoding that decodes to them, and the number of nested calls that a
  value needs.
\<close>

fun ipld_ok :: "'cid ipld_value \<Rightarrow> bool" where
  "ipld_ok (Integer i) = cbor_int i"
| "ipld_ok (List vs) = (\<forall>v \<in> set vs. ipld_ok v)"
| "ipld_ok (Map m) = (sorted_keys m \<and> (\<forall>e \<in> set m. ipld_ok (snd e)))"
| "ipld_ok _ = True"

fun depth :: "'cid ipld_value \<Rightarrow> nat" where
  "depth (List vs) = Suc (foldr max (map depth vs) 0)"
| "depth (Map m) = Suc (foldr max (map (\<lambda>e. depth (snd e)) m) 0)"
| "depth _ = 1"

end
