(* ===== verification/Ipld_Cbor.thy ===== *)
theory Ipld_Cbor
  imports Ipld_Value
begin

text \<open>
  The DAG-CBOR codec of IPLD values against the documented behaviour of \<open>minicbor\<close>.

  \<open>ipld_codec\<close> extends the interface of the codecs with the operations of the IPLD codec: an
  integer is written in its shortest form whatever the width of the operation, the type reported for
  an item is the smallest one that holds it, and a map is read back entry by entry.
  \<open>ipld_reader\<close> collects what decoding relies on for arbitrary input: a read returns an error
  rather than panicking, consumes input, and asks for elements at later positions only.
\<close>

definition unsigned_type :: "u64 \<Rightarrow> cbor_type" where
  "unsigned_type x =
    (if x < 2 ^ 8 then TU8 else if x < 2 ^ 16 then TU16 else if x < 2 ^ 32 then TU32 else TU64)"

definition signed_type :: "u64 \<Rightarrow> cbor_type" where
  "signed_type x =
    (if - (2 ^ 7) \<le> sint x then TI8 else if - (2 ^ 15) \<le> sint x then TI16
     else if - (2 ^ 31) \<le> sint x then TI32 else TI64)"

definition int_type :: "cbor_type \<Rightarrow> bool" where
  "int_type ty \<longleftrightarrow> ty \<in> {TU8, TU16, TU32, TU64, TI8, TI16, TI32, TI64}"

lemma int_type_unsigned: "int_type (unsigned_type x)"
  by (simp add: int_type_def unsigned_type_def)

lemma int_type_signed: "int_type (signed_type x)"
  by (simp add: int_type_def signed_type_def)

lemma decode_value_integer:
  "datatype_at il b = Ok ty \<Longrightarrow> int_type ty \<Longrightarrow>
    decode_value (Suc n) lib il b = map_ok (map_prod Integer id) (decode_integer lib il b)"
  by (auto simp: int_type_def)

text \<open>The bytes of a value that can be encoded.\<close>

definition encoding :: "'cid libs \<Rightarrow> ipld_libs \<Rightarrow> 'cid ipld_value \<Rightarrow> bytes" where
  "encoding lib il v = (case encode_value lib il v of Ok e \<Rightarrow> e | _ \<Rightarrow> [])"

definition entry_encoding :: "'cid libs \<Rightarrow> ipld_libs \<Rightarrow> map_key \<times> 'cid ipld_value \<Rightarrow> bytes" where
  "entry_encoding lib il e = e_str lib (into_inner (fst e)) @ encoding lib il (snd e)"

lemma encode_integer_cases:
  "encode_integer lib il i = Panic \<longleftrightarrow> \<not> cbor_int i"
  "encode_integer lib il i \<noteq> Err e"
  by (auto simp: encode_integer_def cbor_int_def)

lemma encode_value_encoding:
  fixes lib :: "'cid libs"
  shows "ipld_ok v \<Longrightarrow> encode_value lib il v = Ok (encoding lib il v)"
    and "\<forall>v \<in> set vs. ipld_ok v \<Longrightarrow> encode_values lib il vs = Ok (map (encoding lib il) vs)"
    and "\<forall>e \<in> set m. ipld_ok (snd e) \<Longrightarrow> encode_entries lib il m = Ok (map (entry_encoding lib il) m)"
proof (induction lib il v and lib il vs and lib il m rule: encode_value_encode_values_encode_entries.induct)
  case (3 lib il i)
  then show ?case
    using encode_integer_cases [of lib il i] by (cases "encode_integer lib il i") (auto simp: encoding_def)
next
  case (11 lib il v vs)
  then show ?case by (cases "encode_value lib il v") (auto simp: encoding_def)
next
  case (13 lib il k v m)
  then show ?case by (cases "encode_value lib il v") (auto simp: encoding_def entry_encoding_def)
qed (auto simp: encoding_def)

locale ipld_codec = codec_libs lib for lib :: "'cid libs" +
  fixes il :: ipld_libs
  assumes null_type: "datatype_at il (e_null il @ r) = Ok TNull"
    and null_skip: "skip_item il (e_null il @ r) = Ok ((), r)"
    and bool_type: "datatype_at il (e_bool il t @ r) = Ok TBool"
    and bool_rt: "d_bool il (e_bool il t @ r) = Ok (t, r)"
    and u8_short: "e_u8 lib w8 = e_u64 lib (ucast w8)"
    and u16_short: "e_u16 il w16 = e_u64 lib (ucast w16)"
    and u32_short: "e_u32 il w32 = e_u64 lib (ucast w32)"
    and i8_short: "e_i8 il w8 = e_i64 lib (scast w8)"
    and i16_short: "e_i16 il w16 = e_i64 lib (scast w16)"
    and i32_short: "e_i32 il w32 = e_i64 lib (scast w32)"
    and u64_type: "datatype_at il (e_u64 lib x @ r) = Ok (unsigned_type x)"
    and i64_type: "sint x < 0 \<Longrightarrow> datatype_at il (e_i64 lib x @ r) = Ok (signed_type x)"
    and u16_rt: "d_u16 il (e_u16 il w16 @ r) = Ok (w16, r)"
    and u32_rt: "d_u32 il (e_u32 il w32 @ r) = Ok (w32, r)"
    and i8_rt: "d_i8 il (e_i8 il w8 @ r) = Ok (w8, r)"
    and i16_rt: "d_i16 il (e_i16 il w16 @ r) = Ok (w16, r)"
    and i32_rt: "d_i32 il (e_i32 il w32 @ r) = Ok (w32, r)"
    and f64_type: "datatype_at il (e_f64 il f @ r) = Ok TF64"
    and f64_rt: "d_f64 il (e_f64 il f @ r) = Ok (f, r)"
    and bytes_type: "datatype_at il (e_bytes lib bs @ r) = Ok TBytes"
    and str_type: "datatype_at il (e_str lib s @ r) = Ok TString"
    and vec_type: "datatype_at il (e_vec lib es @ r) = Ok TArray"
    and map_type: "datatype_at il (e_map il es @ r) = Ok TMap"
    and map_rt: "(\<And>e r. e \<in> set es \<Longrightarrow> step (e @ r) = Ok r) \<Longrightarrow>
      \<exists>rs. length rs = length es \<and> d_map il step (e_map il es @ r) = Ok (map2 (@) es rs, r)"
    and cid_type: "datatype_at il (e_cid lib c @ r) = Ok TTag"
begin

lemma integer_unsigned:
  assumes "0 \<le> i" "i < 2 ^ 64"
  shows "\<exists>e. encode_integer lib il i = Ok e \<and>
    (\<forall>r. datatype_at il (e @ r) = Ok (unsigned_type (word_of_int i)) \<and> decode_integer lib il (e @ r) = Ok (i, r))"
proof -
  have w: "uint (word_of_int i :: u64) = i" using assms by (simp add: uint_word_of_int_fits)
  have lt: "unsigned_type (word_of_int i) =
      (if i < 2 ^ 8 then TU8 else if i < 2 ^ 16 then TU16 else if i < 2 ^ 32 then TU32 else TU64)"
    by (simp add: unsigned_type_def word_less_def w)
  note defs = encode_integer_def decode_integer_def lt and ty = u64_type [of "word_of_int i"]
  consider "i < 2 ^ 8" | "\<not> i < 2 ^ 8" "i < 2 ^ 16" | "\<not> i < 2 ^ 16" "i < 2 ^ 32" | "\<not> i < 2 ^ 32"
    by linarith
  then show ?thesis
  proof cases
    case 1
    then show ?thesis
      using assms u8_rt [of "word_of_int i"] ty
      by (simp add: defs u8_short ucast_word_of_int_fits uint_word_of_int_fits)
  next
    case 2
    then show ?thesis
      using assms u16_rt [of "word_of_int i"] ty
      by (simp add: defs u16_short ucast_word_of_int_fits uint_word_of_int_fits)
  next
    case 3
    then show ?thesis
      using assms u32_rt [of "word_of_int i"] ty
      by (simp add: defs u32_short ucast_word_of_int_fits uint_word_of_int_fits)
  next
    case 4
    then show ?thesis
      using assms u64_rt [of "word_of_int i"] ty w by (simp add: defs)
  qed
qed

lemma integer_signed:
  assumes "i < 0" "- (2 ^ 63) \<le> i"
  shows "\<exists>e. encode_integer lib il i = Ok e \<and>
    (\<forall>r. datatype_at il (e @ r) = Ok (signed_type (word_of_int i)) \<and> decode_integer lib il (e @ r) = Ok (i, r))"
proof -
  have w: "sint (word_of_int i :: u64) = i" using assms by (simp add: sint_word_of_int_fits)
  have lt: "signed_type (word_of_int i) =
      (if - (2 ^ 7) \<le> i then TI8 else if - (2 ^ 15) \<le> i then TI16 else if - (2 ^ 31) \<le> i then TI32 else TI64)"
    by (simp add: signed_type_def w)
  note defs = encode_integer_def decode_integer_def lt
    and ty = i64_type [of "word_of_int i", unfolded w, OF assms(1)]
  consider "- (2 ^ 7) \<le> i" | "\<not> - (2 ^ 7) \<le> i" "- (2 ^ 15) \<le> i"
    | "\<not> - (2 ^ 15) \<le> i" "- (2 ^ 31) \<le> i" | "\<not> - (2 ^ 31) \<le> i"
    by linarith
  then show ?thesis
  proof cases
    case 1
    then show ?thesis
      using assms i8_rt [of "word_of_int i"] ty
      by (simp add: defs i8_short scast_word_of_int_fits sint_word_of_int_fits)
  next
    case 2
    then show ?thesis
      using assms i16_rt [of "word_of_int i"] ty
      by (simp add: defs i16_short scast_word_of_int_fits sint_word_of_int_fits)
  next
    case 3
    then show ?thesis
      using assms i32_rt [of "word_of_int i"] ty
      by (simp add: defs i32_short scast_word_of_int_fits sint_word_of_int_fits)
  next
    case 4
    then show ?thesis
      using assms i64_rt [of "word_of_int i"] ty w by (simp add: defs)
  qed
qed

lemma integer_codec:
  assumes "cbor_int i"
  shows "\<exists>ty. int_type ty \<and> datatype_at il (encoding lib il (Integer i) @ r) = Ok ty"
    and "decode_integer lib il (encoding lib il (Integer i) @ r) = Ok (i, r)"
proof -
  have "\<exists>e ty. int_type ty \<and> encode_integer lib il i = Ok e \<and>
      (\<forall>r. datatype_at il (e @ r) = Ok ty \<and> decode_integer lib il (e @ r) = Ok (i, r))"
  proof (cases "0 \<le> i")
    case True
    then show ?thesis using assms integer_unsigned [of i] int_type_unsigned by (metis cbor_int_def)
  next
    case False
    then show ?thesis using assms integer_signed [of i] int_type_signed by (metis cbor_int_def not_le)
  qed
  then show "\<exists>ty. int_type ty \<and> datatype_at il (encoding lib il (Integer i) @ r) = Ok ty"
    and "decode_integer lib il (encoding lib il (Integer i) @ r) = Ok (i, r)"
    by (auto simp: encoding_def)
qed

lemma map_codec:
  assumes "codec ok enc dec"
  shows "codec (\<lambda>m. sorted_keys m \<and> (\<forall>e \<in> set m. ok (snd e)))
    (\<lambda>m. e_map il (map (\<lambda>e. e_str lib (into_inner (fst e)) @ enc (snd e)) m)) (decode_map lib il dec)"
proof (rule codecI)
  let ?enc = "\<lambda>e. e_str lib (into_inner (fst e)) @ enc (snd e)"
  fix m :: "(map_key \<times> 'a) list" and r
  assume m: "sorted_keys m \<and> (\<forall>e \<in> set m. ok (snd e))"
  have entry: "decode_entry lib dec (?enc e @ r) = Ok (e, r)" if "e \<in> set m" for e r
    using that m codecD [OF assms, of "snd e" r] by (cases e) (auto simp: decode_entry_def decode_map_key_def str_rt)
  have all: "set es \<subseteq> set m \<Longrightarrow> length rs = length es \<Longrightarrow>
      decode_all (decode_entry lib dec) (map2 (@) (map ?enc es) rs) = Ok es" for es rs
  proof (induction es arbitrary: rs)
    case (Cons e es)
    then show ?case using entry by (cases rs) auto
  qed simp
  have step: "map_ok snd (decode_entry lib dec (x @ r)) = Ok r" if "x \<in> set (map ?enc m)" for x r
    using that entry by auto
  from map_rt [of "map ?enc m" "\<lambda>b. map_ok snd (decode_entry lib dec b)" r, OF step] obtain rs where "length rs = length m"
    "d_map il (\<lambda>b. map_ok snd (decode_entry lib dec b)) (e_map il (map ?enc m) @ r) = Ok (map2 (@) (map ?enc m) rs, r)"
    by auto
  then show "decode_map lib il dec (e_map il (map ?enc m) @ r) = Ok (m, r)"
    using all [of m rs] m by (simp add: decode_map_def btree_of_sorted)
qed

lemma foldr_max_le: "foldr max (map f xs) 0 \<le> n \<Longrightarrow> x \<in> set xs \<Longrightarrow> f x \<le> (n::nat)"
  by (induction xs) auto

theorem value_codec:
  "codec (\<lambda>v. ipld_ok v \<and> depth v \<le> n) (encoding lib il) (decode_value n lib il)"
proof (induction n)
  case 0
  have "depth v \<noteq> 0" for v :: "'cid ipld_value" by (cases v) auto
  then show ?case by (simp add: codec_def)
next
  case (Suc n)
  show ?case
  proof (rule codecI)
    fix v :: "'cid ipld_value" and r assume v: "ipld_ok v \<and> depth v \<le> Suc n"
    then have e: "encode_value lib il v = Ok (encoding lib il v)" by (simp add: encode_value_encoding)
    show "decode_value (Suc n) lib il (encoding lib il v @ r) = Ok (v, r)"
    proof (cases v)
      case (Integer i)
      then show ?thesis
        using v integer_codec [of i r] by (auto simp: decode_value_integer simp del: decode_value.simps)
    next
      case (List vs)
      then have vs: "list_all (\<lambda>v. ipld_ok v \<and> depth v \<le> n) vs"
        using v foldr_max_le [of depth vs n] by (auto simp: list_all_iff)
      then have "encoding lib il v = encode_vec lib (encoding lib il) vs"
        using List e encode_value_encoding(2) [of vs lib il] by (simp add: encode_vec_def list_all_iff)
      then show ?thesis
        using List vec_type vec_codec_rt [OF Suc.IH vs] by (simp add: encode_vec_def)
    next
      case (Map m)
      then have m: "sorted_keys m \<and> (\<forall>e \<in> set m. ipld_ok (snd e) \<and> depth (snd e) \<le> n)"
        using v foldr_max_le [of "\<lambda>e. depth (snd e)" m n] by auto
      then have "encoding lib il v = e_map il (map (\<lambda>e. e_str lib (into_inner (fst e)) @ encoding lib il (snd e)) m)"
        using Map e encode_value_encoding(3) [of m lib il] by (simp add: entry_encoding_def [abs_def])
      then show ?thesis
        using Map map_type codecD [OF map_codec [OF Suc.IH] m] by simp
    qed (simp_all add: encoding_def null_type null_skip bool_type bool_rt f64_type f64_rt str_type str_rt
        bytes_type bytes_rt cid_type cid_rt)
  qed
qed

end


subsection \<open>Decoded values\<close>

lemma foldr_max_leI: "(\<And>x. x \<in> set xs \<Longrightarrow> f x \<le> n) \<Longrightarrow> foldr max (map f xs) 0 \<le> (n::nat)"
  by (induction xs) auto

lemma decode_all_elem:
  "decode_all dec bs = Ok xs \<Longrightarrow> x \<in> set xs \<Longrightarrow> \<exists>b \<in> set bs. \<exists>r. dec b = Ok (x, r)"
  by (induction bs arbitrary: xs) (auto simp: result_simps)

lemma decode_entry_value:
  "decode_entry lib dec b = Ok (e, r) \<Longrightarrow> \<exists>b r. dec b = Ok (snd e, r)"
  by (fastforce simp: decode_entry_def result_simps)

lemma uint_cbor_int: "LENGTH('a) \<le> 64 \<Longrightarrow> cbor_int (uint (w :: 'a::len word))"
proof -
  assume "LENGTH('a) \<le> 64"
  then have "uint w < 2 ^ 64"
    by (rule less_le_trans [OF unsigned_less power_increasing]) simp
  moreover have "- (2 ^ 63) \<le> uint w" by (rule order_trans [of _ 0]) simp_all
  ultimately show ?thesis by (simp add: cbor_int_def)
qed

lemma sint_cbor_int: "LENGTH('a) \<le> 64 \<Longrightarrow> cbor_int (sint (w :: 'a::len word))"
proof -
  assume "LENGTH('a) \<le> 64"
  then have "(2 :: int) ^ (LENGTH('a) - 1) \<le> 2 ^ 63"
    by (intro power_increasing) auto
  then show ?thesis using sint_ge [of w] sint_lt [of w] by (simp add: cbor_int_def)
qed

lemma decode_integer_range:
  assumes "decode_integer lib il b = Ok (i, r)"
  shows "cbor_int i"
proof -
  obtain ty where "datatype_at il b = Ok ty"
    using assms by (auto simp: decode_integer_def result_simps)
  with assms show ?thesis
    by (cases ty) (auto simp: decode_integer_def result_simps uint_cbor_int sint_cbor_int)
qed

lemma decode_value_ok:
  "decode_value n lib il b = Ok (v, r) \<Longrightarrow> ipld_ok v \<and> depth v \<le> n"
proof (induction n arbitrary: b v r)
  case (Suc n)
  have vec: "ipld_ok (List vs) \<and> depth (List vs) \<le> Suc n"
    if "decode_vec lib (decode_value n lib il) b = Ok (vs, r)" for vs
  proof -
    have "ipld_ok x \<and> depth x \<le> n" if "x \<in> set vs" for x
      using that \<open>decode_vec lib (decode_value n lib il) b = Ok (vs, r)\<close> decode_all_elem Suc.IH
      by (fastforce simp: decode_vec_def result_simps)
    then show ?thesis using foldr_max_leI [of vs depth n] by simp
  qed
  have map: "ipld_ok (Map m) \<and> depth (Map m) \<le> Suc n"
    if m: "decode_map lib il (decode_value n lib il) b = Ok (m, r)" for m
  proof -
    obtain es bs where es: "decode_all (decode_entry lib (decode_value n lib il)) bs = Ok es" "m = btree_of es"
      using m by (auto simp: decode_map_def result_simps)
    have "ipld_ok (snd e) \<and> depth (snd e) \<le> n" if "e \<in> set m" for e
    proof -
      have "e \<in> set es" using that es(2) set_btree_of [of es] by auto
      then show ?thesis using decode_all_elem [OF es(1)] decode_entry_value Suc.IH by metis
    qed
    then show ?thesis
      using foldr_max_leI [of m "\<lambda>e. depth (snd e)" n] es(2) sorted_btree_of [of es] by simp
  qed
  obtain ty where "datatype_at il b = Ok ty"
    using Suc.prems by (auto simp: result_simps)
  with Suc.prems vec map show ?case
    by (cases ty) (auto simp: result_simps simp del: ipld_ok.simps(2,3) depth.simps(1,2) dest: decode_integer_range)
qed simp


subsection \<open>Arbitrary input\<close>

definition reads :: "(bytes \<Rightarrow> ('a \<times> bytes) cbor) \<Rightarrow> bool" where
  "reads d \<longleftrightarrow> (\<forall>b. d b \<noteq> Panic \<and> (\<forall>x r. d b = Ok (x, r) \<longrightarrow> length r < length b))"

text \<open>
  A container decoder calls its step on proper suffixes of its input; if the step neither panics nor
  goes back there, the container does not panic, and every start it returns was read by the step.
\<close>

definition container :: "((bytes \<Rightarrow> bytes cbor) \<Rightarrow> bytes \<Rightarrow> (bytes list \<times> bytes) cbor) \<Rightarrow> bool" where
  "container d \<longleftrightarrow>
    (\<forall>step b. (\<forall>b'. length b' < length b \<longrightarrow> step b' \<noteq> Panic \<and> (\<forall>r. step b' = Ok r \<longrightarrow> length r \<le> length b')) \<longrightarrow>
      d step b \<noteq> Panic \<and>
      (\<forall>ss r. d step b = Ok (ss, r) \<longrightarrow> length r < length b \<and> (\<forall>s \<in> set ss. length s < length b \<and> is_ok (step s))))"

text \<open>The outcome of a decoder at one input.\<close>

definition reads_at :: "bytes \<Rightarrow> ('a \<times> bytes) cbor \<Rightarrow> bool" where
  "reads_at b m \<longleftrightarrow> m \<noteq> Panic \<and> (\<forall>x r. m = Ok (x, r) \<longrightarrow> length r < length b)"

lemma readsD: "reads d \<Longrightarrow> reads_at b (d b)"
  by (simp add: reads_def reads_at_def)

lemma reads_at_map_prod: "reads_at b m \<Longrightarrow> reads_at b (map_ok (map_prod f id) m)"
  by (cases m) (auto simp: reads_at_def)

lemma reads_at_Err: "reads_at b (Err e)"
  by (simp add: reads_at_def)

lemma decode_all_ok: "(\<And>s. s \<in> set ss \<Longrightarrow> is_ok (dec s)) \<Longrightarrow> is_ok (decode_all dec ss)"
proof (induction ss)
  case (Cons s ss)
  then have "is_ok (dec s)" "is_ok (decode_all dec ss)" by auto
  then show ?case by (cases "dec s"; cases "decode_all dec ss") auto
qed simp

lemma reads_at_container:
  assumes "container d" and dec: "\<And>b'. length b' < length b \<Longrightarrow> reads_at b' (dec b')"
  shows "reads_at b (and_then (d (\<lambda>b. map_ok snd (dec b)) b) (\<lambda>(ss, r).
    and_then (decode_all dec ss) (\<lambda>xs. Ok (f xs, r))))"
proof -
  let ?step = "\<lambda>b. map_ok snd (dec b)"
  have "?step b' \<noteq> Panic \<and> (\<forall>r. ?step b' = Ok r \<longrightarrow> length r \<le> length b')" if "length b' < length b" for b'
    using dec [OF that] by (auto simp: reads_at_def result_simps)
  with assms(1) [unfolded container_def, rule_format, of b ?step] have d: "d ?step b \<noteq> Panic"
    "\<And>ss r. d ?step b = Ok (ss, r) \<Longrightarrow> length r < length b \<and> (\<forall>s \<in> set ss. length s < length b \<and> is_ok (?step s))"
    by auto
  show ?thesis
  proof (cases "d ?step b")
    case (Ok p)
    obtain ss r where p: "p = (ss, r)" by (cases p)
    have "is_ok (dec s)" if "s \<in> set ss" for s
      using that d(2) [OF Ok [unfolded p]] by (cases "dec s") auto
    then have "is_ok (decode_all dec ss)" by (rule decode_all_ok)
    then show ?thesis using Ok p d(2) [OF Ok [unfolded p]] by (cases "decode_all dec ss") (auto simp: reads_at_def)
  qed (use d(1) in \<open>auto simp: reads_at_def\<close>)
qed

locale ipld_reader =
  fixes lib :: "'cid libs" and il :: ipld_libs
  assumes type_no_panic: "datatype_at il b \<noteq> Panic"
    and reads_lib: "reads (d_u8 lib)" "reads (d_u64 lib)" "reads (d_i64 lib)" "reads (d_bytes lib)"
      "reads (d_str lib)" "reads (d_cid lib)"
    and reads_il: "reads (skip_item il)" "reads (d_bool il)" "reads (d_u16 il)" "reads (d_u32 il)"
      "reads (d_i8 il)" "reads (d_i16 il)" "reads (d_i32 il)" "reads (d_f16 il)" "reads (d_f32 il)" "reads (d_f64 il)"
    and container_vec: "container (d_vec lib)"
    and container_map: "container (d_map il)"
begin

lemma integer_reads: "datatype_at il b = Ok ty \<Longrightarrow> int_type ty \<Longrightarrow> reads_at b (decode_integer lib il b)"
  using reads_lib reads_il
  by (auto simp: decode_integer_def int_type_def intro!: reads_at_map_prod dest: readsD [of _ b])

lemma entry_reads:
  assumes "\<And>b'. length b' < length b \<Longrightarrow> reads_at b' (dec b')"
  shows "reads_at b (decode_entry lib dec b)"
proof (cases "d_str lib b")
  case (Ok p)
  then show ?thesis
    using readsD [OF reads_lib(5), of b] assms [of "snd p"]
    by (cases p; cases "dec (snd p)") (auto simp: decode_entry_def decode_map_key_def reads_at_def)
qed (use readsD [OF reads_lib(5), of b] in \<open>auto simp: decode_entry_def decode_map_key_def reads_at_def\<close>)

lemma value_reads: "length b < n \<Longrightarrow> reads_at b (decode_value n lib il b)"
proof (induction n arbitrary: b)
  case (Suc n)
  then have IH: "reads_at b' (decode_value n lib il b')" if "length b' < length b" for b'
    using that by simp
  then have entry: "reads_at b' (decode_entry lib (decode_value n lib il) b')" if "length b' < length b" for b'
    using that by (intro entry_reads) auto
  have vec: "reads_at b (decode_vec lib (decode_value n lib il) b)"
    using reads_at_container [OF container_vec IH, where f = "\<lambda>x. x"] by (simp add: decode_vec_def)
  have map: "reads_at b (decode_map lib il (decode_value n lib il) b)"
    using reads_at_container [OF container_map entry, where f = btree_of] by (simp add: decode_map_def)
  show ?case
  proof (cases "datatype_at il b")
    case (Ok ty)
    note rules = reads_lib [THEN readsD, of b] reads_il [THEN readsD, of b] vec map integer_reads [OF Ok]
    from Ok rules show ?thesis by (cases ty) (auto simp: int_type_def intro!: reads_at_map_prod reads_at_Err)
  qed (use type_no_panic [of b] in \<open>auto simp: reads_at_def\<close>)
qed simp

end

end
