(* ===== verification/Json_Tree.thy ===== *)
theory Json_Tree
  imports Plum_Prelude
begin

text \<open>
  JSON trees, and how a derived \<open>Deserialize\<close> reads the fields of a struct from one.

  A \<open>json\<close> tree is what a \<open>Serialize\<close> implementation hands to the serializer, and what a
  deserializer walks. A struct is read from an object, whose fields may come in any order but only
  once, or from an array with the fields in order of declaration. A field missing from an object is
  an error unless its type is an \<open>Option\<close> or it has a \<open>default\<close>; an array may only leave out
  trailing fields with a \<open>default\<close>. \<open>deny_unknown_fields\<close> rejects other keys. A number that is an
  integer but does not fit 64 bits counts as no integer, as in \<open>serde_json\<close>.
\<close>

datatype json =
    JNull | JBool bool | JInt int | JFloat u64 | JStr string
  | JArr "json list" | JObj "(string \<times> json) list"

type_synonym 'a de = "('a, string) result"

definition mismatch :: "'a de" where
  "mismatch = Err ''data did not match''"

text \<open>
  The values of the fields of a struct, in order of declaration; its last \<open>defaults\<close> fields have a
  default.
\<close>

definition struct_fields :: "bool \<Rightarrow> nat \<Rightarrow> string list \<Rightarrow> json \<Rightarrow> json option list de" where
  "struct_fields deny defaults names j =
    (case j of
       JObj es \<Rightarrow>
         if distinct (filter (\<lambda>k. k \<in> set names) (map fst es)) \<and> (deny \<longrightarrow> set (map fst es) \<subseteq> set names)
         then Ok (map (map_of es) names) else mismatch
     | JArr js \<Rightarrow>
         if length js \<le> length names \<and> length names \<le> length js + defaults
         then Ok (map Some js @ replicate (length names - length js) None) else mismatch
     | _ \<Rightarrow> mismatch)"

fun required :: "(json \<Rightarrow> 'a de) \<Rightarrow> json option \<Rightarrow> 'a de" where
  "required f (Some j) = f j"
| "required f None = mismatch"

fun optional :: "(json \<Rightarrow> 'a de) \<Rightarrow> json option \<Rightarrow> 'a option de" where
  "optional f (Some j) = (if j = JNull then Ok None else map_ok Some (f j))"
| "optional f None = Ok None"

text \<open>An untagged enum: the first variant that can be read.\<close>

definition or_else :: "'a de \<Rightarrow> 'a de \<Rightarrow> 'a de" where
  "or_else a b = (if is_ok a then a else b)"

lemma or_else_simps [simp]:
  "or_else (Ok x) b = Ok x" "or_else (Err e) b = b" "or_else Panic b = b" "or_else mismatch b = b"
  by (simp_all add: or_else_def mismatch_def)

definition de_u64 :: "json \<Rightarrow> u64 de" where
  "de_u64 j = (case j of JInt i \<Rightarrow> if 0 \<le> i \<and> i < 2 ^ 64 then Ok (word_of_int i) else mismatch | _ \<Rightarrow> mismatch)"

definition de_i64 :: "json \<Rightarrow> int de" where
  "de_i64 j = (case j of JInt i \<Rightarrow> if - (2 ^ 63) \<le> i \<and> i < 2 ^ 63 then Ok i else mismatch | _ \<Rightarrow> mismatch)"

definition de_string :: "json \<Rightarrow> string de" where
  "de_string j = (case j of JStr s \<Rightarrow> Ok s | _ \<Rightarrow> mismatch)"

fun de_list :: "(json \<Rightarrow> 'a de) \<Rightarrow> json list \<Rightarrow> 'a list de" where
  "de_list f [] = Ok []"
| "de_list f (j # js) = and_then (f j) (\<lambda>x. map_ok ((#) x) (de_list f js))"

lemma de_u64_uint [simp]: "de_u64 (JInt (uint w)) = Ok w"
proof -
  have "uint w < 2 ^ 64" using unsigned_less [where 'a = int, of w] by simp
  then show ?thesis by (simp add: de_u64_def)
qed

lemma de_list_map: "(\<And>x. x \<in> set xs \<Longrightarrow> f (g x) = Ok x) \<Longrightarrow> de_list f (map g xs) = Ok xs"
  by (induction xs) auto

end
