(* ===== verification/Ipld_Json.thy ===== *)
theory Ipld_Json
  imports Ipld_Value Json_Tree
begin

text \<open>
  The DAG-JSON codec of IPLD values (the \<open>serde\<close> implementations of \<open>src/ipld/src/value\<close>) and the
  conversions of \<open>src/ipld/src/lib.rs\<close>.

  Which number method it calls for the text of a number,
  the text form of content identifiers and the multibase codec belong to the external
  crates: they are the fields of \<open>json_libs\<close>, and \<open>json_laws\<close> says what is documented about them.
\<close>

datatype number = VisitI64 u64 | VisitU64 u64 | VisitF64 u64 | VisitUnit

datatype mb_base = Base64 | OtherBase string

record 'cid json_libs =
  read_int :: "int \<Rightarrow> number"
  read_float :: "u64 \<Rightarrow> number"
  link_json :: "'cid \<Rightarrow> json"
  cid_parse :: "string \<Rightarrow> ('cid, string) result"
  mb_encode64 :: "bytes \<Rightarrow> string"
  mb_decode :: "string \<Rightarrow> (mb_base \<times> bytes, string) result"


subsection \<open>Bytes\<close>

definition bytes_to_string :: "'cid json_libs \<Rightarrow> bytes \<Rightarrow> string" where
  "bytes_to_string jl b = mb_encode64 jl b"

definition serialize_bytes :: "'cid json_libs \<Rightarrow> bytes \<Rightarrow> json" where
  "serialize_bytes jl b = JObj [(''/'', JObj [(''bytes'', JStr (bytes_to_string jl b))])]"

text \<open>A multibase string must be base 64.\<close>

definition decode_base64 :: "'cid json_libs \<Rightarrow> string \<Rightarrow> (bytes, string) result" where
  "decode_base64 jl s =
    and_then (mb_decode jl s) (\<lambda>(base, b).
      if base \<noteq> Base64 then Err ''unexpected multibase algorithm'' else Ok b)"

definition not_bytes :: "(bytes, string) result" where
  "not_bytes = Err ''unexpected JSON object for IPLD Bytes kind''"

definition deserialize_bytes :: "'cid json_libs \<Rightarrow> json \<Rightarrow> (bytes, string) result" where
  "deserialize_bytes jl j =
    (case j of
       JObj es \<Rightarrow>
         let m = btree_of es in
         if length m = 1 then
           (case btree_get (cmp ''/'') m of
              Some (JObj es') \<Rightarrow>
                let m' = btree_of es' in
                if length m' = 1 then
                  (case btree_get (cmp ''bytes'') m' of
                     Some (JStr s) \<Rightarrow> decode_base64 jl s
                   | _ \<Rightarrow> not_bytes)
                else not_bytes
            | _ \<Rightarrow> not_bytes)
         else not_bytes
     | _ \<Rightarrow> Err ''invalid type'')"


subsection \<open>Values\<close>

fun serialize :: "'cid json_libs \<Rightarrow> 'cid ipld_value \<Rightarrow> json" where
  "serialize jl Null = JNull"
| "serialize jl (Bool b) = JBool b"
| "serialize jl (Integer i) = JInt i"
| "serialize jl (Float f) = JFloat f"
| "serialize jl (String s) = JStr s"
| "serialize jl (Bytes b) = serialize_bytes jl b"
| "serialize jl (List vs) = JArr (map (serialize jl) vs)"
| "serialize jl (Map m) = JObj (map (\<lambda>e. (into_inner (fst e), serialize jl (snd e))) m)"
| "serialize jl (Link c) = link_json jl c"

primrec visit_number :: "number \<Rightarrow> 'cid ipld_value" where
  "visit_number (VisitI64 v) = Integer (sint v)"
| "visit_number (VisitU64 v) = Integer (uint v)"
| "visit_number (VisitF64 v) = Float v"
| "visit_number VisitUnit = Null"

primrec visit_integer :: "number \<Rightarrow> (int, string) result" where
  "visit_integer (VisitI64 v) = Ok (sint v)"
| "visit_integer (VisitU64 v) = Ok (uint v)"
| "visit_integer (VisitF64 v) = Err ''invalid type''"
| "visit_integer VisitUnit = Err ''invalid type''"

text \<open>The end of \<open>visit_map\<close>, once the entries have been inserted into a \<open>BTreeMap\<close>.\<close>

definition visit_map :: "'cid json_libs \<Rightarrow> (map_key \<times> 'cid ipld_value) list \<Rightarrow> ('cid ipld_value, string) result" where
  "visit_map jl m =
    (if length m = 1 then
       (case get_str ''/'' m of
          Some (String s) \<Rightarrow> map_ok Link (cid_parse jl s)
        | Some (Map m') \<Rightarrow>
            if length m' = 1 then
              (case get_str ''bytes'' m' of
                 Some (String s) \<Rightarrow> map_ok Bytes (decode_base64 jl s)
               | _ \<Rightarrow> Ok (Map m))
            else Ok (Map m)
        | _ \<Rightarrow> Ok (Map m))
     else Ok (Map m))"

fun deserialize :: "'cid json_libs \<Rightarrow> json \<Rightarrow> ('cid ipld_value, string) result"
  and visit_seq :: "'cid json_libs \<Rightarrow> json list \<Rightarrow> ('cid ipld_value list, string) result"
  and visit_entries :: "'cid json_libs \<Rightarrow> (string \<times> json) list \<Rightarrow> ((map_key \<times> 'cid ipld_value) list, string) result"
where
  "deserialize jl JNull = Ok Null"
| "deserialize jl (JBool b) = Ok (Bool b)"
| "deserialize jl (JInt i) = Ok (visit_number (read_int jl i))"
| "deserialize jl (JFloat f) = Ok (visit_number (read_float jl f))"
| "deserialize jl (JStr s) = Ok (String s)"
| "deserialize jl (JArr js) = map_ok List (visit_seq jl js)"
| "deserialize jl (JObj es) = and_then (visit_entries jl es) (\<lambda>m. visit_map jl (btree_of m))"
| "visit_seq jl [] = Ok []"
| "visit_seq jl (j # js) =
    and_then (deserialize jl j) (\<lambda>v. map_ok ((#) v) (visit_seq jl js))"
| "visit_entries jl [] = Ok []"
| "visit_entries jl ((k, j) # es) =
    and_then (deserialize jl j) (\<lambda>v. map_ok ((#) (MapKey k, v)) (visit_entries jl es))"

text \<open>Maps that DAG-JSON reserves for links and bytes.\<close>

fun reserved :: "(map_key \<times> 'cid ipld_value) list \<Rightarrow> bool" where
  "reserved [(k, String _)] = (k = MapKey ''/'')"
| "reserved [(k, Map [(k', String _)])] = (k = MapKey ''/'' \<and> k' = MapKey ''bytes'')"
| "reserved _ = False"

fun json_ok :: "'cid json_libs \<Rightarrow> 'cid ipld_value \<Rightarrow> bool" where
  "json_ok jl (Integer i) = cbor_int i"
| "json_ok jl (Float f) = (read_float jl f = VisitF64 f)"
| "json_ok jl (List vs) = (\<forall>v \<in> set vs. json_ok jl v)"
| "json_ok jl (Map m) = (sorted_keys m \<and> \<not> reserved m \<and> (\<forall>e \<in> set m. json_ok jl (snd e)))"
| "json_ok _ _ = True"


subsection \<open>Conversions\<close>

datatype ipld_error = Codec string | Custom string

text \<open>
  The conversions are generic in a type that can be serialized: \<open>j\<close> is what the value serializes to,
  \<open>dec\<close> the deserializer of the target type, and \<open>enc\<close>, \<open>shown\<close> its CBOR encoding and
  the text of a decoder error. \<open>to_string\<close> and \<open>to_vec\<close> are unwrapped.
\<close>

definition json_to_ipld :: "'cid json_libs \<Rightarrow> (json, 'f) result \<Rightarrow> ('cid ipld_value, ipld_error) result" where
  "json_to_ipld jl j = and_then (unwrap j) (\<lambda>j. map_err Codec (deserialize jl j))"

definition json_from_ipld :: "'cid json_libs \<Rightarrow> (json \<Rightarrow> ('t, string) result) \<Rightarrow> 'cid ipld_value \<Rightarrow> ('t, ipld_error) result" where
  "json_from_ipld jl dec v = map_err Codec (dec (serialize jl v))"

definition cbor_to_ipld ::
  "nat \<Rightarrow> 'cid libs \<Rightarrow> ipld_libs \<Rightarrow> (cbor_error \<Rightarrow> string) \<Rightarrow> bytes cbor \<Rightarrow> ('cid ipld_value, ipld_error) result" where
  "cbor_to_ipld n lib il shown enc =
    and_then (unwrap enc) (\<lambda>b. map_err (Codec \<circ> shown) (map_ok fst (decode_value n lib il b)))"

definition cbor_from_ipld ::
  "'cid libs \<Rightarrow> ipld_libs \<Rightarrow> (cbor_error \<Rightarrow> string) \<Rightarrow> (bytes \<Rightarrow> ('t \<times> bytes) cbor) \<Rightarrow> 'cid ipld_value \<Rightarrow>
    ('t, ipld_error) result" where
  "cbor_from_ipld lib il shown dec v =
    and_then (unwrap (encode_value lib il v)) (\<lambda>b. map_err (Codec \<circ> shown) (map_ok fst (dec b)))"


subsection \<open>Round trip\<close>

locale json_laws =
  fixes jl :: "'cid json_libs"
  assumes int_unsigned: "0 \<le> i \<Longrightarrow> i < 2 ^ 64 \<Longrightarrow> read_int jl i = VisitU64 (word_of_int i)"
    and int_signed: "- (2 ^ 63) \<le> i \<Longrightarrow> i < 0 \<Longrightarrow> read_int jl i = VisitI64 (word_of_int i)"
    and link_form: "\<exists>s. link_json jl c = JObj [(''/'', JStr s)] \<and> cid_parse jl s = Ok c"
    and mb_rt: "mb_decode jl (mb_encode64 jl b) = Ok (Base64, b)"
begin

lemma visit_read_int: "cbor_int i \<Longrightarrow> visit_number (read_int jl i) = Integer i"
  by (cases "0 \<le> i") (auto simp: int_unsigned int_signed cbor_int_def uint_word_of_int_fits sint_word_of_int_fits)

lemma get_str_single: "get_str s [(k, v)] = (if k = MapKey s then Some v else None)"
  by (cases k) (auto simp: get_str_def borrow_str_def cmp_def)

lemma visit_map_plain:
  assumes "\<not> reserved m"
  shows "visit_map jl m = Ok (Map m)"
proof (cases "\<exists>k v. m = [(k, v)]")
  case True
  then obtain k v where m: "m = [(k, v)]" by blast
  then show ?thesis
  proof (cases v)
    case (Map m')
    show ?thesis
    proof (cases "\<exists>k' v'. m' = [(k', v')]")
      case True
      then obtain k' v' where "m' = [(k', v')]" by blast
      with assms m Map show ?thesis by (cases v') (auto simp: visit_map_def get_str_single)
    next
      case False
      then have "length m' \<noteq> 1" by (auto simp: length_Suc_conv)
      with m Map show ?thesis by (simp add: visit_map_def get_str_single)
    qed
  qed (use assms m in \<open>auto simp: visit_map_def get_str_single\<close>)
next
  case False
  then have "length m \<noteq> 1" by (auto simp: length_Suc_conv)
  then show ?thesis by (simp add: visit_map_def)
qed

lemma json_roundtrip: "json_ok jl v \<Longrightarrow> deserialize jl (serialize jl v) = Ok v"
proof (induction v)
  case (Integer i)
  then show ?case by (simp add: visit_read_int)
next
  case (Bytes b)
  then show ?case
    by (simp add: serialize_bytes_def bytes_to_string_def visit_map_def btree_of_sorted get_str_single
        decode_base64_def mb_rt)
next
  case (List vs)
  then have "visit_seq jl (map (serialize jl) vs) = Ok vs"
    by (induction vs) auto
  then show ?case by simp
next
  case (Map m)
  have "deserialize jl (serialize jl (snd e)) = Ok (snd e)" if "e \<in> set m" for e
    using that Map.prems Map.IH [of e "snd e"] by (auto simp: snds.simps)
  then have "visit_entries jl (map (\<lambda>e. (into_inner (fst e), serialize jl (snd e))) m) = Ok m"
    by (induction m) auto
  with Map show ?case by (simp add: visit_map_plain btree_of_sorted)
next
  case (Link c)
  obtain s where "link_json jl c = JObj [(''/'', JStr s)]" "cid_parse jl s = Ok c" using link_form by blast
  then show ?case by (simp add: visit_map_def btree_of_sorted get_str_single)
qed auto

lemma reserved_changes:
  assumes "reserved m"
  shows "deserialize jl (serialize jl (Map m)) \<noteq> Ok (Map m)"
proof -
  consider s where "m = [(MapKey ''/'', String s)]"
    | s where "m = [(MapKey ''/'', Map [(MapKey ''bytes'', String s)])]"
    using assms by (cases m rule: reserved.cases) auto
  then show ?thesis
    by cases (auto simp: visit_map_def btree_of_sorted get_str_single result_simps)
qed

lemma bytes_roundtrip: "deserialize_bytes jl (serialize_bytes jl b) = Ok b"
  by (simp add: deserialize_bytes_def serialize_bytes_def bytes_to_string_def btree_of_sorted cmp_def
      decode_base64_def mb_rt)

end

end
