(* ===== verification/Ipld_Instance.thy ===== *)
theory Ipld_Instance
  imports Ipld_Cbor Ipld_Json Codec_Rfc7049
begin

text \<open>
  The IPLD part of the concrete codec of RFC 7049, which interprets the two interfaces of
  \<open>Ipld_Cbor\<close>, and the properties of the DAG-CBOR codec with their witnesses.

  The instance of the JSON interface prints the bytes of a content identifier and of a multibase
  string as characters. Half precision numbers, which the encoder never writes, are rejected by this instance, and
  \<open>skip\<close> is the one of items without content.
\<close>

definition type_at :: "bytes \<Rightarrow> cbor_type cbor" where
  "type_at b =
    (case b of
       [] \<Rightarrow> Err (Library ''end of input'')
     | h # _ \<Rightarrow>
         let major = drop_bit 5 h in
         if major = 0 then map_ok (\<lambda>((_, n), _). unsigned_type n) (dec_head b)
         else if major = 1 then map_ok (\<lambda>((_, n), _). signed_type (NOT n)) (dec_head b)
         else if major = 2 then Ok TBytes
         else if major = 3 then Ok TString
         else if major = 4 then Ok TArray
         else if major = 5 then Ok TMap
         else if major = 6 then Ok TTag
         else if h = 0xF4 \<or> h = 0xF5 then Ok TBool
         else if h = 0xF6 then Ok TNull
         else if h = 0xF7 then Ok TUndefined
         else if h = 0xF9 then Ok TF16
         else if h = 0xFA then Ok TF32
         else if h = 0xFB then Ok TF64
         else if h = 0xFF then Ok TBreak
         else Ok (TUnknown h))"

definition read_byte :: "(u8 \<Rightarrow> 'a option) \<Rightarrow> bytes \<Rightarrow> ('a \<times> bytes) cbor" where
  "read_byte f b =
    (case b of
       [] \<Rightarrow> Err (Library ''end of input'')
     | h # r \<Rightarrow> map_ok (\<lambda>x. (x, r)) (ok_or (f h) (Library ''unexpected type'')))"

definition read_fixed :: "u8 \<Rightarrow> nat \<Rightarrow> bytes \<Rightarrow> (u64 \<times> bytes) cbor" where
  "read_fixed h k b =
    and_then (read_byte (\<lambda>x. if x = h then Some () else None) b) (\<lambda>(_, r).
      if length r < k then Err (Library ''end of input'') else Ok (be_val (take k r), drop k r))"

definition rfc7049_ipld :: ipld_libs where
  "rfc7049_ipld =
    \<lparr>datatype_at = type_at,
     skip_item = read_byte (\<lambda>h. if 0xE0 \<le> h \<and> h < 0xF8 then Some () else None),
     e_null = [0xF6],
     e_bool = (\<lambda>t. [if t then 0xF5 else 0xF4]),
     d_bool = read_byte (\<lambda>h. if h = 0xF5 then Some True else if h = 0xF4 then Some False else None),
     e_u16 = (\<lambda>w. enc_head 0 (ucast w)),
     d_u16 = (\<lambda>b. map_ok (map_prod ucast id) (expect 0 b)),
     e_u32 = (\<lambda>w. enc_head 0 (ucast w)),
     d_u32 = (\<lambda>b. map_ok (map_prod ucast id) (expect 0 b)),
     e_i8 = (\<lambda>w. enc_i64 (scast w)),
     d_i8 = (\<lambda>b. map_ok (map_prod ucast id) (dec_i64 b)),
     e_i16 = (\<lambda>w. enc_i64 (scast w)),
     d_i16 = (\<lambda>b. map_ok (map_prod ucast id) (dec_i64 b)),
     e_i32 = (\<lambda>w. enc_i64 (scast w)),
     d_i32 = (\<lambda>b. map_ok (map_prod ucast id) (dec_i64 b)),
     e_f64 = (\<lambda>f. 0xFB # be_bytes 8 f),
     d_f16 = (\<lambda>_. Err (Library ''half precision'')),
     d_f32 = (\<lambda>b. map_ok (map_prod ucast id) (read_fixed 0xFA 4 b)),
     d_f64 = read_fixed 0xFB 8,
     e_map = (\<lambda>es. enc_len 5 (length es) @ concat es),
     d_map = (\<lambda>step b. and_then (dec_len 5 b) (\<lambda>(n, r). dec_items n step r))\<rparr>"


subsection \<open>Round trips\<close>

lemma enc_head_Cons:
  assumes "m < 8"
  shows "\<exists>h t. enc_head m n = h # t \<and> drop_bit 5 h = m"
proof -
  have "drop_bit 5 (push_bit 5 m OR k) = m" if "k < 28" for k :: u8
    using head_byte(2) [OF assms, of k] that by (simp add: word_less_nat_alt)
  moreover have "(ucast n :: u8) < 28" if "n < 24"
    using that by (auto simp: word_less_nat_alt unsigned_ucast_eq take_bit_eq_mod)
  ultimately show ?thesis by (auto simp: enc_head_def Let_def simp del: drop_bit_or)
qed

lemma enc_len_Cons:
  assumes "m < 8"
  shows "\<exists>h t. enc_len m n = h # t \<and> drop_bit 5 h = m"
  using enc_head_Cons [OF assms, of "of_nat n"] head_byte(2) [OF assms, of 28]
  by (auto simp: enc_len_def simp del: drop_bit_or)

lemma type_at_len:
  "type_at (enc_len 2 n @ r) = Ok TBytes" "type_at (enc_len 3 n @ r) = Ok TString"
  "type_at (enc_len 4 n @ r) = Ok TArray" "type_at (enc_len 5 n @ r) = Ok TMap"
  using enc_len_Cons [of 2 n] enc_len_Cons [of 3 n] enc_len_Cons [of 4 n] enc_len_Cons [of 5 n]
  by (auto simp: type_at_def)

lemma type_at_cid: "type_at (enc_cid c @ r) = Ok TTag"
  using enc_head_Cons [of 6 42] by (auto simp: type_at_def enc_cid_def)

lemma type_at_u64: "type_at (enc_head 0 x @ r) = Ok (unsigned_type x)"
  using enc_head_Cons [of 0 x] dec_enc_head [of 0 x r] by (auto simp: type_at_def)

lemma type_at_i64: "sint x < 0 \<Longrightarrow> type_at (enc_i64 x @ r) = Ok (signed_type x)"
  using enc_head_Cons [of 1 "NOT x"] dec_enc_head [of 1 "NOT x" r]
  by (auto simp: type_at_def enc_i64_def bit_last_iff [symmetric])

lemma ucast_scast_id: "LENGTH('a) \<le> LENGTH('b) \<Longrightarrow> ucast (scast w :: 'b::len word) = (w :: 'a::len word)"
  by (rule bit_word_eqI) (auto simp: bit_simps)

lemma ucast_ucast_id: "LENGTH('a) \<le> LENGTH('b) \<Longrightarrow> ucast (ucast w :: 'b::len word) = (w :: 'a::len word)"
  by (rule bit_word_eqI) (auto simp: bit_simps)

lemma read_fixed_f64: "read_fixed 0xFB 8 (0xFB # be_bytes 8 f @ r) = Ok (f, r)"
  by (simp add: read_fixed_def read_byte_def be_val_be_bytes take_bit_word_eq_self del: be_bytes.simps)

interpretation dag_cbor: ipld_codec rfc7049 rfc7049_ipld
proof (unfold_locales, goal_cases)
  case (24 es step r)
  then show ?case using dec_items_concat [of es step r] by (simp add: rfc7049_ipld_def dec_enc_len)
qed (simp_all add: rfc7049_ipld_def rfc7049_def type_at_def [of "_ # _"] read_byte_def expect_enc_head dec_enc_i64
    type_at_len type_at_cid type_at_u64 type_at_i64 enc_string_def enc_vec_def ucast_scast_id ucast_ucast_id
    read_fixed_f64 del: be_bytes.simps)


subsection \<open>Arbitrary input\<close>

lemma reads_map_ok: "reads d \<Longrightarrow> reads (\<lambda>b. map_ok (map_prod f id) (d b))"
  by (auto simp: reads_def result_simps)

lemma reads_map_ok': "reads d \<Longrightarrow> reads (\<lambda>b. map_ok (\<lambda>(x, r). (f x, r)) (d b))"
  by (auto simp: reads_def result_simps)

lemma reads_read_byte: "reads (read_byte f)"
proof -
  have "ok_or x (e :: cbor_error) \<noteq> Panic" for x :: "'a option" and e by (cases x) auto
  then show ?thesis by (auto simp: reads_def read_byte_def result_simps split: list.splits)
qed

lemma reads_dec_head: "reads dec_head"
  by (auto simp: reads_def dec_head_def Let_def split: list.splits if_splits)

lemma reads_expect: "reads (expect m)"
  using reads_dec_head by (fastforce simp: reads_def expect_def result_simps split: if_splits)

lemma reads_dec_i64: "reads dec_i64"
  using reads_dec_head by (fastforce simp: reads_def dec_i64_def result_simps split: if_splits)

lemma reads_dec_unary: "dec_unary b \<noteq> Panic \<and> (\<forall>n r. dec_unary b = Ok (n, r) \<longrightarrow> length r < length b)"
  by (induction b) (fastforce simp: result_simps split: if_splits)+

lemma reads_dec_len: "reads (dec_len m)"
  using reads_expect [of m] reads_dec_unary
  by (fastforce simp: reads_def dec_len_def result_simps split: list.splits if_splits)

lemma reads_dec_string: "reads (dec_string m)"
  using reads_dec_len [of m] by (fastforce simp: reads_def dec_string_def result_simps split: if_splits)

lemma reads_dec_cid: "reads dec_cid"
  using reads_dec_string [of 2] reads_expect [of 6]
  by (fastforce simp: reads_def dec_cid_def result_simps split: if_splits)

lemma reads_read_fixed: "reads (read_fixed h k)"
  using reads_read_byte [of "\<lambda>x. if x = h then Some () else None"]
  by (fastforce simp: reads_def read_fixed_def result_simps split: if_splits)

lemma dec_items_reads:
  assumes "\<And>b'. length b' \<le> k \<Longrightarrow> step b' \<noteq> Panic \<and> (\<forall>r. step b' = Ok r \<longrightarrow> length r \<le> length b')"
  shows "length b \<le> k \<Longrightarrow> dec_items n step b \<noteq> Panic \<and>
    (\<forall>ss r. dec_items n step b = Ok (ss, r) \<longrightarrow>
      length r \<le> length b \<and> (\<forall>s \<in> set ss. length s \<le> length b \<and> is_ok (step s)))"
proof (induction n arbitrary: b)
  case (Suc n)
  show ?case
  proof (cases "step b")
    case (Ok r)
    with assms [OF Suc.prems] have "length r \<le> length b" by simp
    with Suc.IH [of r] Suc.prems show ?thesis using Ok by (fastforce simp: result_simps)
  qed (use assms [OF Suc.prems] in auto)
qed simp

lemma container_items: "container (\<lambda>step b. and_then (dec_len m b) (\<lambda>(n, r). dec_items n step r))"
  unfolding container_def
proof (intro allI impI)
  fix step :: "bytes \<Rightarrow> bytes cbor" and b :: bytes
  assume step: "\<forall>b'. length b' < length b \<longrightarrow> step b' \<noteq> Panic \<and> (\<forall>r. step b' = Ok r \<longrightarrow> length r \<le> length b')"
  show "and_then (dec_len m b) (\<lambda>(n, r). dec_items n step r) \<noteq> Panic \<and>
    (\<forall>ss r. and_then (dec_len m b) (\<lambda>(n, r). dec_items n step r) = Ok (ss, r) \<longrightarrow>
      length r < length b \<and> (\<forall>s \<in> set ss. length s < length b \<and> is_ok (step s)))"
  proof (cases "dec_len m b")
    case (Ok p)
    obtain n r where p: "p = (n, r)" by (cases p)
    with Ok have r: "length r < length b" using reads_dec_len [of m] by (auto simp: reads_def)
    then have "dec_items n step r \<noteq> Panic \<and> (\<forall>ss r'. dec_items n step r = Ok (ss, r') \<longrightarrow>
        length r' \<le> length r \<and> (\<forall>s \<in> set ss. length s \<le> length r \<and> is_ok (step s)))"
      using step by (intro dec_items_reads [of "length r"]) auto
    then show ?thesis using Ok p r by fastforce
  qed (use reads_dec_len [of m] in \<open>auto simp: reads_def\<close>)
qed

interpretation dag_cbor_reader: ipld_reader rfc7049 rfc7049_ipld
proof (unfold_locales, goal_cases)
  case (1 b)
  have "dec_head b \<noteq> Panic" using reads_dec_head by (simp add: reads_def)
  then show ?case
    by (auto simp: rfc7049_ipld_def type_at_def Let_def result_simps split: list.splits)
next
  case 18
  show ?case using container_items [of 4] by (simp add: rfc7049_def dec_vec_def [abs_def])
next
  case 19
  show ?case using container_items [of 5] by (simp add: rfc7049_ipld_def)
qed (auto simp: rfc7049_def rfc7049_ipld_def reads_expect reads_dec_i64 reads_dec_string reads_dec_cid
    reads_read_byte reads_read_fixed reads_def [of "\<lambda>_. Err _"]
    intro!: reads_map_ok reads_map_ok')


subsection \<open>Properties of the DAG-CBOR codec\<close>


definition sample_ipld :: "bytes ipld_value" where
  "sample_ipld = Map [(MapKey ''b'', List [Integer (- 200), Bool True]), (MapKey ''aa'', Link [1, 2])]"




text \<open>
  The integer encoder panics exactly on the integers outside the range of CBOR, from the least
  \<open>i64\<close> to the greatest \<open>u64\<close>; it never returns an error.
\<close>

lemma ipld_integer_range:
  "encode_integer lib il i = Panic \<longleftrightarrow> i < - (2 ^ 63) \<or> 2 ^ 64 \<le> i"
  "encode_integer lib il i \<noteq> Err e"
  using encode_integer_cases [of lib il i] by (auto simp: cbor_int_def)



subsection \<open>Properties of the DAG-JSON codec\<close>

definition plain_json :: "bytes json_libs" where
  "plain_json =
    \<lparr>read_int = (\<lambda>i. if 0 \<le> i \<and> i < 2 ^ 64 then VisitU64 (word_of_int i)
       else if - (2 ^ 63) \<le> i \<and> i < 0 then VisitI64 (word_of_int i) else VisitF64 0),
     read_float = VisitF64,
     link_json = (\<lambda>c. JObj [(''/'', JStr (bytes_ascii c))]),
     cid_parse = (\<lambda>s. Ok (ascii_bytes s)),
     mb_encode64 = (\<lambda>b. CHR ''m'' # bytes_ascii b),
     mb_decode = (\<lambda>s. case s of [] \<Rightarrow> Err ''empty''
       | c # t \<Rightarrow> Ok (if c = CHR ''m'' then Base64 else OtherBase [c], ascii_bytes t))\<rparr>"

lemma ascii_bytes_ascii: "ascii_bytes (bytes_ascii b) = b"
proof -
  have "of_nat (of_char (char_of (unat x) :: char)) = x" for x :: u8
    using unat_u8_bound [of x] by simp
  then show ?thesis by (induction b) (auto simp: bytes_ascii_def ascii_bytes_def)
qed

interpretation plain_json: json_laws plain_json
  by unfold_locales (auto simp: plain_json_def ascii_bytes_ascii)



text \<open>
  C32: A map searched by a key finds what a map holds, but \<open>Borrow<str>\<close> makes a map searchable by a
  string, in the order of strings, which is not the order the map is sorted by. On a map of one
  entry, as in \<open>visit_map\<close>, the searches agree; there is a sorted map of two entries in
  which the search by a string misses a key that is present.
\<close>

theorem ipld_borrowed_lookup:
  "(sorted_keys m \<longrightarrow> get_key k m = map_of m k) \<and>
   get_str s [(k, v)] = get_key (MapKey s) [(k, v)] \<and>
   (\<exists>m s. sorted_keys m \<and> get_key (MapKey s) m = Some v \<and> get_str s m = None)"
proof (intro conjI impI)
  show "sorted_keys m \<Longrightarrow> get_key k m = map_of m k" by (rule get_key_map_of)
  show "get_str s [(k, v)] = get_key (MapKey s) [(k, v)]"
    by (simp add: plain_json.get_str_single map_key_cmp_less cmp_def)
  let ?m = "[(MapKey ''b'', v), (MapKey ''aa'', v)]"
  have "sorted_keys ?m \<and> get_key (MapKey ''aa'') ?m = Some v \<and> get_str ''aa'' ?m = None"
    by (simp add: less_map_key_def map_key_cmp_def cmp_def get_str_def borrow_str_def)
  then show "\<exists>m s. sorted_keys m \<and> get_key (MapKey s) m = Some v \<and> get_str s m = None" by blast
qed

theorem ipld_borrowed_lookup_witness:
  "get_key (MapKey ''b'') [(MapKey ''b'', 1 :: nat)] = map_of [(MapKey ''b'', 1)] (MapKey ''b'')"
proof -
  have "sorted_keys [(MapKey ''b'', 1 :: nat)]" by simp
  then show ?thesis
    using ipld_borrowed_lookup [where m = "[(MapKey ''b'', 1 :: nat)]" and k = "MapKey ''b''" and v = "1 :: nat"] by blast
qed

end
