(* ===== verification/Rocks_Stats.thy ===== *)
theory Rocks_Stats
  imports Rust_Str
begin

text \<open>
  The statistics of the RocksDB backend (\<open>src/ipfs/datastore-rocksdb/src/rocks/stats.rs\<close>): the parser of the
  statistics text of RocksDB, the running counters of a database, and the queries on them.

  The six atomic counters are one record: \<open>fetch_add\<close> wraps, while \<open>combine\<close> adds with \<open>+\<close> and so
  panics on overflow when overflow checks are compiled in. An \<open>Instant\<close> is a clock reading, an
  argument of the operations that call \<open>Instant::now\<close>. The decimal text of an \<open>f64\<close> is read
  by the parameter \<open>parse_f64\<close>.
\<close>

subsection \<open>The statistics text\<close>

record RocksDBStatsTimeValue =
  p50 :: u64
  p95 :: u64
  p99 :: u64
  p100 :: u64
  sum_time :: u64

record RocksDBStatsValue =
  count :: u64
  times :: "RocksDBStatsTimeValue option"

text \<open>\<open>str::lines\<close>, \<open>splitn(2, ' ')\<close>, \<open>trim_start_matches\<close>, the last part of \<open>rsplit\<close>, \<open>split_whitespace\<close>.\<close>

fun str_lines :: "string \<Rightarrow> string list" where
  "str_lines [] = []"
| "str_lines (c # s) =
    (if c = CHR 0x0A then [] # str_lines s
     else case str_lines s of
        [] \<Rightarrow> [[c]]
      | l # ls \<Rightarrow> (if c = CHR 0x0D \<and> l = [] \<and> s \<noteq> [] then l # ls else (c # l) # ls))"

fun splitn2 :: "char \<Rightarrow> string \<Rightarrow> string \<times> string option" where
  "splitn2 sep [] = ([], None)"
| "splitn2 sep (c # s) =
    (if c = sep then ([], Some s) else let (a, b) = splitn2 sep s in (c # a, b))"

fun strip_prefix :: "string \<Rightarrow> string \<Rightarrow> string option" where
  "strip_prefix [] s = Some s"
| "strip_prefix (p # ps) [] = None"
| "strip_prefix (p # ps) (c # s) = (if p = c then strip_prefix ps s else None)"

lemma strip_prefix_length: "strip_prefix p s = Some t \<Longrightarrow> length s = length p + length t"
  by (induction p s rule: strip_prefix.induct) (auto split: if_splits)

function trim_start_matches :: "string \<Rightarrow> string \<Rightarrow> string" where
  "trim_start_matches p s =
    (if p = [] then s
     else case strip_prefix p s of None \<Rightarrow> s | Some t \<Rightarrow> trim_start_matches p t)"
  by pat_completeness auto
termination
  by (relation "measure (length \<circ> snd)") (auto dest: strip_prefix_length)

declare trim_start_matches.simps [simp del]

fun rsplit_last :: "string \<Rightarrow> string \<Rightarrow> string \<Rightarrow> string" where
  "rsplit_last p best [] = best"
| "rsplit_last p best (c # s) =
    (case strip_prefix p (c # s) of
       Some t \<Rightarrow> rsplit_last p t s
     | None \<Rightarrow> rsplit_last p best s)"

definition is_whitespace :: "char \<Rightarrow> bool" where
  "is_whitespace c \<longleftrightarrow> c \<in> {CHR '' '', CHR 0x09, CHR 0x0A, CHR 0x0B, CHR 0x0C, CHR 0x0D}"

fun split_whitespace :: "string \<Rightarrow> string \<Rightarrow> string list" where
  "split_whitespace acc [] = (if acc = [] then [] else [acc])"
| "split_whitespace acc (c # s) =
    (if is_whitespace c then (if acc = [] then split_whitespace [] s else acc # split_whitespace [] s)
     else split_whitespace (acc @ [c]) s)"

text \<open>\<open>expect\<close>.\<close>

fun expect_some :: "'a option \<Rightarrow> ('a, 'e) result" where
  "expect_some (Some x) = Ok x"
| "expect_some None = Panic"

definition value_at :: "string list \<Rightarrow> nat \<Rightarrow> (string \<Rightarrow> 'a option) \<Rightarrow> ('a, 'e) result" where
  "value_at vs i parse =
    (if i < length vs then expect_some (parse (vs ! i)) else Panic)"

definition parse_rocksdb_stats_row ::
  "(string \<Rightarrow> u64 option) \<Rightarrow> string \<times> string option \<Rightarrow> (string \<times> RocksDBStatsValue, 'e) result" where
  "parse_rocksdb_stats_row parse_f64 row =
    (let key = trim_start_matches ''rocksdb.'' (fst row) in
     and_then (expect_some (snd row)) (\<lambda>vals.
     and_then
       (if strip_prefix ''COUNT'' vals \<noteq> None then
          and_then (expect_some (parse_u64 (rsplit_last '' : '' vals vals))) (\<lambda>n.
            Ok \<lparr>count = n, times = None\<rparr>)
        else
          let vs = filter (\<lambda>s. s \<noteq> '':'') (split_whitespace [] vals) in
          and_then (value_at vs 9 parse_u64) (\<lambda>n.
          and_then (value_at vs 1 parse_f64) (\<lambda>a.
          and_then (value_at vs 3 parse_f64) (\<lambda>b.
          and_then (value_at vs 5 parse_f64) (\<lambda>c.
          and_then (value_at vs 7 parse_f64) (\<lambda>d.
          and_then (value_at vs 11 parse_u64) (\<lambda>s.
            Ok \<lparr>count = n, times = Some \<lparr>p50 = a, p95 = b, p99 = c, p100 = d, sum_time = s\<rparr>\<rparr>)))))))
       (\<lambda>v. Ok (key, v))))"

fun parse_rows :: "(string \<Rightarrow> u64 option) \<Rightarrow> string list \<Rightarrow> ((string \<times> RocksDBStatsValue) list, 'e) result" where
  "parse_rows parse_f64 [] = Ok []"
| "parse_rows parse_f64 (l # ls) =
    and_then (parse_rocksdb_stats_row parse_f64 (splitn2 CHR '' '' l)) (\<lambda>r.
      map_ok ((#) r) (parse_rows parse_f64 ls))"

definition parse_rocksdb_stats ::
  "(string \<Rightarrow> u64 option) \<Rightarrow> string \<Rightarrow> (string \<rightharpoonup> RocksDBStatsValue, 'e) result" where
  "parse_rocksdb_stats parse_f64 stats =
    map_ok (\<lambda>rows. map_of (rev rows)) (parse_rows parse_f64 (str_lines stats))"

text \<open>The row of a counter is read back.\<close>

lemma splitn2_append: "sep \<notin> set a \<Longrightarrow> splitn2 sep (a @ sep # b) = (a, Some b)"
  by (induction a) auto

lemma strip_prefix_append: "strip_prefix p (p @ s) = Some s"
  by (induction p) auto

lemma rsplit_last_no_sep: "p \<notin> set s \<Longrightarrow> rsplit_last (p # ps) best s = best"
  by (induction s) auto

lemma show_u64_digits: "c \<in> set (show_u64 n) \<Longrightarrow> \<exists>d < 10. of_char c = 48 + (d :: nat)"
  using show_nat_digits [of c "unat n"] of_char_digit by (auto simp: show_u64_def)

lemma show_u64_no_space: "CHR '' '' \<notin> set (show_u64 n)" "CHR '':'' \<notin> set (show_u64 n)"
  using show_u64_digits [of "CHR '' ''" n] show_u64_digits [of "CHR '':''" n] by auto

lemma strip_prefix_None: "p \<notin> set s \<Longrightarrow> strip_prefix (p # ps) s = None"
  by (cases s) auto

lemma parse_count_row:
  assumes "CHR '' '' \<notin> set k" "strip_prefix ''rocksdb.'' k = None"
  shows "parse_rocksdb_stats_row parse_f64 (splitn2 CHR '' '' (''rocksdb.'' @ k @ '' COUNT : '' @ show_u64 n)) =
    Ok (k, \<lparr>count = n, times = None\<rparr>)"
proof -
  have row: "splitn2 CHR '' '' (''rocksdb.'' @ k @ '' COUNT : '' @ show_u64 n) =
      (''rocksdb.'' @ k, Some (''COUNT : '' @ show_u64 n))"
    using splitn2_append [of "CHR '' ''" "''rocksdb.'' @ k" "''COUNT : '' @ show_u64 n"] assms(1) by simp
  have "trim_start_matches ''rocksdb.'' (''rocksdb.'' @ k) = k"
    using assms(2) strip_prefix_append [of "''rocksdb.''" k] by (simp add: trim_start_matches.simps)
  moreover have "rsplit_last '' : '' (''COUNT : '' @ show_u64 n) (''COUNT : '' @ show_u64 n) = show_u64 n"
    by (simp add: rsplit_last_no_sep show_u64_no_space strip_prefix_None)
  ultimately show ?thesis
    unfolding row parse_rocksdb_stats_row_def by (simp add: parse_show_u64 Let_def del: rsplit_last.simps)
qed


subsection \<open>Counters\<close>

record RawDBStats =
  reads :: u64
  bytes_read :: u64
  writes :: u64
  bytes_written :: u64
  transactions :: u64
  cache_hit_count :: u64

definition raw_default :: RawDBStats where
  "raw_default = \<lparr>reads = 0, bytes_read = 0, writes = 0, bytes_written = 0, transactions = 0, cache_hit_count = 0\<rparr>"

definition combine :: "bool \<Rightarrow> RawDBStats \<Rightarrow> RawDBStats \<Rightarrow> (RawDBStats, 'e) result" where
  "combine oc self other =
    and_then (add_w oc (reads self) (reads other)) (\<lambda>r.
    and_then (add_w oc (bytes_read self) (bytes_read other)) (\<lambda>br.
    and_then (add_w oc (writes self) (writes other)) (\<lambda>w.
    and_then (add_w oc (bytes_written self) (bytes_written other)) (\<lambda>bw.
    and_then (add_w oc (transactions self) (transactions other)) (\<lambda>t.
    and_then (add_w oc (cache_hit_count self) (cache_hit_count other)) (\<lambda>c.
      Ok \<lparr>reads = r, bytes_read = br, writes = w, bytes_written = bw, transactions = t, cache_hit_count = c\<rparr>))))))"

record OverallDBStats =
  stats :: RawDBStats
  last_taken :: nat
  started :: nat

definition overall_new :: "nat \<Rightarrow> nat \<Rightarrow> OverallDBStats" where
  "overall_new now now' = \<lparr>stats = raw_default, last_taken = now, started = now'\<rparr>"

record RunningDBStats =
  current :: RawDBStats
  overall_stats :: OverallDBStats

definition running_new :: "nat \<Rightarrow> nat \<Rightarrow> RunningDBStats" where
  "running_new now now' = \<lparr>current = raw_default, overall_stats = overall_new now now'\<rparr>"

record TakenDBStats =
  raw :: RawDBStats
  taken_started :: nat

datatype counter = Reads | BytesRead | Writes | BytesWritten | Transactions | CacheHits

primrec tally_raw :: "counter \<Rightarrow> u64 \<Rightarrow> RawDBStats \<Rightarrow> RawDBStats" where
  "tally_raw Reads v s = s\<lparr>reads := reads s + v\<rparr>"
| "tally_raw BytesRead v s = s\<lparr>bytes_read := bytes_read s + v\<rparr>"
| "tally_raw Writes v s = s\<lparr>writes := writes s + v\<rparr>"
| "tally_raw BytesWritten v s = s\<lparr>bytes_written := bytes_written s + v\<rparr>"
| "tally_raw Transactions v s = s\<lparr>transactions := transactions s + v\<rparr>"
| "tally_raw CacheHits v s = s\<lparr>cache_hit_count := cache_hit_count s + v\<rparr>"

definition tally :: "counter \<Rightarrow> u64 \<Rightarrow> RunningDBStats \<Rightarrow> RunningDBStats" where
  "tally c v s = s\<lparr>current := tally_raw c v (current s)\<rparr>"

definition take_current :: "RunningDBStats \<Rightarrow> RunningDBStats \<times> RawDBStats" where
  "take_current s = (s\<lparr>current := raw_default\<rparr>, current s)"

definition peek_current :: "RunningDBStats \<Rightarrow> RawDBStats" where
  "peek_current s = current s"

definition overall :: "bool \<Rightarrow> nat \<Rightarrow> RunningDBStats \<Rightarrow> (RunningDBStats \<times> TakenDBStats, 'e) result" where
  "overall oc now s =
    (let (s, cur) = take_current s; ov = overall_stats s in
     and_then (combine oc (stats ov) cur) (\<lambda>total.
       Ok (s\<lparr>overall_stats := ov\<lparr>stats := total, last_taken := now\<rparr>\<rparr>,
           \<lparr>raw = cur, taken_started = last_taken ov\<rparr>)))"

definition since_previous :: "bool \<Rightarrow> RunningDBStats \<Rightarrow> (TakenDBStats, 'e) result" where
  "since_previous oc s =
    and_then (combine oc (stats (overall_stats s)) (peek_current s)) (\<lambda>total.
      Ok \<lparr>raw = total, taken_started = started (overall_stats s)\<rparr>)"

datatype IoStatsKind = Overall | SincePrevious

record IoStats =
  io_transactions :: u64
  io_reads :: u64
  io_cache_reads :: u64
  io_writes :: u64
  io_bytes_read :: u64
  io_cache_read_bytes :: u64
  io_bytes_written :: u64
  io_started :: nat
  io_span :: nat

text \<open>
  \<open>Database::io_stats\<close>, with the statistics text of RocksDB, if there is one, and the clock readings of the calls
  in order.
\<close>

definition get_statistics ::
  "(string \<Rightarrow> u64 option) \<Rightarrow> string option \<Rightarrow> (string \<rightharpoonup> RocksDBStatsValue, 'e) result" where
  "get_statistics parse_f64 text =
    (case text of Some s \<Rightarrow> parse_rocksdb_stats parse_f64 s | None \<Rightarrow> Ok Map.empty)"

definition io_stats ::
  "bool \<Rightarrow> (string \<Rightarrow> u64 option) \<Rightarrow> string option \<Rightarrow> nat \<Rightarrow> nat \<Rightarrow> nat \<Rightarrow> IoStatsKind \<Rightarrow> RunningDBStats \<Rightarrow>
    (RunningDBStats \<times> IoStats, 'e) result" where
  "io_stats oc parse_f64 text now1 now2 now3 kind s =
    and_then (get_statistics parse_f64 text) (\<lambda>rocksdb_stats.
    and_then (overall oc now1 s) (\<lambda>(s, overall_taken).
    and_then (sub_w oc (case rocksdb_stats ''block.cache.hit'' of Some v \<Rightarrow> count v | None \<Rightarrow> 0)
                (cache_hit_count (raw overall_taken))) (\<lambda>hits.
    let s = tally CacheHits hits s in
    and_then
      (case kind of
         Overall \<Rightarrow> overall oc now2 s
       | SincePrevious \<Rightarrow> map_ok (\<lambda>t. (s, t)) (since_previous oc s)) (\<lambda>(s, t).
      Ok (s, \<lparr>io_transactions = transactions (raw t), io_reads = reads (raw t),
              io_cache_reads = cache_hit_count (raw t), io_writes = writes (raw t),
              io_bytes_read = bytes_read (raw t), io_cache_read_bytes = 0,
              io_bytes_written = bytes_written (raw t), io_started = taken_started t,
              io_span = now3 - taken_started t\<rparr>)))))"


subsection \<open>What the counters hold\<close>

definition raw_add :: "RawDBStats \<Rightarrow> RawDBStats \<Rightarrow> RawDBStats" where
  "raw_add a b =
    \<lparr>reads = reads a + reads b, bytes_read = bytes_read a + bytes_read b, writes = writes a + writes b,
     bytes_written = bytes_written a + bytes_written b, transactions = transactions a + transactions b,
     cache_hit_count = cache_hit_count a + cache_hit_count b\<rparr>"

lemma add_w_Ok_iff [result_simps]:
  "add_w oc a b = Ok c \<longleftrightarrow> c = a + b \<and> (oc \<longrightarrow> unat a + unat b < 2 ^ LENGTH('l))" for a :: "'l::len word"
  by (auto simp: add_w_def)

lemma combine_Ok: "combine oc a b = Ok c \<Longrightarrow> c = raw_add a b"
  by (auto simp: combine_def raw_add_def result_simps)

lemma combine_wrap [simp]: "combine False a b = Ok (raw_add a b)"
  by (simp add: combine_def raw_add_def)

lemma raw_add_default [simp]: "raw_add raw_default a = a" "raw_add a raw_default = a"
  by (cases a, simp add: raw_add_def raw_default_def)+

lemma raw_add_tally: "raw_add a (tally_raw c v b) = tally_raw c v (raw_add a b)"
  by (cases c) (simp_all add: raw_add_def add.assoc)

text \<open>A history of a database's counters: what was tallied, and when the counters were taken.\<close>

datatype stats_event = Tally counter u64 | TakeOverall nat

fun stats_run :: "bool \<Rightarrow> stats_event list \<Rightarrow> RunningDBStats \<Rightarrow> (RunningDBStats, 'e) result" where
  "stats_run oc [] s = Ok s"
| "stats_run oc (Tally c v # evs) s = stats_run oc evs (tally c v s)"
| "stats_run oc (TakeOverall now # evs) s = and_then (overall oc now s) (\<lambda>(s, _). stats_run oc evs s)"

fun tallied :: "stats_event list \<Rightarrow> RawDBStats \<Rightarrow> RawDBStats" where
  "tallied [] s = s"
| "tallied (Tally c v # evs) s = tallied evs (tally_raw c v s)"
| "tallied (TakeOverall now # evs) s = tallied evs s"

fun tallied_since_take :: "stats_event list \<Rightarrow> RawDBStats \<Rightarrow> RawDBStats" where
  "tallied_since_take [] s = s"
| "tallied_since_take (Tally c v # evs) s = tallied_since_take evs (tally_raw c v s)"
| "tallied_since_take (TakeOverall now # evs) s = tallied_since_take evs raw_default"

lemma overall_Ok:
  assumes "overall oc now s = Ok (s', t)"
  shows "raw t = current s" "current s' = raw_default" "started (overall_stats s') = started (overall_stats s)"
    "stats (overall_stats s') = raw_add (stats (overall_stats s)) (current s)"
    "taken_started t = last_taken (overall_stats s)" "last_taken (overall_stats s') = now"
  using assms by (auto simp: overall_def take_current_def Let_def result_simps dest: combine_Ok)

lemma stats_run_counters:
  fixes s s' :: RunningDBStats
  assumes "stats_run oc evs s = (Ok s' :: (_, 'e) result)"
  shows "current s' = tallied_since_take evs (current s) \<and>
    raw_add (stats (overall_stats s')) (current s') = tallied evs (raw_add (stats (overall_stats s)) (current s)) \<and>
    started (overall_stats s') = started (overall_stats s)"
  using assms
proof (induction evs arbitrary: s)
  case (Cons ev evs)
  show ?case
  proof (cases ev)
    case (Tally c v)
    with Cons.prems Cons.IH [of "tally c v s"] show ?thesis by (auto simp: tally_def raw_add_tally)
  next
    case (TakeOverall now)
    with Cons.prems obtain s1 t where
      o: "overall oc now s = (Ok (s1, t) :: (_, 'e) result)" and "stats_run oc evs s1 = (Ok s' :: (_, 'e) result)"
      by (auto simp: result_simps)
    with Cons.IH [of s1] TakeOverall show ?thesis using overall_Ok [OF o] by auto
  qed
qed simp

lemma stats_run_wrap: "\<exists>s'. stats_run False evs s = Ok s'"
proof (induction evs arbitrary: s)
  case (Cons ev evs)
  then show ?case by (cases ev) (auto simp: overall_def take_current_def Let_def)
qed simp


subsection \<open>Properties\<close>

text \<open>
  C33: The two queries on the counters are exchanged. Whatever was tallied and whenever the counters were
  taken, \<open>since_previous\<close>, documented as the statistics since the previous query, returns all
  that was tallied since the start; \<open>overall\<close>, documented as the statistics since the start,
  returns what was tallied since it was last called and resets it. With wrapping arithmetic both
  always answer.
\<close>

theorem stats_queries_exchanged:
  assumes "stats_run oc evs (running_new now now') = (Ok s :: (_, 'e) result)"
  shows "(\<forall>t. since_previous oc s = (Ok t :: (_, 'e) result) \<longrightarrow> raw t = tallied evs raw_default \<and> taken_started t = now') \<and>
    (\<forall>n s' t. overall oc n s = (Ok (s', t) :: (_, 'e) result) \<longrightarrow>
      raw t = tallied_since_take evs raw_default \<and> current s' = raw_default) \<and>
    (\<not> oc \<longrightarrow> is_ok (since_previous oc s :: (_, 'e) result) \<and> is_ok (overall oc n s :: (_, 'e) result))"
proof -
  note run = stats_run_counters [OF assms, unfolded running_new_def overall_new_def, simplified]
  show ?thesis
  proof (intro conjI allI impI)
    fix t assume "since_previous oc s = (Ok t :: (_, 'e) result)"
    then show "raw t = tallied evs raw_default" "taken_started t = now'"
      using run by (auto simp: since_previous_def peek_current_def result_simps dest: combine_Ok)
  next
    fix n s' t assume "overall oc n s = (Ok (s', t) :: (_, 'e) result)"
    from overall_Ok [OF this] run show "raw t = tallied_since_take evs raw_default" "current s' = raw_default" by simp_all
  next
    assume "\<not> oc"
    then show "is_ok (since_previous oc s :: (_, 'e) result)" "is_ok (overall oc n s :: (_, 'e) result)"
      by (simp_all add: since_previous_def overall_def take_current_def Let_def)
  qed
qed

theorem stats_queries_exchanged_witness:
  "\<exists>s t t' s'. stats_run False [Tally Reads 10, TakeOverall 5, Tally Reads 1] (running_new 0 0) = (Ok s :: (_, string) result) \<and>
    since_previous False s = (Ok t :: (_, string) result) \<and> reads (raw t) = 11 \<and>
    overall False 7 s = (Ok (s', t') :: (_, string) result) \<and> reads (raw t') = 1"
proof -
  obtain s where s: "stats_run False [Tally Reads 10, TakeOverall 5, Tally Reads 1] (running_new 0 0) = (Ok s :: (_, string) result)"
    using stats_run_wrap by blast
  have ok: "is_ok (since_previous False s :: (_, string) result)" "is_ok (overall False 7 s :: (_, string) result)"
    using stats_queries_exchanged [OF s] by blast+
  obtain t where t: "since_previous False s = (Ok t :: (_, string) result)"
    using ok(1) by (cases "since_previous False s :: (_, string) result") simp_all
  obtain s' t' where t': "overall False 7 s = (Ok (s', t') :: (_, string) result)"
    using ok(2) by (cases "overall False 7 s :: (_, string) result") auto
  have "raw t = tallied [Tally Reads 10, TakeOverall 5, Tally Reads 1] raw_default"
    "raw t' = tallied_since_take [Tally Reads 10, TakeOverall 5, Tally Reads 1] raw_default"
    using stats_queries_exchanged [OF s] t t' by blast+
  then have "reads (raw t) = 11" "reads (raw t') = 1" by (simp_all add: raw_default_def)
  with s t t' show ?thesis by blast
qed

text \<open>
  \<open>io_stats\<close> takes the counters before it asks for them: the overall statistics that it returns never
  show a read, a write, a transaction or a byte, whatever happened before.
\<close>

lemma io_stats_overall_empty:
  assumes "io_stats oc parse_f64 text now1 now2 now3 Overall s = (Ok (s', io) :: (_, 'e) result)"
  shows "io_reads io = 0 \<and> io_bytes_read io = 0 \<and> io_writes io = 0 \<and> io_bytes_written io = 0 \<and>
    io_transactions io = 0 \<and> io_started io = now1"
proof -
  from assms obtain s1 t1 h s2 t2 where
    t: "overall oc now1 s = (Ok (s1, t1) :: (_, 'e) result)"
      "overall oc now2 (tally CacheHits h s1) = (Ok (s2, t2) :: (_, 'e) result)"
    and io: "io_reads io = reads (raw t2)" "io_bytes_read io = bytes_read (raw t2)" "io_writes io = writes (raw t2)"
      "io_bytes_written io = bytes_written (raw t2)" "io_transactions io = transactions (raw t2)"
      "io_started io = taken_started t2"
    by (fastforce simp: io_stats_def Let_def result_simps)
  from overall_Ok [OF t(1)] overall_Ok [OF t(2)] show ?thesis
    by (simp add: io tally_def raw_default_def)
qed

end
