(* ===== verification/Rocks_Database.thy ===== *)
theory Rocks_Database
  imports Rocks_Stats
begin

text \<open>
  The database of the RocksDB backend (\<open>src/ipfs/datastore-rocksdb/src/rocks\<close>: \<open>mod.rs\<close>, \<open>config.rs\<close>,
  \<open>compact.rs\<close>, \<open>transaction.rs\<close>): configuration, opening with repair, transactions, and the
  operations on columns.

  The \<open>rocksdb\<close> crate and the file system are external. An \<open>Options\<close> value is the list of the settings
  made on it. The record \<open>rocks\<close> has the calls that the code makes: they take and return the state
  \<open>'w\<close> of the world, and address an open database by a handle. A \<open>HashSet\<close> of columns in a
  configuration is the list of its elements in iteration order.
\<close>

datatype io_error = Other string | Os string

type_synonym 'a io = "('a, io_error) result"

text \<open>\<open>?\<close> on the result of a call that changed the world.\<close>

fun then_io :: "'w \<times> ('a, 'e) result \<Rightarrow> ('w \<Rightarrow> 'a \<Rightarrow> 'w \<times> ('b, 'e) result) \<Rightarrow> 'w \<times> ('b, 'e) result" where
  "then_io (w, Ok x) f = f w x"
| "then_io (w, Err e) f = (w, Err e)"
| "then_io (w, Panic) f = (w, Panic)"

definition other_io_err :: "string \<Rightarrow> io_error" where
  "other_io_err e = Other e"

fun other_io :: "'w \<times> ('a, string) result \<Rightarrow> 'w \<times> 'a io" where
  "other_io (w, r) = (w, map_err other_io_err r)"


subsection \<open>Transactions\<close>

datatype DBOp = Insert string bytes bytes | DeleteKey string bytes

primrec op_key :: "DBOp \<Rightarrow> bytes" where
  "op_key (Insert col key val) = key"
| "op_key (DeleteKey col key) = key"

primrec op_col :: "DBOp \<Rightarrow> string" where
  "op_col (Insert col key val) = col"
| "op_col (DeleteKey col key) = col"

record DBTransaction =
  ops :: "DBOp list"

definition transaction :: DBTransaction where
  "transaction = \<lparr>ops = []\<rparr>"

definition transaction_put :: "DBTransaction \<Rightarrow> string \<Rightarrow> bytes \<Rightarrow> bytes \<Rightarrow> DBTransaction" where
  "transaction_put t col key val = t\<lparr>ops := ops t @ [Insert col key val]\<rparr>"

definition transaction_delete :: "DBTransaction \<Rightarrow> string \<Rightarrow> bytes \<Rightarrow> DBTransaction" where
  "transaction_delete t col key = t\<lparr>ops := ops t @ [DeleteKey col key]\<rparr>"

definition transaction_clear :: "DBTransaction \<Rightarrow> DBTransaction" where
  "transaction_clear t = t\<lparr>ops := []\<rparr>"


subsection \<open>Configuration\<close>

definition KB :: u64 where "KB = 1024"
definition MB :: u64 where "MB = 1024 * KB"

definition DB_DEFAULT_COLUMN_MEMORY_BUDGET_MB :: u64 where
  "DB_DEFAULT_COLUMN_MEMORY_BUDGET_MB = 128"

definition DEFAULT_COLUMN_NAME :: string where
  "DEFAULT_COLUMN_NAME = ''default''"

record CompactionProfile =
  initial_file_size :: u64
  block_size :: u64

definition compaction_ssd :: CompactionProfile where
  "compaction_ssd = \<lparr>initial_file_size = 64 * MB, block_size = 16 * KB\<rparr>"

definition compaction_hdd :: CompactionProfile where
  "compaction_hdd = \<lparr>initial_file_size = 256 * MB, block_size = 64 * KB\<rparr>"

definition compaction_default :: CompactionProfile where
  "compaction_default = compaction_ssd"

text \<open>
  \<open>auto\<close>: \<open>rotational\<close> is the first byte of the flag file of the drive, if the drive was found and
  the file could be read.
\<close>

definition compaction_auto :: "u8 option \<Rightarrow> CompactionProfile" where
  "compaction_auto rotational =
    (case rotational of
       Some b \<Rightarrow> if b = 48 then compaction_ssd else if b = 49 then compaction_hdd else compaction_default
     | None \<Rightarrow> compaction_default)"

record DatabaseConfig =
  max_open_files :: int
  budget :: "string \<rightharpoonup> u64"
  compaction :: CompactionProfile
  columns :: "string list"
  keep_log_file_num :: int
  enable_statistics :: bool
  secondary :: "string option"

definition config_default :: DatabaseConfig where
  "config_default =
    \<lparr>max_open_files = 512, budget = Map.empty, compaction = compaction_default,
     columns = [DEFAULT_COLUMN_NAME], keep_log_file_num = 1, enable_statistics = False, secondary = None\<rparr>"

definition with_columns :: "string list \<Rightarrow> (DatabaseConfig, 'e) result" where
  "with_columns cols =
    and_then (assertion (cols \<noteq> [])) (\<lambda>_. Ok (config_default\<lparr>columns := remdups cols\<rparr>))"

definition memory_budget_for_col :: "bool \<Rightarrow> DatabaseConfig \<Rightarrow> string \<Rightarrow> (u64, 'e) result" where
  "memory_budget_for_col oc cfg col =
    mul_w oc (case budget cfg col of Some b \<Rightarrow> b | None \<Rightarrow> DB_DEFAULT_COLUMN_MEMORY_BUDGET_MB) MB"

fun sum_budgets :: "bool \<Rightarrow> DatabaseConfig \<Rightarrow> u64 \<Rightarrow> string list \<Rightarrow> (u64, 'e) result" where
  "sum_budgets oc cfg acc [] = Ok acc"
| "sum_budgets oc cfg acc (c # cs) =
    and_then (memory_budget_for_col oc cfg c) (\<lambda>b.
    and_then (add_w oc acc b) (\<lambda>acc. sum_budgets oc cfg acc cs))"

definition memory_budget :: "bool \<Rightarrow> DatabaseConfig \<Rightarrow> (u64, 'e) result" where
  "memory_budget oc cfg = sum_budgets oc cfg 0 (columns cfg)"

datatype block_setting =
    BlockSize u64 | DisableCache | LruCache u64 | CacheIndexAndFilterBlocks bool
  | PinL0FilterAndIndexBlocksInCache bool | BloomFilter nat bool

datatype db_setting =
    ReportBgIoStats bool | EnableStatistics | UseFsync bool | CreateIfMissing bool | MaxOpenFiles int
  | BytesPerSync u64 | KeepLogFileNum nat | IncreaseParallelism int | LevelCompactionDynamicLevelBytes bool
  | BlockBasedTableFactory "block_setting list" | OptimizeLevelStyleCompaction u64 | TargetFileSizeBase u64
  | CompressionPerLevel "nat list"

definition column_config :: "bool \<Rightarrow> DatabaseConfig \<Rightarrow> block_setting list \<Rightarrow> string \<Rightarrow> (db_setting list, 'e) result" where
  "column_config oc cfg block_opts col =
    and_then (memory_budget_for_col oc cfg col) (\<lambda>mem.
      Ok [LevelCompactionDynamicLevelBytes True, BlockBasedTableFactory block_opts,
          OptimizeLevelStyleCompaction mem, TargetFileSizeBase (initial_file_size (compaction cfg)),
          CompressionPerLevel []])"

definition generate_options :: "nat \<Rightarrow> DatabaseConfig \<Rightarrow> db_setting list" where
  "generate_options num_cpus cfg =
    [ReportBgIoStats True] @ (if enable_statistics cfg then [EnableStatistics] else []) @
    [UseFsync False, CreateIfMissing True,
     MaxOpenFiles (if secondary cfg \<noteq> None then - 1 else max_open_files cfg),
     BytesPerSync (1 * MB), KeepLogFileNum 1, IncreaseParallelism (max 1 (int num_cpus div 2))]"

definition generate_block_based_options :: "bool \<Rightarrow> DatabaseConfig \<Rightarrow> (block_setting list, 'e) result" where
  "generate_block_based_options oc cfg =
    and_then (memory_budget oc cfg) (\<lambda>mem.
      let cache_size = mem div 3 in
      Ok ([BlockSize (block_size (compaction cfg))] @
          (if cache_size = 0 then [DisableCache]
           else [LruCache cache_size, CacheIndexAndFilterBlocks True, PinL0FilterAndIndexBlocksInCache True]) @
          [BloomFilter 10 True]))"


subsection \<open>The external calls\<close>

record ('w, 'h) rocks =
  open_cf_descriptors :: "'w \<Rightarrow> db_setting list \<Rightarrow> string \<Rightarrow> (string \<times> db_setting list) list \<Rightarrow> 'w \<times> ('h, string) result"
  open_cf :: "'w \<Rightarrow> db_setting list \<Rightarrow> string \<Rightarrow> string list \<Rightarrow> 'w \<times> ('h, string) result"
  open_cf_as_secondary :: "'w \<Rightarrow> db_setting list \<Rightarrow> string \<Rightarrow> string \<Rightarrow> string list \<Rightarrow> 'w \<times> ('h, string) result"
  repair :: "'w \<Rightarrow> db_setting list \<Rightarrow> string \<Rightarrow> 'w \<times> (unit, string) result"
  cf_handle :: "'w \<Rightarrow> 'h \<Rightarrow> string \<Rightarrow> bool"
  create_cf :: "'w \<Rightarrow> 'h \<Rightarrow> string \<Rightarrow> db_setting list \<Rightarrow> 'w \<times> (unit, string) result"
  drop_cf :: "'w \<Rightarrow> 'h \<Rightarrow> string \<Rightarrow> 'w \<times> (unit, string) result"
  write_opt :: "'w \<Rightarrow> 'h \<Rightarrow> DBOp list \<Rightarrow> 'w \<times> (unit, string) result"
  get_pinned_cf :: "'w \<Rightarrow> 'h \<Rightarrow> string \<Rightarrow> bytes \<Rightarrow> (bytes option, string) result"
  property_int_value_cf :: "'w \<Rightarrow> 'h \<Rightarrow> string \<Rightarrow> string \<Rightarrow> (u64 option, string) result"
  file_exists :: "'w \<Rightarrow> string \<Rightarrow> bool"
  file_create :: "'w \<Rightarrow> string \<Rightarrow> 'w"
  file_remove :: "'w \<Rightarrow> string \<Rightarrow> 'w \<times> unit io"

definition starts_with :: "string \<Rightarrow> string \<Rightarrow> bool" where
  "starts_with s p \<longleftrightarrow> strip_prefix p s \<noteq> None"

definition is_corrupted :: "string \<Rightarrow> bool" where
  "is_corrupted err \<longleftrightarrow>
    starts_with err ''Corruption:'' \<or>
    starts_with err ''Invalid argument: You have to open all column families''"

text \<open>\<open>Path::join\<close> with a relative path.\<close>

definition path_join :: "string \<Rightarrow> string \<Rightarrow> string" where
  "path_join p f = (if p = [] \<or> last p = CHR ''/'' then p @ f else p @ ''/'' @ f)"

definition CORRUPTION_FILE_NAME :: string where
  "CORRUPTION_FILE_NAME = ''CORRUPTED''"

fun check_for_corruption :: "('w, 'h) rocks \<Rightarrow> string \<Rightarrow> 'w \<times> ('a, string) result \<Rightarrow> 'w \<times> 'a io" where
  "check_for_corruption rk path (w, res) =
    (let w' = (case res of
                 Err e \<Rightarrow> if is_corrupted e then file_create rk w (path_join path CORRUPTION_FILE_NAME) else w
               | _ \<Rightarrow> w)
     in (w', map_err other_io_err res))"


subsection \<open>Opening\<close>

record 'h DBAndColumns =
  db :: 'h
  column_names :: "string set"

record 'h Database =
  cfs :: "'h DBAndColumns option"
  config :: DatabaseConfig
  path :: string
  opts :: "db_setting list"
  block_opts :: "block_setting list"
  running :: RunningDBStats

fun cf_descriptions :: "bool \<Rightarrow> DatabaseConfig \<Rightarrow> block_setting list \<Rightarrow> string list \<Rightarrow> ((string \<times> db_setting list) list, 'e) result" where
  "cf_descriptions oc cfg bo [] = Ok []"
| "cf_descriptions oc cfg bo (c # cs) =
    and_then (column_config oc cfg bo c) (\<lambda>co. map_ok ((#) (c, co)) (cf_descriptions oc cfg bo cs))"

fun create_cfs :: "bool \<Rightarrow> ('w, 'h) rocks \<Rightarrow> DatabaseConfig \<Rightarrow> block_setting list \<Rightarrow> 'h \<Rightarrow> 'w \<Rightarrow> string list \<Rightarrow> 'w \<times> unit io" where
  "create_cfs oc rk cfg bo h w [] = (w, Ok ())"
| "create_cfs oc rk cfg bo h w (c # cs) =
    then_io (w, column_config oc cfg bo c) (\<lambda>w co.
    then_io (other_io (create_cf rk w h c co)) (\<lambda>w _. create_cfs oc rk cfg bo h w cs))"

definition open_primary ::
  "bool \<Rightarrow> ('w, 'h) rocks \<Rightarrow> 'w \<Rightarrow> db_setting list \<Rightarrow> string \<Rightarrow> DatabaseConfig \<Rightarrow> block_setting list \<Rightarrow> 'w \<times> 'h io" where
  "open_primary oc rk w os p cfg bo =
    then_io (w, cf_descriptions oc cfg bo (columns cfg)) (\<lambda>w descs.
      case open_cf_descriptors rk w os p descs of
        (w, Ok h) \<Rightarrow> (w, Ok h)
      | (w, Panic) \<Rightarrow> (w, Panic)
      | (w, Err _) \<Rightarrow>
          (case open_cf rk w os p [] of
             (w, Ok h) \<Rightarrow> then_io (create_cfs oc rk cfg bo h w (columns cfg)) (\<lambda>w _. (w, Ok h))
           | (w, Panic) \<Rightarrow> (w, Panic)
           | (w, Err err) \<Rightarrow>
               if is_corrupted err then
                 then_io (other_io (repair rk w os p)) (\<lambda>w _. other_io (open_cf_descriptors rk w os p descs))
               else (w, Err (other_io_err err))))"

definition open_secondary ::
  "('w, 'h) rocks \<Rightarrow> 'w \<Rightarrow> db_setting list \<Rightarrow> string \<Rightarrow> string \<Rightarrow> DatabaseConfig \<Rightarrow> 'w \<times> 'h io" where
  "open_secondary rk w os p sp cfg =
    (case open_cf_as_secondary rk w os p sp (columns cfg) of
       (w, Ok h) \<Rightarrow> (w, Ok h)
     | (w, Panic) \<Rightarrow> (w, Panic)
     | (w, Err err) \<Rightarrow>
         if is_corrupted err then
           then_io (other_io (repair rk w os p)) (\<lambda>w _. other_io (open_cf_as_secondary rk w os p sp (columns cfg)))
         else (w, Err (other_io_err err)))"

definition open_db ::
  "bool \<Rightarrow> nat \<Rightarrow> nat \<Rightarrow> nat \<Rightarrow> ('w, 'h) rocks \<Rightarrow> 'w \<Rightarrow> DatabaseConfig \<Rightarrow> string \<Rightarrow> 'w \<times> 'h Database io" where
  "open_db oc num_cpus now now' rk w cfg p =
    then_io (w, assertion (columns cfg \<noteq> [])) (\<lambda>w _.
    let os = generate_options num_cpus cfg in
    then_io (w, generate_block_based_options oc cfg) (\<lambda>w bo.
    let marker = path_join p CORRUPTION_FILE_NAME in
    then_io
      (if file_exists rk w marker then
         then_io (other_io (repair rk w os p)) (\<lambda>w _. file_remove rk w marker)
       else (w, Ok ())) (\<lambda>w _.
    then_io
      (case secondary cfg of
         Some sp \<Rightarrow> open_secondary rk w os p sp cfg
       | None \<Rightarrow> open_primary oc rk w os p cfg bo) (\<lambda>w h.
      (w, Ok \<lparr>cfs = Some \<lparr>db = h, column_names = set (columns cfg)\<rparr>, config = cfg, path = p, opts = os,
              block_opts = bo, running = running_new now now'\<rparr>)))))"


subsection \<open>Operations\<close>

text \<open>The loop of \<open>write\<close>: the column of every operation must be open.\<close>

fun build_batch :: "('w, 'h) rocks \<Rightarrow> 'w \<Rightarrow> 'h \<Rightarrow> DBOp list \<Rightarrow> DBOp list \<Rightarrow> nat \<Rightarrow> (DBOp list \<times> nat) io" where
  "build_batch rk w h [] batch n = Ok (batch, n)"
| "build_batch rk w h (op # rest) batch n =
    and_then (assertion (cf_handle rk w h (op_col op))) (\<lambda>_.
      case op of
        Insert col key val \<Rightarrow> build_batch rk w h rest (batch @ [Insert col key val]) (n + (length key + length val))
      | DeleteKey col key \<Rightarrow> build_batch rk w h rest (batch @ [DeleteKey col key]) (n + length key))"

definition db_write :: "('w, 'h) rocks \<Rightarrow> 'w \<Rightarrow> 'h Database \<Rightarrow> DBTransaction \<Rightarrow> ('w \<times> 'h Database) \<times> unit io" where
  "db_write rk w self txn =
    (case cfs self of
       Some c \<Rightarrow>
         let st = tally Transactions 1 (tally Writes (of_nat (length (ops txn))) (running self)) in
         (case build_batch rk w (db c) (ops txn) [] 0 of
            Ok (batch, n) \<Rightarrow>
              let (w, r) = check_for_corruption rk (path self) (write_opt rk w (db c) batch) in
              ((w, self\<lparr>running := tally BytesWritten (of_nat n) st\<rparr>), r)
          | Err e \<Rightarrow> ((w, self\<lparr>running := st\<rparr>), Err e)
          | Panic \<Rightarrow> ((w, self\<lparr>running := st\<rparr>), Panic))
     | None \<Rightarrow> ((w, self), Err (other_io_err ''Database is closed'')))"

definition db_get :: "('w, 'h) rocks \<Rightarrow> 'w \<Rightarrow> 'h Database \<Rightarrow> string \<Rightarrow> bytes \<Rightarrow> 'h Database \<times> bytes option io" where
  "db_get rk w self col key =
    (case cfs self of
       Some c \<Rightarrow>
         if col \<notin> column_names c then (self, Err (other_io_err ''non-existing column''))
         else
           let st = tally Reads 1 (running self) in
           if \<not> cf_handle rk w (db c) col then (self\<lparr>running := st\<rparr>, Panic)
           else
             let val = map_err other_io_err (get_pinned_cf rk w (db c) col key);
                 st = (case val of
                         Ok (Some v) \<Rightarrow> tally BytesRead (of_nat (length key + length v)) st
                       | Ok None \<Rightarrow> tally BytesRead (of_nat (length key)) st
                       | _ \<Rightarrow> st)
             in (self\<lparr>running := st\<rparr>, val)
     | None \<Rightarrow> (self, Ok None))"

definition db_close :: "'h Database \<Rightarrow> 'h Database" where
  "db_close self = self\<lparr>cfs := None\<rparr>"

definition num_columns :: "'h Database \<Rightarrow> u32" where
  "num_columns self =
    (case cfs self of
       Some c \<Rightarrow> if column_names c = {} then 0 else of_nat (card (column_names c))
     | None \<Rightarrow> 0)"

definition num_keys :: "('w, 'h) rocks \<Rightarrow> 'w \<Rightarrow> 'h Database \<Rightarrow> string \<Rightarrow> u64 io" where
  "num_keys rk w self col =
    (case cfs self of
       Some c \<Rightarrow>
         and_then (assertion (cf_handle rk w (db c) col)) (\<lambda>_.
         map_ok (\<lambda>n. case n of Some n \<Rightarrow> n | None \<Rightarrow> 0)
           (map_err other_io_err (property_int_value_cf rk w (db c) col ''rocksdb.estimate-num-keys'')))
     | None \<Rightarrow> Ok 0)"

definition add_column :: "bool \<Rightarrow> ('w, 'h) rocks \<Rightarrow> 'w \<Rightarrow> 'h Database \<Rightarrow> string \<Rightarrow> ('w \<times> 'h Database) \<times> unit io" where
  "add_column oc rk w self col =
    (case cfs self of
       Some c \<Rightarrow>
         let (w, r) = then_io (w, column_config oc (config self) (block_opts self) col) (\<lambda>w co.
               other_io (create_cf rk w (db c) col co)) in
         (case r of
            Ok _ \<Rightarrow> ((w, self\<lparr>cfs := Some (c\<lparr>column_names := insert col (column_names c)\<rparr>)\<rparr>), Ok ())
          | Err e \<Rightarrow> ((w, self), Err e)
          | Panic \<Rightarrow> ((w, self), Panic))
     | None \<Rightarrow> ((w, self), Ok ()))"

definition remove_column :: "('w, 'h) rocks \<Rightarrow> 'w \<Rightarrow> 'h Database \<Rightarrow> string \<Rightarrow> ('w \<times> 'h Database) \<times> unit io" where
  "remove_column rk w self col =
    (case cfs self of
       Some c \<Rightarrow>
         if col \<in> column_names c then
           let self = self\<lparr>cfs := Some (c\<lparr>column_names := column_names c - {col}\<rparr>)\<rparr>;
               (w, r) = other_io (drop_cf rk w (db c) col)
           in ((w, self), r)
         else ((w, self), Ok ())
     | None \<Rightarrow> ((w, self), Ok ()))"


subsection \<open>What the calls promise\<close>

primrec apply_op :: "DBOp \<Rightarrow> (string \<Rightarrow> (bytes \<rightharpoonup> bytes) option) \<Rightarrow> string \<Rightarrow> (bytes \<rightharpoonup> bytes) option" where
  "apply_op (Insert col key val) cols = cols(col := map_option (\<lambda>m. m(key \<mapsto> val)) (cols col))"
| "apply_op (DeleteKey col key) cols = cols(col := map_option (\<lambda>m. m(key := None)) (cols col))"

text \<open>
  \<open>view w h\<close> are the columns of the database behind a handle. A write batch is applied as a whole or not
  at all; every open database has the column \<open>default\<close>; a column that exists cannot be created.
\<close>

locale rocks_laws =
  fixes rk :: "('w, 'h) rocks"
    and view :: "'w \<Rightarrow> 'h \<Rightarrow> string \<Rightarrow> (bytes \<rightharpoonup> bytes) option"
  assumes handle: "cf_handle rk w h c \<longleftrightarrow> view w h c \<noteq> None"
    and read: "view w h c = Some m \<Longrightarrow> get_pinned_cf rk w h c k = Ok v \<Longrightarrow> v = m k"
    and read_no_panic: "get_pinned_cf rk w h c k \<noteq> Panic"
    and written: "write_opt rk w h b = (w', r) \<Longrightarrow>
      r \<noteq> Panic \<and> view w' h = (if is_ok r then fold apply_op b (view w h) else view w h)"
    and created: "create_cf rk w h c co = (w', r) \<Longrightarrow>
      (is_ok r \<longrightarrow> view w h c = None) \<and> view w' h = (if is_ok r then (view w h)(c \<mapsto> Map.empty) else view w h)"
    and dropped: "drop_cf rk w h c = (w', r) \<Longrightarrow> view w' h = (if is_ok r then (view w h)(c := None) else view w h)"
    and opened: "open_cf_descriptors rk w os p ds = (w', Ok h) \<Longrightarrow> c \<in> fst ` set ds \<Longrightarrow> view w' h c \<noteq> None"
    and opened_secondary: "open_cf_as_secondary rk w os p sp cs = (w', Ok h) \<Longrightarrow> c \<in> set cs \<Longrightarrow> view w' h c \<noteq> None"
    and opened_default: "open_cf rk w os p cs = (w', Ok h) \<Longrightarrow> view w' h DEFAULT_COLUMN_NAME \<noteq> None"
    and marked: "view (file_create rk w f) h = view w h"

text \<open>The columns that the database lists are open.\<close>

definition columns_open :: "('w \<Rightarrow> 'h \<Rightarrow> string \<Rightarrow> (bytes \<rightharpoonup> bytes) option) \<Rightarrow> 'w \<Rightarrow> 'h Database \<Rightarrow> bool" where
  "columns_open view w self \<longleftrightarrow>
    (\<forall>c col. cfs self = Some c \<longrightarrow> col \<in> column_names c \<longrightarrow> view w (db c) col \<noteq> None)"

datatype db_call = CallWrite DBTransaction | CallGet string bytes | CallClose | CallAdd string | CallRemove string

primrec db_step :: "bool \<Rightarrow> ('w, 'h) rocks \<Rightarrow> 'w \<times> 'h Database \<Rightarrow> db_call \<Rightarrow> 'w \<times> 'h Database" where
  "db_step oc rk s (CallWrite txn) = fst (db_write rk (fst s) (snd s) txn)"
| "db_step oc rk s (CallGet col key) = (fst s, fst (db_get rk (fst s) (snd s) col key))"
| "db_step oc rk s CallClose = (fst s, db_close (snd s))"
| "db_step oc rk s (CallAdd col) = fst (add_column oc rk (fst s) (snd s) col)"
| "db_step oc rk s (CallRemove col) = fst (remove_column rk (fst s) (snd s) col)"

lemma then_io_Ok_iff: "then_io m f = (w', Ok y) \<longleftrightarrow> (\<exists>w x. m = (w, Ok x) \<and> f w x = (w', Ok y))"
  by (cases "(m, f)" rule: then_io.cases) auto

lemma other_io_Ok_iff: "other_io m = (w, Ok x) \<longleftrightarrow> m = (w, Ok x)"
  by (cases m) (auto simp: result_simps)

lemma cf_descriptions_names: "cf_descriptions oc cfg bo cs = Ok ds \<Longrightarrow> map fst ds = cs"
  by (induction cs arbitrary: ds) (auto simp: result_simps)

lemma apply_op_dom: "(apply_op op cols c = None) = (cols c = None)"
  by (cases op) auto

lemma fold_apply_op_dom: "(fold apply_op b cols c = None) = (cols c = None)"
  by (induction b arbitrary: cols) (simp_all add: apply_op_dom)

lemma build_batch_Ok:
  "build_batch rk w h xs b n = Ok (b', n') \<Longrightarrow> b' = b @ xs \<and> (\<forall>op \<in> set xs. cf_handle rk w h (op_col op))"
proof (induction xs arbitrary: b n)
  case (Cons op xs)
  show ?case
  proof (cases op)
    case (Insert c k v)
    with Cons.prems have h: "cf_handle rk w h c" and
      "build_batch rk w h xs (b @ [Insert c k v]) (n + (length k + length v)) = Ok (b', n')"
      by (auto simp: result_simps)
    from Cons.IH [OF this(2)] h Insert show ?thesis by simp
  next
    case (DeleteKey c k)
    with Cons.prems have h: "cf_handle rk w h c" and
      "build_batch rk w h xs (b @ [DeleteKey c k]) (n + length k) = Ok (b', n')"
      by (auto simp: result_simps)
    from Cons.IH [OF this(2)] h DeleteKey show ?thesis by simp
  qed
qed simp

lemma build_batch_no_Err: "build_batch rk w h xs b n \<noteq> Err e"
  by (induction xs arbitrary: b n) (auto simp: result_simps assertion_def split: DBOp.splits)

lemma build_batch_all:
  "(\<forall>op \<in> set xs. cf_handle rk w h (op_col op)) \<Longrightarrow> \<exists>n'. build_batch rk w h xs b n = Ok (b @ xs, n')"
proof (induction xs arbitrary: b n)
  case (Cons op xs)
  then show ?case
    using Cons.IH [of "b @ [op]"] by (cases op) simp_all
qed simp

context rocks_laws
begin

lemma checked:
  assumes "check_for_corruption rk p (write_opt rk w h b) = (w', r)"
  shows "view w' h = (if is_ok r then fold apply_op b (view w h) else view w h)" "r \<noteq> Panic"
proof -
  obtain w1 r1 where w1: "write_opt rk w h b = (w1, r1)" by (cases "write_opt rk w h b")
  from written [OF w1] assms
  show "view w' h = (if is_ok r then fold apply_op b (view w h) else view w h)" "r \<noteq> Panic"
    by (cases r1; auto simp: w1 marked result_simps)+
qed

lemma write_result:
  assumes "db_write rk w self txn = ((w', self'), r)"
  shows "cfs self' = cfs self"
    and "cfs self = Some c \<Longrightarrow>
      view w' (db c) = (if is_ok r then fold apply_op (ops txn) (view w (db c)) else view w (db c))"
    and "cfs self = None \<Longrightarrow> r = Err (Other ''Database is closed'') \<and> w' = w"
    and "cfs self = Some c \<Longrightarrow> r = Panic \<longleftrightarrow> (\<exists>op \<in> set (ops txn). view w (db c) (op_col op) = None)"
proof -
  show "cfs self' = cfs self" "cfs self = None \<Longrightarrow> r = Err (Other ''Database is closed'') \<and> w' = w"
    using assms by (auto simp: db_write_def other_io_err_def Let_def split: option.splits result.splits prod.splits)
  assume c: "cfs self = Some c"
  let ?b = "build_batch rk w (db c) (ops txn) [] 0 "
  have bad: "\<exists>op \<in> set (ops txn). view w (db c) (op_col op) = None" if "\<And>x. ?b \<noteq> Ok x"
    using that build_batch_all [of "ops txn" rk w "db c" "[]" 0] handle by metis
  show "view w' (db c) = (if is_ok r then fold apply_op (ops txn) (view w (db c)) else view w (db c))"
    and "r = Panic \<longleftrightarrow> (\<exists>op \<in> set (ops txn). view w (db c) (op_col op) = None)"
  proof (atomize(full), cases ?b)
    case (Ok x)
    obtain b' n where x: "x = (b', n)" by (cases x)
    from build_batch_Ok [OF Ok [unfolded x]] have "b' = ops txn" "\<forall>op \<in> set (ops txn). view w (db c) (op_col op) \<noteq> None"
      by (auto simp: handle)
    moreover have "check_for_corruption rk (path self) (write_opt rk w (db c) b') = (w', r)"
      using assms c Ok x by (auto simp: db_write_def Let_def split: prod.splits)
    ultimately show "view w' (db c) = (if is_ok r then fold apply_op (ops txn) (view w (db c)) else view w (db c)) \<and>
        (r = Panic \<longleftrightarrow> (\<exists>op \<in> set (ops txn). view w (db c) (op_col op) = None))"
      using checked by blast
  next
    case (Err e)
    then have False using build_batch_no_Err by metis
    then show "view w' (db c) = (if is_ok r then fold apply_op (ops txn) (view w (db c)) else view w (db c)) \<and>
        (r = Panic \<longleftrightarrow> (\<exists>op \<in> set (ops txn). view w (db c) (op_col op) = None))" ..
  next
    case Panic
    with assms c bad show "view w' (db c) = (if is_ok r then fold apply_op (ops txn) (view w (db c)) else view w (db c)) \<and>
        (r = Panic \<longleftrightarrow> (\<exists>op \<in> set (ops txn). view w (db c) (op_col op) = None))"
      by (auto simp: db_write_def Let_def)
  qed
qed

lemma step_columns_open:
  assumes "columns_open view w self" "db_step oc rk (w, self) call = (w', self')"
  shows "columns_open view w' self'"
proof (cases call)
  case (CallWrite txn)
  obtain r where "db_write rk w self txn = ((w', self'), r)"
    using assms(2) CallWrite by (metis db_step.simps(1) fst_conv prod.collapse snd_conv)
  from write_result [OF this] assms(1) show ?thesis
    by (cases "cfs self") (auto simp: columns_open_def fold_apply_op_dom simp del: not_None_eq split: if_splits)
next
  case (CallGet col key)
  have "cfs (fst (db_get rk w self col key)) = cfs self"
    by (simp add: db_get_def Let_def split: option.splits)
  with assms CallGet show ?thesis by (auto simp: columns_open_def)
next
  case CallClose
  with assms show ?thesis by (auto simp: columns_open_def db_close_def)
next
  case (CallAdd col)
  show ?thesis
  proof (cases "cfs self")
    case (Some c)
    show ?thesis
    proof (cases "column_config oc (config self) (block_opts self) col :: _ io")
      case (Ok co)
      obtain w1 r where "create_cf rk w (db c) col co = (w1, r)" by (cases "create_cf rk w (db c) col co")
      with created [OF this] assms CallAdd Some Ok show ?thesis
        by (cases r) (auto simp: columns_open_def add_column_def)
    qed (use assms CallAdd Some in \<open>auto simp: columns_open_def add_column_def\<close>)
  qed (use assms CallAdd in \<open>auto simp: columns_open_def add_column_def\<close>)
next
  case (CallRemove col)
  show ?thesis
  proof (cases "\<exists>c. cfs self = Some c \<and> col \<in> column_names c")
    case True
    then obtain c where c: "cfs self = Some c" "col \<in> column_names c" by blast
    obtain w1 r where "drop_cf rk w (db c) col = (w1, r)" by (cases "drop_cf rk w (db c) col")
    with dropped [OF this] assms CallRemove c show ?thesis
      by (cases r) (auto simp: columns_open_def remove_column_def Let_def split: if_splits)
  qed (use assms CallRemove in \<open>auto simp: columns_open_def remove_column_def split: option.splits\<close>)
qed

lemma run_columns_open:
  "columns_open view w self \<Longrightarrow> foldl (db_step oc rk) (w, self) calls = (w', self') \<Longrightarrow> columns_open view w' self'"
proof (induction calls arbitrary: w self)
  case (Cons call calls)
  obtain w1 s1 where s1: "db_step oc rk (w, self) call = (w1, s1)" by (cases "db_step oc rk (w, self) call")
  from step_columns_open [OF Cons.prems(1) s1] Cons.IH [of w1 s1] Cons.prems(2) s1 show ?case by simp
qed simp

lemma create_cfs_view:
  "create_cfs oc rk cfg bo h w cs = (w', Ok ()) \<Longrightarrow>
    (\<forall>c \<in> set cs. view w h c = None \<and> view w' h c \<noteq> None) \<and> (\<forall>c. view w h c \<noteq> None \<longrightarrow> view w' h c \<noteq> None)"
proof (induction cs arbitrary: w)
  case (Cons c cs)
  then obtain co w1 where w1: "create_cf rk w h c co = (w1, Ok ())" "create_cfs oc rk cfg bo h w1 cs = (w', Ok ())"
    by (auto simp: then_io_Ok_iff other_io_Ok_iff)
  from created [OF w1(1)] Cons.IH [OF w1(2)] show ?case by (auto split: if_splits)
qed simp

lemma open_primary_columns:
  assumes "open_primary oc rk w os p cfg bo = (w', Ok h)" "c \<in> set (columns cfg)"
  shows "view w' h c \<noteq> None"
proof -
  obtain ds where ds: "cf_descriptions oc cfg bo (columns cfg) = (Ok ds :: _ io)"
    using assms(1) by (auto simp: open_primary_def then_io_Ok_iff)
  have c: "c \<in> fst ` set ds" using cf_descriptions_names [OF ds] assms(2) by (metis set_map)
  obtain w1 r1 where 1: "open_cf_descriptors rk w os p ds = (w1, r1)" by (cases "open_cf_descriptors rk w os p ds")
  obtain w2 r2 where 2: "open_cf rk w1 os p [] = (w2, r2)" by (cases "open_cf rk w1 os p []")
  show ?thesis
  proof (cases r1)
    case (Ok h')
    with assms(1) ds 1 show ?thesis using opened [OF _ c, of w os p w1 h'] by (auto simp: open_primary_def)
  next
    case (Err e)
    show ?thesis
    proof (cases r2)
      case (Ok h')
      with assms ds 1 2 Err create_cfs_view [of oc cfg bo h' w2 "columns cfg"] show ?thesis
        by (auto simp: open_primary_def then_io_Ok_iff)
    next
      case (Err e')
      with assms(1) ds 1 2 \<open>r1 = Err e\<close> obtain w3 where "open_cf_descriptors rk w3 os p ds = (w', Ok h)"
        by (auto simp: open_primary_def then_io_Ok_iff other_io_Ok_iff split: if_splits)
      from opened [OF this c] show ?thesis .
    qed (use assms(1) ds 1 2 Err in \<open>auto simp: open_primary_def\<close>)
  qed (use assms(1) ds 1 in \<open>auto simp: open_primary_def\<close>)
qed

lemma open_columns_open:
  assumes "open_db oc ncpu now now' rk w cfg p = (w', Ok self)"
  shows "columns_open view w' self"
proof -
  from assms obtain w1 os bo h where "cfs self = Some \<lparr>db = h, column_names = set (columns cfg)\<rparr>"
    and opn: "(case secondary cfg of
         Some sp \<Rightarrow> open_secondary rk w1 os p sp cfg
       | None \<Rightarrow> open_primary oc rk w1 os p cfg bo) = (w', Ok h)"
    by (auto simp: open_db_def Let_def then_io_Ok_iff)
  moreover have "view w' h c \<noteq> None" if "c \<in> set (columns cfg)" for c
  proof (cases "secondary cfg")
    case None
    with opn open_primary_columns [OF _ that] show ?thesis by auto
  next
    case (Some sp)
    with opn obtain w2 where "open_cf_as_secondary rk w2 os p sp (columns cfg) = (w', Ok h)"
      by (auto simp: open_secondary_def then_io_Ok_iff other_io_Ok_iff split: prod.splits result.splits if_splits)
    from opened_secondary [OF this that] show ?thesis .
  qed
  ultimately show ?thesis by (simp add: columns_open_def)
qed

lemma get_no_panic: "columns_open view w self \<Longrightarrow> snd (db_get rk w self col key) \<noteq> Panic"
  using read_no_panic
  by (auto simp: db_get_def columns_open_def handle Let_def result_simps split: option.splits)

lemma retry_default:
  assumes "cf_descriptions oc cfg bo (columns cfg) = (Ok ds :: _ io)"
    "open_cf_descriptors rk w os p ds = (w1, Err e)" "open_cf rk w1 os p [] = (w2, Ok h)"
    "DEFAULT_COLUMN_NAME \<in> set (columns cfg)"
  shows "\<not> is_ok (snd (open_primary oc rk w os p cfg bo))"
proof
  assume "is_ok (snd (open_primary oc rk w os p cfg bo))"
  then obtain w' h' where "open_primary oc rk w os p cfg bo = (w', Ok h')"
    by (cases "open_primary oc rk w os p cfg bo"; cases "snd (open_primary oc rk w os p cfg bo)") auto
  with assms have "create_cfs oc rk cfg bo h w2 (columns cfg) = (w', Ok ())"
    by (auto simp: open_primary_def then_io_Ok_iff)
  from create_cfs_view [OF this] assms(4) opened_default [OF assms(3)] show False by auto
qed

end

end
