(* ===== verification/Rocks_Store.thy ===== *)
theory Rocks_Store
  imports Rocks_Database Datastore_Basic
begin

text \<open>
  The datastores with RocksDB as backend (\<open>src/ipfs/datastore-rocksdb/src/lib.rs\<close>): the store, its batches and
  its transactions, all of which share one \<open>Arc<Database>\<close>.

  The shared state is the world of the external calls with the database. The store is a \<open>datastore\<close> of the
  interface theory; its read methods return the answer only, and what a read adds to the
  statistics is in \<open>db_get\<close>. A batch or a transaction is the shared state with the pending
  operations; unlike the basic ones, it keeps them in order and hands them to the database in one write.
\<close>

primrec from_io :: "io_error \<Rightarrow> DataStoreError" where
  "from_io (Other e) = Custom e"
| "from_io (Os e) = Custom e"

definition key_column :: "Key \<Rightarrow> string" where
  "key_column key = DEFAULT_COLUMN_NAME"

definition key_as_bytes :: "Key \<Rightarrow> bytes" where
  "key_as_bytes key = map (\<lambda>c. of_nat (of_char c)) (as_str key)"

type_synonym ('w, 'h) rocks_state = "'w \<times> 'h Database"

definition rocks_new ::
  "bool \<Rightarrow> nat \<Rightarrow> nat \<Rightarrow> nat \<Rightarrow> ('w, 'h) rocks \<Rightarrow> 'w \<Rightarrow> DatabaseConfig \<Rightarrow> string \<Rightarrow> 'w \<times> 'h Database ds_result" where
  "rocks_new oc num_cpus now now' rk w cfg p =
    (let (w, r) = open_db oc num_cpus now now' rk w cfg p in (w, map_err from_io r))"

definition db_read :: "('w, 'h) rocks \<Rightarrow> ('w, 'h) rocks_state \<Rightarrow> Key \<Rightarrow> bytes option ds_result" where
  "db_read rk s key = map_err from_io (snd (db_get rk (fst s) (snd s) (key_column key) (key_as_bytes key)))"

definition write_txn :: "('w, 'h) rocks \<Rightarrow> ('w, 'h) rocks_state \<Rightarrow> DBTransaction \<Rightarrow> ('w, 'h) rocks_state \<times> unit ds_result" where
  "write_txn rk s txn = (let (s', r) = db_write rk (fst s) (snd s) txn in (s', map_err from_io r))"

definition rocks_datastore :: "('w, 'h) rocks \<Rightarrow> ('w, 'h) rocks_state datastore" where
  "rocks_datastore rk =
    \<lparr>ds_sync = \<lambda>s _. (s, Ok ()),
     ds_close = \<lambda>s. ((fst s, db_close (snd s)), Ok ()),
     ds_get = \<lambda>s key. and_then (db_read rk s key) (\<lambda>v. ok_or v (NotFound (as_str key))),
     ds_has = \<lambda>s key. map_ok (\<lambda>v. v \<noteq> None) (db_read rk s key),
     ds_size = \<lambda>s key. and_then (db_read rk s key) (\<lambda>v. map_ok length (ok_or v (NotFound (as_str key)))),
     ds_put = \<lambda>s key val. write_txn rk s (transaction_put transaction (key_column key) (key_as_bytes key) val),
     ds_delete = \<lambda>s key. write_txn rk s (transaction_delete transaction (key_column key) (key_as_bytes key))\<rparr>"

text \<open>The methods of a batch and of a transaction, on the shared state and the pending operations.\<close>

record 's batch_methods =
  bm_get :: "'s \<Rightarrow> Key \<Rightarrow> bytes ds_result"
  bm_has :: "'s \<Rightarrow> Key \<Rightarrow> bool ds_result"
  bm_size :: "'s \<Rightarrow> Key \<Rightarrow> nat ds_result"
  bm_put :: "'s \<Rightarrow> Key \<Rightarrow> bytes \<Rightarrow> 's \<times> unit ds_result"
  bm_delete :: "'s \<Rightarrow> Key \<Rightarrow> 's \<times> unit ds_result"
  bm_commit :: "'s \<Rightarrow> 's \<times> unit ds_result"

record 's txn_methods = "'s batch_methods" +
  bm_discard :: "'s \<Rightarrow> 's \<times> unit ds_result"

type_synonym ('w, 'h) rocks_pending = "('w, 'h) rocks_state \<times> DBTransaction"

definition rocks_batch_datastore :: "('w, 'h) rocks \<Rightarrow> ('w, 'h) rocks_pending batch_methods" where
  "rocks_batch_datastore rk =
    \<lparr>bm_get = \<lambda>(s, _) key. and_then (db_read rk s key) (\<lambda>v. ok_or v (NotFound (as_str key))),
     bm_has = \<lambda>(s, _) key. map_ok (\<lambda>v. v \<noteq> None) (db_read rk s key),
     bm_size = \<lambda>(s, _) key. and_then (db_read rk s key) (\<lambda>v. map_ok length (ok_or v (NotFound (as_str key)))),
     bm_put = \<lambda>(s, t) key val. ((s, transaction_put t (key_column key) (key_as_bytes key) val), Ok ()),
     bm_delete = \<lambda>(s, t) key. ((s, transaction_delete t (key_column key) (key_as_bytes key)), Ok ()),
     bm_commit = \<lambda>(s, t).
       (case write_txn rk s t of
          (s', Ok _) \<Rightarrow> ((s', transaction_clear t), Ok ())
        | (s', r) \<Rightarrow> ((s', t), r))\<rparr>"

definition rocks_txn_datastore :: "('w, 'h) rocks \<Rightarrow> ('w, 'h) rocks_pending txn_methods" where
  "rocks_txn_datastore rk =
    \<lparr>bm_get = \<lambda>(s, _) key. and_then (db_read rk s key) (\<lambda>v. ok_or v (NotFound (as_str key))),
     bm_has = \<lambda>(s, _) key. map_ok (\<lambda>v. v \<noteq> None) (db_read rk s key),
     bm_size = \<lambda>(s, _) key. and_then (db_read rk s key) (\<lambda>v. map_ok length (ok_or v (NotFound (as_str key)))),
     bm_put = \<lambda>(s, t) key val. ((s, transaction_put t (key_column key) (key_as_bytes key) val), Ok ()),
     bm_delete = \<lambda>(s, t) key. ((s, transaction_delete t (key_column key) (key_as_bytes key)), Ok ()),
     bm_commit = \<lambda>(s, t).
       (case write_txn rk s t of
          (s', Ok _) \<Rightarrow> ((s', transaction_clear t), Ok ())
        | (s', r) \<Rightarrow> ((s', t), r)),
     bm_discard = \<lambda>(s, t). ((s, t\<lparr>ops := []\<rparr>), Ok ())\<rparr>"

definition rocks_batch :: "('w, 'h) rocks_state \<Rightarrow> ('w, 'h) rocks_pending ds_result" where
  "rocks_batch s = Ok (s, transaction)"

definition rocks_txn :: "('w, 'h) rocks_state \<Rightarrow> bool \<Rightarrow> ('w, 'h) rocks_pending ds_result" where
  "rocks_txn s read_only = Ok (s, transaction)"

definition rocks_batch_txn :: "('w, 'h) rocks_pending \<Rightarrow> bool \<Rightarrow> ('w, 'h) rocks_pending ds_result" where
  "rocks_batch_txn b read_only = Ok b"


subsection \<open>The map that a store stands for\<close>

definition rocks_abs ::
  "('w \<Rightarrow> 'h \<Rightarrow> string \<Rightarrow> (bytes \<rightharpoonup> bytes) option) \<Rightarrow> ('w, 'h) rocks_state \<Rightarrow> (Key \<rightharpoonup> bytes)" where
  "rocks_abs view s k =
    (case cfs (snd s) of
       Some c \<Rightarrow> (case view (fst s) (db c) DEFAULT_COLUMN_NAME of Some m \<Rightarrow> m (key_as_bytes k) | None \<Rightarrow> None)
     | None \<Rightarrow> None)"

primrec db_op :: "store_write \<Rightarrow> DBOp" where
  "db_op (Put k v) = Insert DEFAULT_COLUMN_NAME (key_as_bytes k) v"
| "db_op (Delete k) = DeleteKey DEFAULT_COLUMN_NAME (key_as_bytes k)"

primrec pend :: "('s, 'z) batch_methods_scheme \<Rightarrow> 's \<Rightarrow> store_write \<Rightarrow> 's" where
  "pend bm b (Put k v) = fst (bm_put bm b k v)"
| "pend bm b (Delete k) = fst (bm_delete bm b k)"

lemma key_as_bytes_inject: "key_as_bytes k = key_as_bytes k' \<longleftrightarrow> k = k'"
proof
  assume eq: "key_as_bytes k = key_as_bytes k'"
  have "inj (\<lambda>c. of_nat (of_char c) :: u8)"
  proof (rule injI)
    fix c d :: char assume "(of_nat (of_char c) :: u8) = of_nat (of_char d)"
    then have "unat (of_nat (of_char c) :: u8) = unat (of_nat (of_char d) :: u8)" by simp
    then show "c = d" by (simp add: unat_of_nat of_char_eq_iff)
  qed
  from map_injective [OF eq [unfolded key_as_bytes_def] this] show "k = k'" by (cases k; cases k') simp
qed simp

lemma rocks_abs_Some:
  "cfs (snd s) = Some c \<Longrightarrow> view (fst s) (db c) DEFAULT_COLUMN_NAME = Some m \<Longrightarrow> rocks_abs view s = (\<lambda>k. m (key_as_bytes k))"
  by (simp add: rocks_abs_def fun_eq_iff)

lemma apply_db_op:
  "cols DEFAULT_COLUMN_NAME = Some m \<Longrightarrow> (\<And>k. m (key_as_bytes k) = a k) \<Longrightarrow>
    \<exists>m'. apply_op (db_op w) cols DEFAULT_COLUMN_NAME = Some m' \<and> (\<forall>k. m' (key_as_bytes k) = write_map w a k)"
  by (cases w) (auto simp: key_as_bytes_inject)

lemma apply_db_ops:
  "cols DEFAULT_COLUMN_NAME = Some m \<Longrightarrow> (\<And>k. m (key_as_bytes k) = a k) \<Longrightarrow>
    \<exists>m'. fold apply_op (map db_op ws) cols DEFAULT_COLUMN_NAME = Some m' \<and> (\<forall>k. m' (key_as_bytes k) = fold write_map ws a k)"
proof (induction ws arbitrary: cols m a)
  case (Cons w ws)
  obtain m1 where m1: "apply_op (db_op w) cols DEFAULT_COLUMN_NAME = Some m1" "\<And>k. m1 (key_as_bytes k) = write_map w a k"
    using apply_db_op [of cols m a w] Cons.prems by blast
  from Cons.IH [of "apply_op (db_op w) cols" m1 "write_map w a"] m1 show ?case by simp
qed simp

context rocks_laws
begin

lemma write_txn_abs:
  assumes "write_txn rk s t = (s', r)" "ops t = map db_op ws"
  shows "rocks_abs view s' = (if is_ok r \<and> cfs (snd s) \<noteq> None then fold write_map ws (rocks_abs view s) else rocks_abs view s)"
    and "cfs (snd s) = None \<Longrightarrow> r = Err (Custom ''Database is closed'')"
    and "cfs (snd s') = cfs (snd s)"
proof -
  obtain w' d' r' where d: "db_write rk (fst s) (snd s) t = ((w', d'), r')"
    by (cases "db_write rk (fst s) (snd s) t") auto
  then have s': "s' = (w', d')" "r = map_err from_io r'" using assms(1) by (auto simp: write_txn_def)
  note wr = write_result [OF d]
  show "cfs (snd s) = None \<Longrightarrow> r = Err (Custom ''Database is closed'')" using wr(3) s' by simp
  show "cfs (snd s') = cfs (snd s)" using wr(1) s' by simp
  show "rocks_abs view s' = (if is_ok r \<and> cfs (snd s) \<noteq> None then fold write_map ws (rocks_abs view s) else rocks_abs view s)"
  proof (cases "cfs (snd s)")
    case None
    then show ?thesis using wr(1) s' by (auto simp: rocks_abs_def fun_eq_iff)
  next
    case (Some c)
    note v = wr(2) [OF Some]
    show ?thesis
    proof (cases "is_ok r'")
      case ok: True
      show ?thesis
      proof (cases "view (fst s) (db c) DEFAULT_COLUMN_NAME")
        case None
        then have "ws = []"
          using wr(4) [OF Some] ok assms(2) by (cases ws; cases r'; cases "hd ws") auto
        with None v ok assms(2) s' wr(1) Some show ?thesis by (simp add: rocks_abs_def fun_eq_iff)
      next
        case (Some m)
        have "m (key_as_bytes k) = rocks_abs view s k" for k
          using rocks_abs_Some [of s c view m] Some \<open>cfs (snd s) = Some c\<close> by simp
        with apply_db_ops [of "view (fst s) (db c)" m "rocks_abs view s" ws] Some
        obtain m' where m': "view w' (db c) DEFAULT_COLUMN_NAME = Some m'"
          "\<And>k. m' (key_as_bytes k) = fold write_map ws (rocks_abs view s) k"
          using v ok assms(2) by auto
        have "rocks_abs view s' = fold write_map ws (rocks_abs view s)"
          using rocks_abs_Some [of s' c view m'] m' s' wr(1) \<open>cfs (snd s) = Some c\<close> by (simp add: fun_eq_iff)
        moreover have "is_ok r" using ok s' by (cases r') simp_all
        ultimately show ?thesis using \<open>cfs (snd s) = Some c\<close> by simp
      qed
    next
      case False
      then show ?thesis using v s' wr(1) Some by (cases r') (auto simp: rocks_abs_def fun_eq_iff)
    qed
  qed
qed

lemma flaky_rocks: "flaky_store (rocks_datastore rk) (rocks_abs view) (\<lambda>_. True)"
proof
  fix k s v s' r
  show "ds_put (rocks_datastore rk) s k v = (s', r) \<Longrightarrow>
      if r = Ok () then rocks_abs view s' = (rocks_abs view s)(k \<mapsto> v) else rocks_abs view s' = rocks_abs view s"
    using write_txn_abs [of s "transaction_put transaction (key_column k) (key_as_bytes k) v" s' r "[Put k v]"]
    by (cases r) (auto simp: rocks_datastore_def transaction_put_def transaction_def key_column_def)
  show "ds_delete (rocks_datastore rk) s k = (s', r) \<Longrightarrow>
      if r = Ok () then rocks_abs view s' = (rocks_abs view s)(k := None) else rocks_abs view s' = rocks_abs view s"
    using write_txn_abs [of s "transaction_delete transaction (key_column k) (key_as_bytes k)" s' r "[Delete k]"]
    by (cases r) (auto simp: rocks_datastore_def transaction_delete_def transaction_def key_column_def)
qed

lemma read_abs:
  assumes "cfs (snd s) = Some c" "DEFAULT_COLUMN_NAME \<in> column_names c" "columns_open view (fst s) (snd s)"
  shows "db_read rk s k = Ok (rocks_abs view s k) \<or> (\<exists>e. db_read rk s k = Err (Custom e))"
proof -
  obtain m where m: "view (fst s) (db c) DEFAULT_COLUMN_NAME = Some m"
    using assms by (auto simp: columns_open_def)
  then have "cf_handle rk (fst s) (db c) DEFAULT_COLUMN_NAME" by (simp add: handle)
  then show ?thesis
    using assms(1,2) m read [OF m, of "key_as_bytes k"] read_no_panic [of "fst s" "db c" DEFAULT_COLUMN_NAME "key_as_bytes k"]
    by (cases "get_pinned_cf rk (fst s) (db c) DEFAULT_COLUMN_NAME (key_as_bytes k)")
      (auto simp: db_read_def db_get_def key_column_def rocks_abs_def other_io_err_def Let_def)
qed

end


subsection \<open>An engine in memory\<close>

text \<open>
  An instance of the external calls: databases as maps of columns, created with the column \<open>default\<close> when they
  are first opened, and a flag that makes writes fail. It lets some of the columns be opened.
\<close>

record mem_world =
  mem_full :: bool
  mem_files :: "string set"
  mem_dbs :: "string \<Rightarrow> string \<Rightarrow> (bytes \<rightharpoonup> bytes) option"

definition mem_open :: "mem_world \<Rightarrow> string \<Rightarrow> string list \<Rightarrow> mem_world \<times> (string, string) result" where
  "mem_open w p names =
    (let cols = (mem_dbs w p)(DEFAULT_COLUMN_NAME \<mapsto>
           case mem_dbs w p DEFAULT_COLUMN_NAME of Some m \<Rightarrow> m | None \<Rightarrow> Map.empty) in
     if list_all (\<lambda>n. cols n \<noteq> None) names then (w\<lparr>mem_dbs := (mem_dbs w)(p := cols)\<rparr>, Ok p)
     else (w, Err ''Invalid argument: Column family not found''))"

definition mem_rocks :: "(mem_world, string) rocks" where
  "mem_rocks =
    \<lparr>open_cf_descriptors = \<lambda>w os p ds. mem_open w p (map fst ds),
     open_cf = \<lambda>w os p cs. mem_open w p cs,
     open_cf_as_secondary = \<lambda>w os p sp cs. mem_open w p cs,
     repair = \<lambda>w os p. (w, Ok ()),
     cf_handle = \<lambda>w h c. mem_dbs w h c \<noteq> None,
     create_cf = \<lambda>w h c co.
       if mem_dbs w h c \<noteq> None then (w, Err ''Invalid argument: Column family already exists'')
       else (w\<lparr>mem_dbs := (mem_dbs w)(h := (mem_dbs w h)(c \<mapsto> Map.empty))\<rparr>, Ok ()),
     drop_cf = \<lambda>w h c. (w\<lparr>mem_dbs := (mem_dbs w)(h := (mem_dbs w h)(c := None))\<rparr>, Ok ()),
     write_opt = \<lambda>w h b.
       if mem_full w then (w, Err ''IO error: No space left on device'')
       else (w\<lparr>mem_dbs := (mem_dbs w)(h := fold apply_op b (mem_dbs w h))\<rparr>, Ok ()),
     get_pinned_cf = \<lambda>w h c k. Ok (case mem_dbs w h c of Some m \<Rightarrow> m k | None \<Rightarrow> None),
     property_int_value_cf = \<lambda>w h c prop. Ok None,
     file_exists = \<lambda>w f. f \<in> mem_files w,
     file_create = \<lambda>w f. w\<lparr>mem_files := insert f (mem_files w)\<rparr>,
     file_remove = \<lambda>w f. (w\<lparr>mem_files := mem_files w - {f}\<rparr>, Ok ())\<rparr>"

lemma mem_open_Ok: "mem_open w p cs = (w', Ok h) \<Longrightarrow> c \<in> set cs \<or> c = DEFAULT_COLUMN_NAME \<Longrightarrow> mem_dbs w' h c \<noteq> None"
  by (auto simp: mem_open_def Let_def list_all_iff split: if_splits)

interpretation mem_rocks: rocks_laws mem_rocks mem_dbs
proof (unfold_locales, goal_cases)
  case (7 w os p ds w' h c)
  then show ?case using mem_open_Ok [of w p "map fst ds" w' h c] by (simp add: mem_rocks_def)
next
  case (8 w os p sp cs w' h c)
  then show ?case using mem_open_Ok [of w p cs w' h c] by (simp add: mem_rocks_def)
next
  case (9 w os p cs w' h)
  then show ?case using mem_open_Ok [of w p cs w' h DEFAULT_COLUMN_NAME] by (simp add: mem_rocks_def)
qed (auto simp: mem_rocks_def split: if_splits)

interpretation mem_rocks_store: flaky_store "rocks_datastore mem_rocks" "rocks_abs mem_dbs" "\<lambda>_. True"
  by (rule mem_rocks.flaky_rocks)

definition mem_empty :: "bool \<Rightarrow> mem_world" where
  "mem_empty full = \<lparr>mem_full = full, mem_files = {}, mem_dbs = \<lambda>_ _. None\<rparr>"

definition mem_db :: "string Database" where
  "mem_db =
    \<lparr>cfs = Some \<lparr>db = ''db'', column_names = {DEFAULT_COLUMN_NAME}\<rparr>, config = config_default, path = ''db'',
     opts = generate_options 4 config_default,
     block_opts = [BlockSize 16384, LruCache 44739242, CacheIndexAndFilterBlocks True, PinL0FilterAndIndexBlocksInCache True, BloomFilter 10 True],
     running = running_new 0 0\<rparr>"

definition mem_opened :: "bool \<Rightarrow> mem_world" where
  "mem_opened full = (mem_empty full)\<lparr>mem_dbs := (\<lambda>_ _. None)(''db'' := [DEFAULT_COLUMN_NAME \<mapsto> Map.empty])\<rparr>"

lemma mem_open_db: "open_db True 4 0 0 mem_rocks (mem_empty full) config_default ''db'' = (mem_opened full, Ok mem_db)"
  by (simp add: open_db_def generate_block_based_options_def memory_budget_def memory_budget_for_col_def config_default_def
      compaction_default_def compaction_ssd_def DB_DEFAULT_COLUMN_MEMORY_BUDGET_MB_def MB_def KB_def mul_w_def add_w_def
      mem_rocks_def mem_empty_def open_primary_def column_config_def mem_open_def mem_db_def mem_opened_def DEFAULT_COLUMN_NAME_def
      generate_options_def Let_def)


subsection \<open>Properties\<close>

lemma pend_ops:
  "foldl (pend (rocks_batch_datastore rk)) (s, t) ws = (s, \<lparr>ops = ops t @ map db_op ws\<rparr>)"
proof (induction ws arbitrary: t)
  case (Cons w ws)
  then show ?case
    by (cases w) (simp_all add: rocks_batch_datastore_def transaction_put_def transaction_delete_def key_column_def)
qed simp

text \<open>
  C7: A RocksDB batch commits atomically. Until the commit the batch reads what the store holds; a commit
  that succeeds makes the store the one obtained by applying the writes in order and leaves
  nothing pending; a commit that fails, for whatever reason, leaves the store as it was and all the
  writes pending, so that it can be retried.
\<close>

theorem rocks_batch_atomic:
  assumes "rocks_laws rk view" "cfs (snd s) \<noteq> None"
    and "b = foldl (pend (rocks_batch_datastore rk)) (s, transaction) ws"
    and "bm_commit (rocks_batch_datastore rk) b = (b', r)"
  shows "bm_get (rocks_batch_datastore rk) b k = ds_get (rocks_datastore rk) s k \<and>
    (if is_ok r then rocks_abs view (fst b') = fold write_map ws (rocks_abs view s) \<and> ops (snd b') = []
     else rocks_abs view (fst b') = rocks_abs view s \<and> snd b' = snd b)"
proof -
  have b: "b = (s, \<lparr>ops = map db_op ws\<rparr>)" using assms(3) by (simp add: pend_ops transaction_def)
  obtain s' r' where w: "write_txn rk s \<lparr>ops = map db_op ws\<rparr> = (s', r')" by (cases "write_txn rk s \<lparr>ops = map db_op ws\<rparr>")
  from rocks_laws.write_txn_abs(1) [OF assms(1) w, of ws] assms(2,4) b w show ?thesis
    by (cases r') (auto simp: rocks_batch_datastore_def rocks_datastore_def transaction_clear_def)
qed

theorem rocks_batch_atomic_witness:
  "\<exists>b' e. bm_commit (rocks_batch_datastore mem_rocks)
      (foldl (pend (rocks_batch_datastore mem_rocks)) ((mem_opened True, mem_db), transaction) [Put (Key ''/a'') [1]]) = (b', Err e) \<and>
    rocks_abs mem_dbs (fst b') = rocks_abs mem_dbs (mem_opened True, mem_db)"
proof -
  let ?b = "foldl (pend (rocks_batch_datastore mem_rocks)) ((mem_opened True, mem_db), transaction) [Put (Key ''/a'') [1]]"
  have "cfs (snd (mem_opened True, mem_db)) \<noteq> None" by (simp add: mem_db_def)
  note atomic = rocks_batch_atomic [OF mem_rocks.rocks_laws_axioms this refl]
  have "snd (bm_commit (rocks_batch_datastore mem_rocks) ?b) = Err (Custom ''IO error: No space left on device'')"
    by (simp add: pend_ops transaction_def rocks_batch_datastore_def write_txn_def db_write_def mem_rocks_def mem_opened_def
        mem_db_def mem_empty_def is_corrupted_def starts_with_def other_io_err_def Let_def transaction_put_def
        key_column_def)
  then obtain b' e where "bm_commit (rocks_batch_datastore mem_rocks) ?b = (b', Err e)"
    by (metis prod.collapse)
  with atomic [OF this] show ?thesis by auto
qed



text \<open>
  C14: Whatever configuration a database was opened with, and whatever was written, added, removed, read or
  closed since, also by calls that failed, a read never panics. A write panics exactly when the
  database is open and one of its operations names a column that is not.
\<close>

theorem rocks_read_safe:
  assumes "rocks_laws rk view" "open_db oc ncpu now now' rk w cfg p = (w0, Ok d0)"
    and "foldl (db_step oc rk) (w0, d0) calls = (w1, d1)"
  shows "snd (db_get rk w1 d1 col key) \<noteq> Panic \<and>
    (snd (db_write rk w1 d1 txn) = Panic \<longleftrightarrow>
      (\<exists>c. cfs d1 = Some c \<and> (\<exists>op \<in> set (ops txn). \<not> cf_handle rk w1 (db c) (op_col op))))"
proof
  have "columns_open view w1 d1"
    by (rule rocks_laws.run_columns_open [OF assms(1) rocks_laws.open_columns_open [OF assms(1,2)] assms(3)])
  then show "snd (db_get rk w1 d1 col key) \<noteq> Panic" by (rule rocks_laws.get_no_panic [OF assms(1)])
  obtain w2 d2 r where "db_write rk w1 d1 txn = ((w2, d2), r)" by (cases "db_write rk w1 d1 txn") auto
  with rocks_laws.write_result [OF assms(1) this] rocks_laws.handle [OF assms(1)]
  show "snd (db_write rk w1 d1 txn) = Panic \<longleftrightarrow>
      (\<exists>c. cfs d1 = Some c \<and> (\<exists>op \<in> set (ops txn). \<not> cf_handle rk w1 (db c) (op_col op)))"
    by (cases "cfs d1") auto
qed

theorem rocks_read_safe_witness:
  "snd (db_get mem_rocks (fst (foldl (db_step True mem_rocks) (mem_opened False, mem_db) [CallRemove ''default'']))
     (snd (foldl (db_step True mem_rocks) (mem_opened False, mem_db) [CallRemove ''default''])) ''default'' [1]) \<noteq> Panic"
  using rocks_read_safe [OF mem_rocks.rocks_laws_axioms mem_open_db [of False], of "[CallRemove ''default'']"]
  by (metis prod.collapse)



end
