(* ===== verification/Jsonrpc_Types.thy ===== *)
theory Jsonrpc_Types
  imports Json_Tree Rust_Str
begin

text \<open>
  The JSON-RPC types of the client (\<open>src/api-client/jsonrpc-client/src/types\<close>, \<open>errors.rs\<close>) with the
  \<open>Serialize\<close> and \<open>Deserialize\<close> implementations that the transports use: requests are written,
  notifications and responses are read.
\<close>

datatype Version = V2

definition ser_version :: "Version \<Rightarrow> json" where
  "ser_version v = (case v of V2 \<Rightarrow> JStr ''2.0'')"

definition de_version :: "json \<Rightarrow> Version de" where
  "de_version j =
    (case j of JStr s \<Rightarrow> if s = ''2.0'' then Ok V2 else Err ''invalid version'' | _ \<Rightarrow> mismatch)"


subsection \<open>Parameters and requests\<close>

datatype Params = NoParams | ArrayParams "json list" | MapParams "(string \<times> json) list"

definition params_value :: "Params \<Rightarrow> json" where
  "params_value p = (case p of ArrayParams vs \<Rightarrow> JArr vs | MapParams m \<Rightarrow> JObj m | NoParams \<Rightarrow> JNull)"

definition de_params :: "json \<Rightarrow> Params de" where
  "de_params j =
    (case j of JNull \<Rightarrow> Ok NoParams | JArr vs \<Rightarrow> Ok (ArrayParams vs) | JObj m \<Rightarrow> Ok (MapParams m) | _ \<Rightarrow> mismatch)"

record MethodCall =
  mc_jsonrpc :: "Version option"
  mc_method :: string
  mc_params :: Params
  mc_id :: u64

record Notification =
  nt_jsonrpc :: "Version option"
  nt_method :: string
  nt_params :: Params

datatype Call = MethodCall MethodCall | Notification Notification

datatype Request = SingleRequest Call | BatchRequest "Call list"

definition ser_opt :: "('a \<Rightarrow> json) \<Rightarrow> 'a option \<Rightarrow> json" where
  "ser_opt f x = (case x of Some y \<Rightarrow> f y | None \<Rightarrow> JNull)"

primrec ser_call :: "Call \<Rightarrow> json" where
  "ser_call (MethodCall c) =
    JObj [(''jsonrpc'', ser_opt ser_version (mc_jsonrpc c)), (''method'', JStr (mc_method c)),
          (''params'', params_value (mc_params c)), (''id'', JInt (uint (mc_id c)))]"
| "ser_call (Notification n) =
    JObj [(''jsonrpc'', ser_opt ser_version (nt_jsonrpc n)), (''method'', JStr (nt_method n)),
          (''params'', params_value (nt_params n))]"

primrec ser_request :: "Request \<Rightarrow> json" where
  "ser_request (SingleRequest c) = ser_call c"
| "ser_request (BatchRequest cs) = JArr (map ser_call cs)"

definition de_notification :: "json \<Rightarrow> Notification de" where
  "de_notification j =
    and_then (struct_fields True 1 [''jsonrpc'', ''method'', ''params''] j) (\<lambda>fs.
    and_then (optional de_version (fs ! 0)) (\<lambda>v.
    and_then (required de_string (fs ! 1)) (\<lambda>m.
    and_then (case fs ! 2 of None \<Rightarrow> Ok NoParams | Some p \<Rightarrow> de_params p) (\<lambda>p.
      Ok \<lparr>nt_jsonrpc = v, nt_method = m, nt_params = p\<rparr>))))"


subsection \<open>Errors\<close>

datatype ErrorCode = ParseError | InvalidRequest | MethodNotFound | InvalidParams | InternalError | ServerError int

primrec error_code :: "ErrorCode \<Rightarrow> int" where
  "error_code ParseError = - 32700"
| "error_code InvalidRequest = - 32600"
| "error_code MethodNotFound = - 32601"
| "error_code InvalidParams = - 32602"
| "error_code InternalError = - 32603"
| "error_code (ServerError code) = code"

primrec error_description :: "ErrorCode \<Rightarrow> string" where
  "error_description ParseError = ''Parse error''"
| "error_description InvalidRequest = ''Invalid request''"
| "error_description MethodNotFound = ''Method not found''"
| "error_description InvalidParams = ''Invalid params''"
| "error_description InternalError = ''Internal error''"
| "error_description (ServerError code) = ''Server error''"

definition error_code_from :: "int \<Rightarrow> ErrorCode" where
  "error_code_from code =
    (if code = - 32700 then ParseError else if code = - 32600 then InvalidRequest
     else if code = - 32601 then MethodNotFound else if code = - 32602 then InvalidParams
     else if code = - 32603 then InternalError else ServerError code)"

record Error =
  er_code :: ErrorCode
  er_message :: string
  er_data :: "json option"

definition error_new :: "ErrorCode \<Rightarrow> Error" where
  "error_new code = \<lparr>er_code = code, er_message = error_description code, er_data = None\<rparr>"

definition invalid_params :: "string \<Rightarrow> Error" where
  "invalid_params message = \<lparr>er_code = InvalidParams, er_message = message, er_data = None\<rparr>"

definition invalid_params_with_details :: "('a \<Rightarrow> string) \<Rightarrow> string \<Rightarrow> 'a \<Rightarrow> Error" where
  "invalid_params_with_details dbg message details =
    \<lparr>er_code = InvalidParams, er_message = ''Invalid parameters: '' @ message,
     er_data = Some (JStr (dbg details))\<rparr>"

definition invalid_version :: Error where
  "invalid_version =
    \<lparr>er_code = InvalidRequest, er_message = ''Unsupported JSON-RPC protocol version'', er_data = None\<rparr>"

definition error_display :: "Error \<Rightarrow> string" where
  "error_display e = error_description (er_code e) @ '': '' @ er_message e"

text \<open>
  \<open>Params::parse\<close> reads the parameters as a given type, here as a function \<open>from_value\<close>;
  \<open>expect_no_params\<close> shows unexpected ones with \<open>Debug\<close>, here \<open>dbg\<close>.
\<close>

definition params_parse :: "(json \<Rightarrow> 'a de) \<Rightarrow> Params \<Rightarrow> ('a, Error) result" where
  "params_parse from_value p =
    map_err (\<lambda>err. invalid_params (''Invalid params: '' @ err @ ''.'')) (from_value (params_value p))"

definition expect_no_params :: "(Params \<Rightarrow> string) \<Rightarrow> Params \<Rightarrow> (unit, Error) result" where
  "expect_no_params dbg p =
    (case p of
       NoParams \<Rightarrow> Ok ()
     | ArrayParams [] \<Rightarrow> Ok ()
     | p \<Rightarrow> Err (invalid_params_with_details dbg ''No parameters were expected'' p))"

definition ser_error :: "Error \<Rightarrow> json" where
  "ser_error e =
    JObj ([(''code'', JInt (error_code (er_code e))), (''message'', JStr (er_message e))] @
      (case er_data e of Some d \<Rightarrow> [(''data'', d)] | None \<Rightarrow> []))"

definition de_error :: "json \<Rightarrow> Error de" where
  "de_error j =
    and_then (struct_fields False 0 [''code'', ''message'', ''data''] j) (\<lambda>fs.
    and_then (required de_i64 (fs ! 0)) (\<lambda>c.
    and_then (required de_string (fs ! 1)) (\<lambda>m.
    and_then (optional Ok (fs ! 2)) (\<lambda>d.
      Ok \<lparr>er_code = error_code_from c, er_message = m, er_data = d\<rparr>))))"

datatype RpcError = JsonError string | HttpError string | WebSocketError string | RpcResponse Error


subsection \<open>Responses\<close>

record SuccessResponse =
  su_jsonrpc :: "Version option"
  su_id :: u64
  su_result :: json
  su_error :: "Error option"

record FailureResponse =
  fa_jsonrpc :: "Version option"
  fa_id :: u64
  fa_result :: "json option"
  fa_error :: Error

datatype ResponseOutput = Success SuccessResponse | Failure FailureResponse

datatype Response = Single ResponseOutput | Batch "ResponseOutput list"

primrec output_id :: "ResponseOutput \<Rightarrow> u64" where
  "output_id (Success s) = su_id s"
| "output_id (Failure f) = fa_id f"

primrec output_version :: "ResponseOutput \<Rightarrow> Version option" where
  "output_version (Success s) = su_jsonrpc s"
| "output_version (Failure f) = fa_jsonrpc f"

definition output_from :: "Version option \<Rightarrow> u64 \<Rightarrow> Error + json \<Rightarrow> ResponseOutput" where
  "output_from v i r =
    (case r of
       Inr res \<Rightarrow> Success \<lparr>su_jsonrpc = v, su_id = i, su_result = res, su_error = None\<rparr>
     | Inl e \<Rightarrow> Failure \<lparr>fa_jsonrpc = v, fa_id = i, fa_result = None, fa_error = e\<rparr>)"

definition invalid_request :: "Version option \<Rightarrow> u64 \<Rightarrow> ResponseOutput" where
  "invalid_request v i =
    Failure \<lparr>fa_jsonrpc = v, fa_id = i, fa_result = None, fa_error = error_new InvalidRequest\<rparr>"

primrec output_result :: "ResponseOutput \<Rightarrow> Error + json" where
  "output_result (Success s) = Inr (su_result s)"
| "output_result (Failure f) = Inl (fa_error f)"

definition ser_version_field :: "Version option \<Rightarrow> (string \<times> json) list" where
  "ser_version_field v = (case v of Some x \<Rightarrow> [(''jsonrpc'', ser_version x)] | None \<Rightarrow> [])"

primrec ser_output :: "ResponseOutput \<Rightarrow> json" where
  "ser_output (Success s) =
    JObj (ser_version_field (su_jsonrpc s) @
      [(''id'', JInt (uint (su_id s))), (''result'', su_result s), (''error'', ser_opt ser_error (su_error s))])"
| "ser_output (Failure f) =
    JObj (ser_version_field (fa_jsonrpc f) @
      [(''id'', JInt (uint (fa_id f))), (''result'', ser_opt id (fa_result f)), (''error'', ser_error (fa_error f))])"

definition de_success :: "json \<Rightarrow> SuccessResponse de" where
  "de_success j =
    and_then (struct_fields True 0 [''jsonrpc'', ''id'', ''result'', ''error''] j) (\<lambda>fs.
    and_then (optional de_version (fs ! 0)) (\<lambda>v.
    and_then (required de_u64 (fs ! 1)) (\<lambda>i.
    and_then (required Ok (fs ! 2)) (\<lambda>r.
    and_then (optional de_error (fs ! 3)) (\<lambda>e.
      Ok \<lparr>su_jsonrpc = v, su_id = i, su_result = r, su_error = e\<rparr>)))))"

definition de_failure :: "json \<Rightarrow> FailureResponse de" where
  "de_failure j =
    and_then (struct_fields True 0 [''jsonrpc'', ''id'', ''result'', ''error''] j) (\<lambda>fs.
    and_then (optional de_version (fs ! 0)) (\<lambda>v.
    and_then (required de_u64 (fs ! 1)) (\<lambda>i.
    and_then (optional Ok (fs ! 2)) (\<lambda>r.
    and_then (required de_error (fs ! 3)) (\<lambda>e.
      Ok \<lparr>fa_jsonrpc = v, fa_id = i, fa_result = r, fa_error = e\<rparr>)))))"

text \<open>Both enums are \<open>untagged\<close>: their variants are tried in order of declaration.\<close>

definition de_output :: "json \<Rightarrow> ResponseOutput de" where
  "de_output j = or_else (map_ok Success (de_success j)) (or_else (map_ok Failure (de_failure j)) mismatch)"

definition de_response :: "json \<Rightarrow> Response de" where
  "de_response j =
    or_else (map_ok Single (de_output j))
      (or_else (case j of JArr js \<Rightarrow> map_ok Batch (de_list de_output js) | _ \<Rightarrow> mismatch) mismatch)"


subsection \<open>Reading back what was written\<close>

text \<open>An error written and read again: a code that fits the named ones is named, and \<open>null\<close> data is lost.\<close>

definition error_ok :: "Error \<Rightarrow> bool" where
  "error_ok e \<longleftrightarrow> error_code_from (error_code (er_code e)) = er_code e
     \<and> - (2 ^ 63) \<le> error_code (er_code e) \<and> error_code (er_code e) < 2 ^ 63 \<and> er_data e \<noteq> Some JNull"

lemma de_version_ser [simp]: "de_version (ser_version v) = Ok v"
  by (cases v) (simp add: ser_version_def de_version_def)

lemma ser_version_not_null [simp]: "ser_version v \<noteq> JNull"
  by (cases v) (simp add: ser_version_def)

lemma de_error_ser: "error_ok e \<Longrightarrow> de_error (ser_error e) = Ok e"
  by (cases e; cases "er_data e")
    (auto simp: error_ok_def de_error_def ser_error_def struct_fields_def de_i64_def de_string_def)

lemma ser_error_not_null [simp]: "ser_error e \<noteq> JNull"
  by (simp add: ser_error_def)

lemma version_field [simp]:
  "map_of (ser_version_field v @ rest) ''jsonrpc'' = (case v of Some x \<Rightarrow> Some (ser_version x) | None \<Rightarrow> map_of rest ''jsonrpc'')"
  "k \<noteq> ''jsonrpc'' \<Longrightarrow> map_of (ser_version_field v @ rest) k = map_of rest k"
  by (auto simp: ser_version_field_def split: option.splits)

lemma response_fields:
  "struct_fields True 0 [''jsonrpc'', ''id'', ''result'', ''error'']
     (JObj (ser_version_field v @ [(''id'', i), (''result'', r), (''error'', e)])) =
   Ok [map_option ser_version v, Some i, Some r, Some e]"
  by (cases v) (auto simp: struct_fields_def ser_version_field_def)

lemma optional_version [simp]: "optional de_version (map_option ser_version v) = Ok v"
  by (cases v) auto

lemma de_output_success:
  assumes "pred_option error_ok (su_error s)"
  shows "de_output (ser_output (Success s)) = Ok (Success s)"
  using assms
  by (cases s; cases "su_error s") (auto simp: de_output_def de_success_def response_fields ser_opt_def de_error_ser)

text \<open>Every output has a \<open>result\<close> field, which \<open>SuccessResponse\<close> accepts whatever the \<open>error\<close> is.\<close>

lemma de_output_failure:
  assumes "error_ok (fa_error f)"
  shows "de_output (ser_output (Failure f)) =
    Ok (Success \<lparr>su_jsonrpc = fa_jsonrpc f, su_id = fa_id f, su_result = ser_opt id (fa_result f),
                 su_error = Some (fa_error f)\<rparr>)"
  using assms by (simp add: de_output_def de_success_def response_fields de_error_ser)

lemma de_output_no_result:
  assumes "error_ok e"
  shows "de_output (JObj [(''jsonrpc'', ser_version v), (''id'', JInt (uint i)), (''error'', ser_error e)]) =
    Ok (Failure \<lparr>fa_jsonrpc = Some v, fa_id = i, fa_result = None, fa_error = e\<rparr>)"
  using assms by (simp add: de_output_def de_success_def de_failure_def struct_fields_def de_error_ser mismatch_def)

end
