(* ===== verification/Jsonrpc_Transport.thy ===== *)
theory Jsonrpc_Transport
  imports Jsonrpc_Types
begin

text \<open>
  The transport traits of the JSON-RPC client (\<open>transports/mod.rs\<close>), the HTTP transport
  (\<open>transports/http.rs\<close>) and the \<open>RpcClient\<close> of the API on it (\<open>src/api-client/src/client.rs\<close>).

  An asynchronous method of a trait that awaits \<open>execute\<close> is given by what it does before (the call
  it prepares) and after (what it makes of the response). The exchange over HTTP is a parameter
  \<open>post\<close>: from the URL, the bearer token and the posted tree to the tree of the body or an error of
  \<open>reqwest\<close>. The type that a result is read as is a function \<open>from_value\<close>.
\<close>

type_synonym 'a rpc = "('a, RpcError) result"

type_synonym 's prepare = "'s \<Rightarrow> string \<Rightarrow> Params \<Rightarrow> (u64 \<times> Call) \<times> 's"

definition method_call :: "u64 \<Rightarrow> string \<Rightarrow> Params \<Rightarrow> Call" where
  "method_call i method params =
    MethodCall \<lparr>mc_jsonrpc = Some V2, mc_method = method, mc_params = params, mc_id = i\<rparr>"


subsection \<open>\<open>Transport\<close> and \<open>BatchTransport\<close>\<close>

definition send_finish :: "(json \<Rightarrow> 'a de) \<Rightarrow> Response \<Rightarrow> 'a rpc" where
  "send_finish from_value response =
    (case response of
       Single (Success success) \<Rightarrow> map_err JsonError (from_value (su_result success))
     | Single (Failure failure) \<Rightarrow> Err (RpcResponse (fa_error failure))
     | Batch outputs \<Rightarrow> Panic)"

fun prepare_all :: "'s prepare \<Rightarrow> 's \<Rightarrow> (string \<times> Params) list \<Rightarrow> (u64 \<times> Call) list \<times> 's" where
  "prepare_all prepare s [] = ([], s)"
| "prepare_all prepare s ((method, params) # rest) =
    (let (request, s') = prepare s method params; (requests, s'') = prepare_all prepare s' rest
     in (request # requests, s''))"

text \<open>The identifier and the request that \<open>execute_batch\<close> executes.\<close>

definition batch_request :: "(u64 \<times> Call) list \<Rightarrow> u64 \<times> Request" where
  "batch_request requests =
    (case requests of [] \<Rightarrow> 0 | (i, first) # rest \<Rightarrow> i, BatchRequest (map snd requests))"

definition send_batch_finish :: "Response \<Rightarrow> json rpc list rpc" where
  "send_batch_finish response =
    (case response of
       Single output \<Rightarrow> Panic
     | Batch outputs \<Rightarrow>
         Ok (map (\<lambda>output. case output of
                    Success success \<Rightarrow> Ok (su_result success)
                  | Failure failure \<Rightarrow> Err (RpcResponse (fa_error failure))) outputs))"

fun batch_same_results :: "(json \<Rightarrow> 'a de) \<Rightarrow> ResponseOutput list \<Rightarrow> 'a list rpc" where
  "batch_same_results from_value [] = Ok []"
| "batch_same_results from_value (Success success # values) =
    (case from_value (su_result success) of
       Ok x \<Rightarrow> map_ok ((#) x) (batch_same_results from_value values)
     | _ \<Rightarrow> Panic)"
| "batch_same_results from_value (Failure failure # values) = Err (RpcResponse (fa_error failure))"

definition send_batch_same_finish :: "(json \<Rightarrow> 'a de) \<Rightarrow> Response \<Rightarrow> 'a list rpc" where
  "send_batch_same_finish from_value response =
    (case response of Single output \<Rightarrow> Panic | Batch values \<Rightarrow> batch_same_results from_value values)"


subsection \<open>The HTTP transport\<close>

record HttpTransport =
  ht_id :: u64
  ht_url :: string
  bearer_auth_token :: "string option"

type_synonym http_post = "string \<Rightarrow> string option \<Rightarrow> json \<Rightarrow> (json, string) result"

definition http_new :: "string \<Rightarrow> HttpTransport" where
  "http_new url = \<lparr>ht_id = 0, ht_url = url, bearer_auth_token = None\<rparr>"

definition http_new_with_bearer_auth :: "string \<Rightarrow> string \<Rightarrow> HttpTransport" where
  "http_new_with_bearer_auth url token = \<lparr>ht_id = 0, ht_url = url, bearer_auth_token = Some token\<rparr>"

definition http_prepare :: "HttpTransport prepare" where
  "http_prepare http method params =
    ((ht_id http, method_call (ht_id http) method params), http\<lparr>ht_id := ht_id http + 1\<rparr>)"

definition http_send_request :: "http_post \<Rightarrow> HttpTransport \<Rightarrow> Request \<Rightarrow> Response rpc" where
  "http_send_request post http request =
    map_err HttpError
      (and_then (post (ht_url http) (bearer_auth_token http) (ser_request request)) de_response)"

definition http_send ::
  "http_post \<Rightarrow> (json \<Rightarrow> 'a de) \<Rightarrow> HttpTransport \<Rightarrow> string \<Rightarrow> Params \<Rightarrow> 'a rpc \<times> HttpTransport" where
  "http_send post from_value http method params =
    (let ((i, call), http') = http_prepare http method params
     in (and_then (http_send_request post http' (SingleRequest call)) (send_finish from_value), http'))"

definition http_send_batch ::
  "http_post \<Rightarrow> HttpTransport \<Rightarrow> (string \<times> Params) list \<Rightarrow> json rpc list rpc \<times> HttpTransport" where
  "http_send_batch post http method_and_params =
    (let (requests, http') = prepare_all http_prepare http method_and_params
     in (and_then (http_send_request post http' (snd (batch_request requests))) send_batch_finish, http'))"

definition http_send_batch_same ::
  "http_post \<Rightarrow> (json \<Rightarrow> 'a de) \<Rightarrow> HttpTransport \<Rightarrow> string \<Rightarrow> Params list \<Rightarrow> 'a list rpc \<times> HttpTransport" where
  "http_send_batch_same post from_value http method batch_params =
    (let (requests, http') = prepare_all http_prepare http (map (Pair method) batch_params)
     in (and_then (http_send_request post http' (snd (batch_request requests)))
           (send_batch_same_finish from_value), http'))"

definition http_request ::
  "http_post \<Rightarrow> (json \<Rightarrow> 'a de) \<Rightarrow> HttpTransport \<Rightarrow> string \<Rightarrow> json list \<Rightarrow> 'a rpc \<times> HttpTransport" where
  "http_request post from_value http method params =
    http_send post from_value http (''Filecoin.'' @ method) (ArrayParams params)"

definition http_subscribe :: "HttpTransport \<Rightarrow> string \<Rightarrow> json list \<Rightarrow> u64 rpc" where
  "http_subscribe http method params = Panic"


subsection \<open>What every transport promises of its calls\<close>

locale numbered_calls =
  fixes prepare :: "'s prepare" and next_id :: "'s \<Rightarrow> u64"
  assumes prepare_call: "fst (prepare s m p) = (next_id s, method_call (next_id s) m p)"
    and prepare_next: "next_id (snd (prepare s m p)) = next_id s + 1"
begin

lemma prepare_all_from:
  assumes "next_id s = b + of_nat n"
  shows "fst (prepare_all prepare s mps) =
    map (\<lambda>(k, m, p). (b + of_nat k, method_call (b + of_nat k) m p)) (enumerate n mps)"
  using assms
proof (induction mps arbitrary: s n)
  case (Cons mp mps)
  obtain m p where mp: "mp = (m, p)" by (cases mp)
  have "next_id (snd (prepare s m p)) = b + of_nat (Suc n)"
    using Cons.prems by (simp add: prepare_next)
  then show ?case
    using Cons.IH [of "snd (prepare s m p)" "Suc n"] prepare_call [of s m p] Cons.prems
    by (simp add: mp split_def Let_def)
qed simp

lemma prepare_all_calls:
  "fst (prepare_all prepare s mps) =
    map (\<lambda>(k, m, p). (next_id s + of_nat k, method_call (next_id s + of_nat k) m p)) (enumerate 0 mps)"
  by (rule prepare_all_from) simp

lemma prepare_all_length: "length (fst (prepare_all prepare s mps)) = length mps"
  by (simp add: prepare_all_calls)

text \<open>The identifiers of a batch are consecutive, and distinct below \<open>2 ^ 64\<close> calls.\<close>

lemma prepare_all_ids:
  "map fst (fst (prepare_all prepare s mps)) = map (\<lambda>k. next_id s + of_nat k) [0..<length mps]"
  by (rule nth_equalityI) (simp_all add: prepare_all_calls nth_enumerate_eq split_def)

lemma prepare_all_distinct:
  assumes "length mps \<le> 2 ^ 64"
  shows "distinct (map fst (fst (prepare_all prepare s mps)))"
proof -
  have "inj_on (\<lambda>k. next_id s + (of_nat k :: u64)) {0..<length mps}"
    using assms by (intro inj_onI) (simp add: word_of_nat_eq_iff take_bit_nat_eq_self)
  then show ?thesis by (simp add: prepare_all_ids distinct_map)
qed

lemma prepare_all_next: "next_id (snd (prepare_all prepare s mps)) = next_id s + of_nat (length mps)"
  by (induction mps arbitrary: s) (auto simp: split_def Let_def prepare_next add_ac)

end

interpretation http: numbered_calls http_prepare ht_id
  by unfold_locales (simp_all add: http_prepare_def)


subsection \<open>Properties\<close>

lemma de_response_success:
  "pred_option error_ok (su_error s) \<Longrightarrow> de_response (ser_output (Success s)) = Ok (Single (Success s))"
  by (simp add: de_response_def de_output_success del: ser_output.simps)

lemma de_response_failure:
  "error_ok (fa_error f) \<Longrightarrow> de_response (ser_output (Failure f)) =
    Ok (Single (Success \<lparr>su_jsonrpc = fa_jsonrpc f, su_id = fa_id f, su_result = ser_opt id (fa_result f),
                         su_error = Some (fa_error f)\<rparr>))"
  by (simp add: de_response_def de_output_failure del: ser_output.simps)

text \<open>What the client makes of an output that its own types write.\<close>

definition as_read :: "ResponseOutput \<Rightarrow> ResponseOutput" where
  "as_read out =
    (case out of
       Success s \<Rightarrow> out
     | Failure f \<Rightarrow> Success \<lparr>su_jsonrpc = fa_jsonrpc f, su_id = fa_id f, su_result = ser_opt id (fa_result f),
                                su_error = Some (fa_error f)\<rparr>)"

primrec output_ok :: "ResponseOutput \<Rightarrow> bool" where
  "output_ok (Success s) \<longleftrightarrow> pred_option error_ok (su_error s)"
| "output_ok (Failure f) \<longleftrightarrow> error_ok (fa_error f)"

lemma de_output_as_read: "output_ok out \<Longrightarrow> de_output (ser_output out) = Ok (as_read out)"
  by (cases out) (simp_all add: as_read_def de_output_success de_output_failure del: ser_output.simps)

lemma de_outputs_as_read:
  "list_all output_ok outs \<Longrightarrow> de_list de_output (map ser_output outs) = Ok (map as_read outs)"
  by (induction outs) (simp_all add: de_output_as_read)

lemma ser_output_obj: "\<exists>es. ser_output out = JObj es"
  by (cases out) auto

lemma de_output_array: "de_output (JArr (map ser_output outs)) = mismatch"
proof (cases outs)
  case Nil
  then show ?thesis by (simp add: de_output_def de_success_def de_failure_def struct_fields_def mismatch_def)
next
  case (Cons out outs')
  obtain es where "ser_output out = JObj es" using ser_output_obj by blast
  then show ?thesis using Cons
    by (simp add: de_output_def de_success_def de_failure_def struct_fields_def mismatch_def de_version_def)
qed

lemma de_response_batch:
  "list_all output_ok outs \<Longrightarrow> de_response (JArr (map ser_output outs)) = Ok (Batch (map as_read outs))"
  by (simp add: de_response_def de_output_array de_outputs_as_read) (simp add: mismatch_def)

lemmas http_defs = http_request_def http_send_def http_prepare_def http_send_request_def

text \<open>
  C15: A request over HTTP. It posts one object under the transport's next identifier, with the method
  under its \<open>Filecoin.\<close> name, to the transport's URL and with its token. When the server answers with
  a result, the client gets that result, read as the type it expects, and an error of the connection
  is returned. When the server answers with an error as the client's own \<open>FailureResponse\<close> is
  written, which has the field \<open>result: null\<close>, the client reads it as a success: it does not see the
  error but gets what \<open>null\<close> reads as. A failure without the field \<open>result\<close> is read as the error.
\<close>
theorem http_request_outcome:
  fixes post :: http_post and from_value :: "json \<Rightarrow> 'a de"
  assumes "post (ht_url http) (bearer_auth_token http)
    (JObj [(''jsonrpc'', JStr ''2.0''), (''method'', JStr (''Filecoin.'' @ method)), (''params'', JArr params),
           (''id'', JInt (uint (ht_id http)))]) = reply"
    and "error_ok e"
  shows "snd (http_request post from_value http method params) = http\<lparr>ht_id := ht_id http + 1\<rparr>
    \<and> (reply = Ok (ser_output (output_from (Some V2) (ht_id http) (Inr value)))
        \<longrightarrow> fst (http_request post from_value http method params) = map_err JsonError (from_value value))
    \<and> (reply = Err s \<longrightarrow> fst (http_request post from_value http method params) = Err (HttpError s))
    \<and> (reply = Ok (ser_output (output_from (Some V2) (ht_id http) (Inl e)))
        \<longrightarrow> fst (http_request post from_value http method params) = map_err JsonError (from_value JNull))
    \<and> (reply = Ok (JObj [(''jsonrpc'', ser_version V2), (''id'', JInt (uint (ht_id http))), (''error'', ser_error e)])
        \<longrightarrow> fst (http_request post from_value http method params) = Err (RpcResponse e))"
proof -
  have request: "ser_request (SingleRequest (method_call (ht_id http) (''Filecoin.'' @ method) (ArrayParams params))) =
      JObj [(''jsonrpc'', JStr ''2.0''), (''method'', JStr (''Filecoin.'' @ method)), (''params'', JArr params),
            (''id'', JInt (uint (ht_id http)))]"
    by (simp add: method_call_def ser_opt_def ser_version_def params_value_def)
  have run: "fst (http_request post from_value http method params) =
      and_then (map_err HttpError (and_then reply de_response)) (send_finish from_value)"
    using assms(1) request by (simp add: http_defs del: ser_request.simps)
  have later: "snd (http_request post from_value http method params) = http\<lparr>ht_id := ht_id http + 1\<rparr>"
    by (simp add: http_defs)
  have "de_response (JObj [(''jsonrpc'', ser_version V2), (''id'', JInt (uint (ht_id http))), (''error'', ser_error e)])
      = Ok (Single (Failure \<lparr>fa_jsonrpc = Some V2, fa_id = ht_id http, fa_result = None, fa_error = e\<rparr>))"
    using assms(2) by (simp add: de_response_def de_output_no_result)
  then show ?thesis
    using assms(2)
    by (simp add: run later output_from_def de_response_success de_response_failure send_finish_def ser_opt_def
          del: ser_output.simps)
qed

theorem http_request_outcome_witness:
  "fst (http_request (\<lambda>url token body. Ok (ser_output (output_from (Some V2) 0 (Inl (error_new MethodNotFound)))))
      Ok (http_new ''u'') ''Version'' []) = Ok JNull"
  using http_request_outcome
    [of "\<lambda>url token body. Ok (ser_output (output_from (Some V2) 0 (Inl (error_new MethodNotFound))))"
        "http_new ''u''" "''Version''" "[]" "Ok (ser_output (output_from (Some V2) 0 (Inl (error_new MethodNotFound))))"
        "error_new MethodNotFound" Ok JNull "''refused''"]
  by (simp add: http_new_def error_ok_def error_new_def error_code_from_def)

text \<open>
  A batch over HTTP carries the identifiers that follow the transport's, and its results are those
  of the outputs in the order in which the server sent them.
\<close>

lemma http_batch_outcome:
  assumes "list_all output_ok outs" and "post (ht_url http) (bearer_auth_token http)
      (JArr (map (ser_call \<circ> snd) (fst (prepare_all http_prepare http mps)))) = Ok (JArr (map ser_output outs))"
  shows "fst (http_send_batch post http mps) =
      Ok (map (\<lambda>out. Ok (case out of Success s \<Rightarrow> su_result s | Failure f \<Rightarrow> ser_opt id (fa_result f))) outs)"
proof -
  have same: "ht_url (snd (prepare_all http_prepare http mps)) = ht_url http
      \<and> bearer_auth_token (snd (prepare_all http_prepare http mps)) = bearer_auth_token http"
    by (induction mps arbitrary: http) (auto simp: http_prepare_def split_def Let_def)
  show ?thesis
    using assms
    by (auto simp: http_send_batch_def http_send_request_def batch_request_def same split_def
        de_response_batch send_batch_finish_def as_read_def split: ResponseOutput.splits)
qed

end
