(* ===== verification/Jsonrpc_Ws.thy ===== *)
theory Jsonrpc_Ws
  imports Jsonrpc_Transport
begin

text \<open>
  The WebSocket transport (\<open>transports/ws.rs\<close>): callers register a channel under the identifier of
  their request and wait; a task reads the connection, hands each response to the caller registered
  under its identifier and each notification to the stream of its subscription.

  A caller is the number of its \<open>send_request\<close>, a stream the number of its \<open>subscribe\<close>. The state
  lists what has been put on the connection, what each caller and each stream has received, and the
  callers whose channel has been dropped unanswered, whose \<open>rx.await.unwrap()\<close> panics. A text
  message is the tree that \<open>serde_json\<close> reads it as, or its syntax error. The tasks of the program
  interleave: \<open>ws_ready\<close> holds the calls that they have prepared and not yet executed.
\<close>

datatype Message =
    Text "json de" | Binary bytes | Close "(nat \<times> string) option" | Ping bytes | Pong bytes

record WebSocketTransport =
  ws_id :: u64
  ws_url :: string
  ws_bearer_auth_token :: "string option"
  ws_pendings :: "u64 \<rightharpoonup> nat"
  ws_subscriptions :: "u64 \<rightharpoonup> nat"
  ws_sent :: "Message list"
  ws_ready :: "(u64 \<times> Call) list"
  ws_calls :: "(u64 \<times> Request) list"
  ws_delivered :: "(nat \<times> Response rpc) list"
  ws_cancelled :: "nat list"
  ws_streams :: nat
  ws_streamed :: "(nat \<times> json) list"
  ws_dropped :: "nat list"
  ws_running :: bool

definition ws_new :: "string \<Rightarrow> WebSocketTransport" where
  "ws_new url =
    \<lparr>ws_id = 1, ws_url = url, ws_bearer_auth_token = None, ws_pendings = Map.empty,
     ws_subscriptions = Map.empty, ws_sent = [], ws_ready = [], ws_calls = [], ws_delivered = [],
     ws_cancelled = [], ws_streams = 0, ws_streamed = [], ws_dropped = [], ws_running = True\<rparr>"

definition ws_new_with_bearer_auth :: "string \<Rightarrow> string \<Rightarrow> WebSocketTransport" where
  "ws_new_with_bearer_auth url token = (ws_new url)\<lparr>ws_bearer_auth_token := Some token\<rparr>"


subsection \<open>Sending\<close>

definition ws_prepare :: "WebSocketTransport prepare" where
  "ws_prepare ws method params =
    ((ws_id ws, method_call (ws_id ws) method params), ws\<lparr>ws_id := ws_id ws + 1\<rparr>)"

text \<open>
  Inserting a sender under an identifier that is taken drops the other one. The caller that waits is
  returned; when the task of the connection has ended, \<open>unbounded_send\<close> fails and the caller panics.
\<close>

definition ws_send_request ::
  "WebSocketTransport \<Rightarrow> u64 \<Rightarrow> Request \<Rightarrow> nat rpc \<times> WebSocketTransport" where
  "ws_send_request ws i request =
    (let caller = length (ws_calls ws);
         ws' = ws\<lparr>ws_calls := ws_calls ws @ [(i, request)],
                  ws_cancelled := ws_cancelled ws @ (case ws_pendings ws i of Some c \<Rightarrow> [c] | None \<Rightarrow> []),
                  ws_pendings := (ws_pendings ws)(i \<mapsto> caller)\<rparr>
     in if ws_running ws
        then (Ok caller, ws'\<lparr>ws_sent := ws_sent ws @ [Text (Ok (ser_request request))]\<rparr>)
        else (Panic, ws'))"

definition ws_request :: "WebSocketTransport \<Rightarrow> string \<Rightarrow> json list \<Rightarrow> nat rpc \<times> WebSocketTransport" where
  "ws_request ws method params =
    (let ((i, call), ws') = ws_prepare ws (''Filecoin.'' @ method) (ArrayParams params)
     in ws_send_request ws' i (SingleRequest call))"


subsection \<open>Subscriptions\<close>

definition ws_subscribe :: "WebSocketTransport \<Rightarrow> u64 \<Rightarrow> nat \<times> WebSocketTransport" where
  "ws_subscribe ws i =
    (ws_streams ws,
     ws\<lparr>ws_subscriptions := (ws_subscriptions ws)(i \<mapsto> ws_streams ws), ws_streams := ws_streams ws + 1\<rparr>)"

definition ws_unsubscribe :: "WebSocketTransport \<Rightarrow> u64 \<Rightarrow> WebSocketTransport" where
  "ws_unsubscribe ws i = ws\<lparr>ws_subscriptions := (ws_subscriptions ws)(i := None)\<rparr>"

text \<open>\<open>RpcClient::subscribe\<close> after the response to its request: the identifier and the stream.\<close>

definition ws_subscribe_finish ::
  "WebSocketTransport \<Rightarrow> Response \<Rightarrow> (u64 \<times> nat) rpc \<times> WebSocketTransport" where
  "ws_subscribe_finish ws response =
    (case send_finish de_u64 response of
       Ok i \<Rightarrow> (let (stream, ws') = ws_subscribe ws i in (Ok (i, stream), ws'))
     | Err e \<Rightarrow> (Err e, ws)
     | Panic \<Rightarrow> (Panic, ws))"


subsection \<open>Receiving\<close>

fun is_number :: "json \<Rightarrow> bool" where
  "is_number (JInt i) = True"
| "is_number (JFloat f) = True"
| "is_number j = False"

fun as_u64 :: "json \<Rightarrow> u64 option" where
  "as_u64 (JInt i) = (if 0 \<le> i \<and> i < 2 ^ 64 then Some (word_of_int i) else None)"
| "as_u64 j = None"

definition handle_subscription :: "WebSocketTransport \<Rightarrow> json de \<Rightarrow> (WebSocketTransport, string) result" where
  "handle_subscription ws msg =
    (case and_then msg de_notification of
       Ok notification \<Rightarrow>
         (case nt_params notification of
            ArrayParams (i # res # rest) \<Rightarrow>
              if is_number i then
                (case as_u64 i of
                   None \<Rightarrow> Panic
                 | Some i \<Rightarrow>
                     (case ws_subscriptions ws i of
                        Some stream \<Rightarrow>
                          if stream \<in> set (ws_dropped ws) then Panic
                          else Ok (ws\<lparr>ws_streamed := ws_streamed ws @ [(stream, res)]\<rparr>)
                      | None \<Rightarrow> Ok ws))
              else Ok ws
          | _ \<Rightarrow> Ok ws)
     | _ \<Rightarrow> Ok ws)"

definition response_id :: "Response rpc \<Rightarrow> u64" where
  "response_id response =
    (case response of
       Ok (Single output) \<Rightarrow> output_id output
     | Ok (Batch outputs) \<Rightarrow> (case outputs of [] \<Rightarrow> 0 | output # rest \<Rightarrow> output_id output)
     | _ \<Rightarrow> 0)"

definition handle_pending_response :: "WebSocketTransport \<Rightarrow> json de \<Rightarrow> WebSocketTransport" where
  "handle_pending_response ws msg =
    (let response = map_err JsonError (and_then msg de_response); i = response_id response
     in case ws_pendings ws i of
          Some caller \<Rightarrow>
            ws\<lparr>ws_pendings := (ws_pendings ws)(i := None), ws_delivered := ws_delivered ws @ [(caller, response)]\<rparr>
        | None \<Rightarrow> ws)"

definition handle_incoming_msg :: "WebSocketTransport \<Rightarrow> Message \<Rightarrow> (WebSocketTransport, string) result" where
  "handle_incoming_msg ws msg =
    (case msg of
       Text t \<Rightarrow> map_ok (\<lambda>ws. handle_pending_response ws t) (handle_subscription ws t)
     | Binary b \<Rightarrow> Ok ws
     | Close f \<Rightarrow> Ok (ws\<lparr>ws_sent := ws_sent ws @ [Close f]\<rparr>)
     | Ping b \<Rightarrow> Ok (ws\<lparr>ws_sent := ws_sent ws @ [Pong b]\<rparr>)
     | Pong b \<Rightarrow> Ok ws)"

text \<open>The task of the connection on one message: a panic ends it, and an error of the stream is logged.\<close>

definition ws_receive :: "WebSocketTransport \<Rightarrow> (Message, string) result \<Rightarrow> WebSocketTransport" where
  "ws_receive ws msg =
    (if ws_running ws then
       (case msg of
          Ok m \<Rightarrow> (case handle_incoming_msg ws m of Ok ws' \<Rightarrow> ws' | _ \<Rightarrow> ws\<lparr>ws_running := False\<rparr>)
        | _ \<Rightarrow> ws)
     else ws)"


subsection \<open>Runs\<close>

text \<open>
  \<open>ws_steps n ws ws'\<close>: from \<open>ws\<close> to \<open>ws'\<close> with \<open>n\<close> calls prepared. The connection may end at any
  time, and the program may drop any of its streams.
\<close>

inductive ws_steps :: "nat \<Rightarrow> WebSocketTransport \<Rightarrow> WebSocketTransport \<Rightarrow> bool" where
  start: "ws_steps 0 ws ws"
| prepare: "ws_steps n ws0 ws \<Longrightarrow> ws_prepare ws m p = (r, ws')
    \<Longrightarrow> ws_steps (Suc n) ws0 (ws'\<lparr>ws_ready := ws_ready ws' @ [r]\<rparr>)"
| single: "ws_steps n ws0 ws \<Longrightarrow> (i, call) \<in> set (ws_ready ws)
    \<Longrightarrow> ws_steps n ws0
          (snd (ws_send_request (ws\<lparr>ws_ready := remove1 (i, call) (ws_ready ws)\<rparr>) i (SingleRequest call)))"
| batch: "ws_steps n ws0 ws \<Longrightarrow> set rs \<subseteq> set (ws_ready ws) \<Longrightarrow> batch_request rs = (i, request)
    \<Longrightarrow> ws_steps n ws0
          (snd (ws_send_request (ws\<lparr>ws_ready := filter (\<lambda>r. r \<notin> set rs) (ws_ready ws)\<rparr>) i request))"
| receive: "ws_steps n ws0 ws \<Longrightarrow> ws_steps n ws0 (ws_receive ws msg)"
| subscribe: "ws_steps n ws0 ws \<Longrightarrow> ws_steps n ws0 (snd (ws_subscribe ws i))"
| unsubscribe: "ws_steps n ws0 ws \<Longrightarrow> ws_steps n ws0 (ws_unsubscribe ws i)"
| drop_stream: "ws_steps n ws0 ws \<Longrightarrow> s < ws_streams ws \<Longrightarrow> ws_steps n ws0 (ws\<lparr>ws_dropped := s # ws_dropped ws\<rparr>)"
| stop: "ws_steps n ws0 ws \<Longrightarrow> ws_steps n ws0 (ws\<lparr>ws_running := False\<rparr>)"

interpretation ws: numbered_calls ws_prepare ws_id
  by unfold_locales (simp_all add: ws_prepare_def)

lemma handle_subscription_three:
  "handle_subscription ws msg = Panic \<or> handle_subscription ws msg = Ok ws \<or>
   (\<exists>v. handle_subscription ws msg = Ok (ws\<lparr>ws_streamed := ws_streamed ws @ [v]\<rparr>))"
  by (simp add: handle_subscription_def split: result.split Params.split list.split option.split) blast

lemma handle_subscription_result:
  "handle_subscription ws msg = Panic \<or> (\<exists>b. handle_subscription ws msg = Ok (ws\<lparr>ws_streamed := b\<rparr>))"
proof -
  have "ws\<lparr>ws_streamed := ws_streamed ws\<rparr> = ws" by simp
  then show ?thesis using handle_subscription_three [of ws msg] by metis
qed

lemma handle_pending_result:
  "handle_pending_response ws msg = ws \<or>
   (\<exists>c r. ws_pendings ws (response_id r) = Some c \<and> handle_pending_response ws msg =
      ws\<lparr>ws_pendings := (ws_pendings ws)(response_id r := None), ws_delivered := ws_delivered ws @ [(c, r)]\<rparr>)"
  by (auto simp: handle_pending_response_def Let_def split: option.split)

text \<open>What a received message does: it answers no caller, or the one registered under its identifier.\<close>

lemma ws_receive_cases:
  obtains (other) a b d where "ws_receive ws msg = ws\<lparr>ws_sent := a, ws_streamed := b, ws_running := d\<rparr>"
      "d \<longrightarrow> ws_running ws"
  | (answer) b c r where "ws_pendings ws (response_id r) = Some c" "ws_running ws"
      "ws_receive ws msg = ws\<lparr>ws_streamed := b, ws_pendings := (ws_pendings ws)(response_id r := None),
                              ws_delivered := ws_delivered ws @ [(c, r)]\<rparr>"
proof (cases "ws_running ws \<and> (\<exists>t. msg = Ok (Text t))")
  case True
  then obtain t where t: "ws_running ws" "msg = Ok (Text t)" by blast
  from handle_subscription_result [of ws t] show thesis
  proof
    assume "handle_subscription ws t = Panic"
    then have "ws_receive ws msg = ws\<lparr>ws_sent := ws_sent ws, ws_streamed := ws_streamed ws, ws_running := False\<rparr>"
      using t by (simp add: ws_receive_def handle_incoming_msg_def)
    then show thesis by (rule other) simp
  next
    assume "\<exists>b. handle_subscription ws t = Ok (ws\<lparr>ws_streamed := b\<rparr>)"
    then obtain b where "handle_subscription ws t = Ok (ws\<lparr>ws_streamed := b\<rparr>)" by blast
    then have rcv: "ws_receive ws msg = handle_pending_response (ws\<lparr>ws_streamed := b\<rparr>) t"
      using t by (simp add: ws_receive_def handle_incoming_msg_def)
    from handle_pending_result [of "ws\<lparr>ws_streamed := b\<rparr>" t] show thesis
    proof
      assume "handle_pending_response (ws\<lparr>ws_streamed := b\<rparr>) t = ws\<lparr>ws_streamed := b\<rparr>"
      then show thesis using rcv t by (intro other [where a = "ws_sent ws" and b = b and d = True]) simp_all
    next
      assume "\<exists>c r. ws_pendings (ws\<lparr>ws_streamed := b\<rparr>) (response_id r) = Some c \<and>
        handle_pending_response (ws\<lparr>ws_streamed := b\<rparr>) t = (ws\<lparr>ws_streamed := b\<rparr>)
          \<lparr>ws_pendings := (ws_pendings (ws\<lparr>ws_streamed := b\<rparr>))(response_id r := None),
           ws_delivered := ws_delivered (ws\<lparr>ws_streamed := b\<rparr>) @ [(c, r)]\<rparr>"
      then show thesis using rcv t by (auto intro: answer)
    qed
  qed
next
  case False
  then have "\<exists>a. ws_receive ws msg = ws\<lparr>ws_sent := a, ws_streamed := ws_streamed ws, ws_running := ws_running ws\<rparr>"
    by (cases msg) (auto simp: ws_receive_def handle_incoming_msg_def intro: exI [of _ "ws_sent ws"] split: Message.splits)
  then show thesis using other by blast
qed


subsection \<open>Every caller is accounted for\<close>

definition ws_resolved :: "WebSocketTransport \<Rightarrow> nat list" where
  "ws_resolved ws = map fst (ws_delivered ws) @ ws_cancelled ws"

definition ws_ok :: "WebSocketTransport \<Rightarrow> bool" where
  "ws_ok ws \<longleftrightarrow>
    distinct (ws_resolved ws) \<and> (\<forall>c \<in> set (ws_resolved ws). c < length (ws_calls ws)) \<and>
    (\<forall>i c. ws_pendings ws i = Some c \<longleftrightarrow>
       c < length (ws_calls ws) \<and> fst (ws_calls ws ! c) = i \<and> c \<notin> set (ws_resolved ws)) \<and>
    (\<forall>(c, r) \<in> set (ws_delivered ws). response_id r = fst (ws_calls ws ! c))"

lemma ws_ok_new: "ws_ok (ws_new url)"
  by (simp add: ws_ok_def ws_new_def ws_resolved_def)

lemma ws_ok_pending:
  "ws_ok ws \<Longrightarrow> ws_pendings ws i = Some c \<longleftrightarrow>
     c < length (ws_calls ws) \<and> fst (ws_calls ws ! c) = i \<and> c \<notin> set (ws_resolved ws)"
  by (simp add: ws_ok_def)

lemma ws_okD:
  assumes "ws_ok ws"
  shows "distinct (ws_resolved ws)" "c \<in> set (ws_resolved ws) \<Longrightarrow> c < length (ws_calls ws)"
    "(c, r) \<in> set (ws_delivered ws) \<Longrightarrow> response_id r = fst (ws_calls ws ! c)"
  using assms unfolding ws_ok_def by blast+

lemma ws_ok_answer:
  assumes ok: "ws_ok ws" and c: "ws_pendings ws (response_id r) = Some c"
    and pend: "ws_pendings ws' = (ws_pendings ws)(response_id r := None)"
    and deliv: "ws_delivered ws' = ws_delivered ws @ [(c, r)]"
    and same: "ws_calls ws' = ws_calls ws" "ws_cancelled ws' = ws_cancelled ws"
  shows "ws_ok ws'"
proof -
  note P = ws_ok_pending [OF ok]
  have cc: "c < length (ws_calls ws)" "fst (ws_calls ws ! c) = response_id r" "c \<notin> set (ws_resolved ws)"
    using c by (simp_all add: P)
  have res: "set (ws_resolved ws') = insert c (set (ws_resolved ws))"
    and "distinct (ws_resolved ws') = (distinct (ws_resolved ws) \<and> c \<notin> set (ws_resolved ws))"
    by (auto simp: ws_resolved_def deliv same)
  moreover have "ws_pendings ws' i = Some d \<longleftrightarrow>
      d < length (ws_calls ws') \<and> fst (ws_calls ws' ! d) = i \<and> d \<notin> set (ws_resolved ws')" for i d
    using P [of i d] c cc P [of "response_id r" d] by (auto simp: pend same res)
  ultimately show ?thesis
    using ok cc by (auto simp: ws_ok_def deliv same)
qed

lemma ws_ok_register:
  assumes ok: "ws_ok ws"
    and pend: "ws_pendings ws' = (ws_pendings ws)(i \<mapsto> length (ws_calls ws))"
    and canc: "ws_cancelled ws' = ws_cancelled ws @ (case ws_pendings ws i of Some c \<Rightarrow> [c] | None \<Rightarrow> [])"
    and same: "ws_calls ws' = ws_calls ws @ [(i, request)]" "ws_delivered ws' = ws_delivered ws"
  shows "ws_ok ws'"
proof -
  define old where "old = (case ws_pendings ws i of Some c \<Rightarrow> [c] | None \<Rightarrow> [])"
  have new: "ws_resolved ws' = ws_resolved ws @ old" by (simp add: ws_resolved_def canc same old_def)
  have old: "c \<in> set old \<longleftrightarrow> ws_pendings ws i = Some c" "distinct old" for c
    by (auto simp: old_def split: option.split)
  note P = ws_ok_pending [OF ok] and lt = ws_okD(2) [OF ok]
  have "distinct (ws_resolved ws')" using ws_okD(1) [OF ok] old P [of i] by (simp add: new disjoint_iff)
  moreover have "\<forall>c \<in> set (ws_resolved ws'). c < length (ws_calls ws')"
    using lt old(1) P [of i] by (simp add: new same less_Suc_eq ball_Un)
  moreover have "ws_pendings ws' j = Some d \<longleftrightarrow>
      d < length (ws_calls ws') \<and> fst (ws_calls ws' ! d) = j \<and> d \<notin> set (ws_resolved ws')" for j d
  proof (cases "d = length (ws_calls ws)")
    case True
    then have "d \<notin> set (ws_resolved ws')" "ws_pendings ws j \<noteq> Some d"
      using lt [of d] old(1) [of d] P [of i d] P [of j d] by (auto simp: new)
    then show ?thesis using True by (auto simp: pend same)
  next
    case False
    then show ?thesis
      using old(1) [of d] P [of i d] P [of j d] by (simp add: pend same new nth_append less_Suc_eq) blast
  qed
  moreover have "response_id r = fst (ws_calls ws' ! c)" if "(c, r) \<in> set (ws_delivered ws')" for c r
  proof -
    have "c \<in> set (ws_resolved ws)" using that by (force simp: same ws_resolved_def)
    then show ?thesis using that ws_okD(3) [OF ok] lt [of c] by (simp add: same nth_append)
  qed
  ultimately show ?thesis unfolding ws_ok_def by blast
qed

lemma ws_ok_update [simp]:
  "ws_ok (ws\<lparr>ws_id := i\<rparr>) = ws_ok ws" "ws_ok (ws\<lparr>ws_ready := rs\<rparr>) = ws_ok ws"
  "ws_ok (ws\<lparr>ws_sent := ms\<rparr>) = ws_ok ws" "ws_ok (ws\<lparr>ws_streamed := vs\<rparr>) = ws_ok ws"
  "ws_ok (ws\<lparr>ws_streams := k\<rparr>) = ws_ok ws" "ws_ok (ws\<lparr>ws_subscriptions := m\<rparr>) = ws_ok ws"
  "ws_ok (ws\<lparr>ws_dropped := ds\<rparr>) = ws_ok ws" "ws_ok (ws\<lparr>ws_running := b\<rparr>) = ws_ok ws"
  "ws_ok (ws\<lparr>ws_bearer_auth_token := t\<rparr>) = ws_ok ws"
  by (simp_all add: ws_ok_def ws_resolved_def)

lemma ws_ok_send_request: "ws_ok ws \<Longrightarrow> ws_ok (snd (ws_send_request ws i request))"
  by (rule ws_ok_register [of ws _ i request]) (simp_all add: ws_send_request_def Let_def)

lemma ws_ok_receive:
  assumes "ws_ok ws"
  shows "ws_ok (ws_receive ws msg)"
proof (cases rule: ws_receive_cases [of ws msg])
  case (other a b d)
  then show ?thesis using assms by (simp only: other(1) ws_ok_update)
next
  case (answer b c r)
  show ?thesis by (rule ws_ok_answer [OF assms answer(1)]) (simp_all only: answer(3), simp_all)
qed

lemma ws_steps_ok: "ws_steps n ws0 ws \<Longrightarrow> ws_ok ws0 \<Longrightarrow> ws_ok ws"
  by (induction rule: ws_steps.induct)
    (auto simp: ws_prepare_def ws_subscribe_def ws_unsubscribe_def ws_ok_send_request ws_ok_receive)

end
