(* ===== verification/Jsonrpc_Ws_Runs.thy ===== *)
theory Jsonrpc_Ws_Runs
  imports Jsonrpc_Ws
begin

text \<open>
  Runs of the WebSocket transport: identifiers are not reused before they wrap around, no response
  reaches another caller than the one it is for, and what a dropped stream does to the connection.
\<close>


subsection \<open>Identifiers are not reused before they wrap around\<close>

definition ws_used :: "WebSocketTransport \<Rightarrow> u64 list" where
  "ws_used ws = map fst (ws_ready ws) @ filter (\<lambda>i. i \<noteq> 0) (map fst (ws_calls ws))"

definition ws_fresh :: "nat \<Rightarrow> WebSocketTransport \<Rightarrow> bool" where
  "ws_fresh n ws \<longleftrightarrow> ws_id ws = 1 + of_nat n \<and> distinct (ws_used ws)
    \<and> (\<forall>i \<in> set (ws_used ws). 0 < unat i \<and> unat i \<le> n)
    \<and> (\<forall>call \<in> set (ws_calls ws). fst call = 0 \<longrightarrow> snd call = BatchRequest [])
    \<and> (\<forall>c \<in> set (ws_cancelled ws). fst (ws_calls ws ! c) = 0)"

lemma ws_fresh_new: "ws_fresh 0 (ws_new url)"
  by (simp add: ws_fresh_def ws_used_def ws_new_def)

lemma distinct_middle: "distinct (xs @ x # ys) \<longleftrightarrow> distinct (xs @ ys) \<and> x \<notin> set (xs @ ys)"
  by auto

lemma ws_fresh_prepare:
  assumes fresh: "ws_fresh n ws" and n: "Suc n < 2 ^ 64" and prep: "ws_prepare ws m p = (r, ws')"
  shows "ws_fresh (Suc n) (ws'\<lparr>ws_ready := ws_ready ws' @ [r]\<rparr>)" (is "ws_fresh _ ?ws")
proof -
  have id: "ws_id ws = of_nat (Suc n)" "unat (ws_id ws) = Suc n"
    using fresh n by (simp_all add: ws_fresh_def unat_of_nat flip: of_nat_Suc)
  have used: "ws_used ?ws = map fst (ws_ready ws) @ ws_id ws # filter (\<lambda>i. i \<noteq> 0) (map fst (ws_calls ws))"
    using prep by (auto simp: ws_prepare_def ws_used_def)
  have set: "set (ws_used ?ws) = insert (ws_id ws) (set (ws_used ws))"
    unfolding used by (simp add: ws_used_def)
  have dist: "distinct (ws_used ?ws) \<longleftrightarrow> distinct (ws_used ws) \<and> ws_id ws \<notin> set (ws_used ws)"
    unfolding used unfolding ws_used_def by (rule distinct_middle)
  have ws': "ws_id ?ws = of_nat (Suc (Suc n))" "ws_calls ?ws = ws_calls ws" "ws_cancelled ?ws = ws_cancelled ws"
    using prep id(1) by (simp_all add: ws_prepare_def) auto
  have bound: "0 < unat i \<and> unat i \<le> n" if "i \<in> set (ws_used ws)" for i
    using that fresh by (simp add: ws_fresh_def)
  then have "ws_id ws \<notin> set (ws_used ws)" using id(2) by force
  moreover have "\<forall>i \<in> set (ws_used ?ws). 0 < unat i \<and> unat i \<le> Suc n"
    using bound id(2) by (auto simp: set le_SucI)
  ultimately show ?thesis
    using fresh unfolding ws_fresh_def ws' dist by (simp only: of_nat_Suc add.commute) blast
qed

text \<open>A request takes its identifier from the calls that are ready, or is an empty batch under 0.\<close>

lemma ws_fresh_send:
  assumes fresh: "ws_fresh n ws" and ok: "ws_ok ws"
    and ready: "distinct (map fst rs)" "set rs \<subseteq> set (ws_ready ws)"
    and i: "i = 0 \<and> request = BatchRequest [] \<or> i \<in> fst ` set (ws_ready ws) - fst ` set rs"
  shows "ws_fresh n (snd (ws_send_request (ws\<lparr>ws_ready := rs\<rparr>) i request))" (is "ws_fresh n ?ws")
proof -
  have used: "set (ws_used ws) = fst ` set (ws_ready ws) \<union> (fst ` set (ws_calls ws) - {0})"
    by (auto simp: ws_used_def)
  have bound: "0 < unat i \<and> unat i \<le> n" if "i \<in> set (ws_used ws)" for i
    using that fresh by (simp add: ws_fresh_def)
  have apart: "i \<notin> fst ` set (ws_calls ws)" if "i \<noteq> 0"
    using i that fresh by (auto simp: ws_fresh_def ws_used_def)
  have calls: "ws_calls ?ws = ws_calls ws @ [(i, request)]" "ws_ready ?ws = rs" "ws_id ?ws = ws_id ws"
    by (simp_all add: ws_send_request_def Let_def)
  have dist: "distinct (map fst (ws_ready ws))" "distinct (filter (\<lambda>i. i \<noteq> 0) (map fst (ws_calls ws)))"
      "fst ` set (ws_ready ws) \<inter> (fst ` set (ws_calls ws) - {0}) = {}"
    using fresh by (auto simp: ws_fresh_def ws_used_def)
  have sub: "fst ` set rs \<subseteq> fst ` set (ws_ready ws)" using ready(2) by auto
  have "distinct (ws_used ?ws)"
  proof (cases "i = 0")
    case True
    have "fst ` set rs \<inter> {j \<in> fst ` set (ws_calls ws). j \<noteq> 0} = {}" using dist(3) sub by blast
    then show ?thesis unfolding ws_used_def calls using True dist(2) ready(1) by simp
  next
    case False
    then have "i \<notin> fst ` set rs" using i by blast
    then show ?thesis using False dist(2,3) ready(1) sub apart by (simp add: ws_used_def calls) blast
  qed
  moreover have "\<forall>j \<in> set (ws_used ?ws). 0 < unat j \<and> unat j \<le> n"
    using bound i ready by (auto simp: ws_used_def calls used unat_gt_0)
  moreover have "fst (ws_calls ?ws ! c) = 0" if "c \<in> set (ws_cancelled ?ws)" for c
  proof (cases "ws_pendings ws i = Some c")
    case True
    then have "c < length (ws_calls ws)" "fst (ws_calls ws ! c) = i"
      using ws_ok_pending [OF ok] by auto
    then have "i \<in> fst ` set (ws_calls ws)" by force
    then show ?thesis using apart \<open>c < _\<close> \<open>fst (ws_calls ws ! c) = i\<close> by (simp add: calls nth_append) blast
  next
    case False
    then have "c \<in> set (ws_cancelled ws)"
      using that by (auto simp: ws_send_request_def Let_def split: if_splits option.splits)
    moreover from this have "c < length (ws_calls ws)"
      using ws_okD(2) [OF ok] by (simp add: ws_resolved_def)
    ultimately show ?thesis using fresh by (simp add: calls nth_append ws_fresh_def)
  qed
  moreover have "i \<noteq> 0 \<or> request = BatchRequest []" using i bound [of i] used by force
  ultimately show ?thesis
    using fresh unfolding ws_fresh_def calls by auto
qed


lemma filter_keys:
  assumes "distinct (map fst xs)" "R \<subseteq> set xs" "i \<in> fst ` R"
  shows "i \<in> fst ` set xs - fst ` set (filter (\<lambda>r. r \<notin> R) xs)"
  using assms by (auto dest: eq_key_imp_eq_value)

lemma ws_fresh_take:
  assumes "ws_fresh n ws" "ws_ok ws" "R \<subseteq> set (ws_ready ws)"
    and "R = {} \<and> i = 0 \<and> request = BatchRequest [] \<or> i \<in> fst ` R"
  shows "ws_fresh n (snd (ws_send_request (ws\<lparr>ws_ready := filter (\<lambda>r. r \<notin> R) (ws_ready ws)\<rparr>) i request))"
proof (rule ws_fresh_send [OF assms(1,2)])
  have keys: "distinct (map fst (ws_ready ws))" using assms(1) by (simp add: ws_fresh_def ws_used_def)
  then show "distinct (map fst (filter (\<lambda>r. r \<notin> R) (ws_ready ws)))" by (rule distinct_map_filter)
  show "i = 0 \<and> request = BatchRequest [] \<or>
      i \<in> fst ` set (ws_ready ws) - fst ` set (filter (\<lambda>r. r \<notin> R) (ws_ready ws))"
    using assms(4) filter_keys [OF keys assms(3)] by blast
qed auto

lemma ws_fresh_update [simp]:
  "ws_fresh n (ws\<lparr>ws_sent := ms\<rparr>) = ws_fresh n ws" "ws_fresh n (ws\<lparr>ws_streamed := vs\<rparr>) = ws_fresh n ws"
  "ws_fresh n (ws\<lparr>ws_streams := k\<rparr>) = ws_fresh n ws" "ws_fresh n (ws\<lparr>ws_subscriptions := m\<rparr>) = ws_fresh n ws"
  "ws_fresh n (ws\<lparr>ws_dropped := ds\<rparr>) = ws_fresh n ws" "ws_fresh n (ws\<lparr>ws_running := b\<rparr>) = ws_fresh n ws"
  "ws_fresh n (ws\<lparr>ws_pendings := p\<rparr>) = ws_fresh n ws" "ws_fresh n (ws\<lparr>ws_delivered := d\<rparr>) = ws_fresh n ws"
  by (simp_all add: ws_fresh_def ws_used_def)

lemma ws_fresh_receive: "ws_fresh n ws \<Longrightarrow> ws_fresh n (ws_receive ws msg)"
  by (rule ws_receive_cases [of ws msg]) (simp_all only: ws_fresh_update)

lemma ws_steps_fresh:
  assumes "ws_steps n (ws_new url) ws" "n < 2 ^ 64"
  shows "ws_fresh n ws"
  using assms
proof (induction n "ws_new url" ws rule: ws_steps.induct)
  case start
  show ?case by (rule ws_fresh_new)
next
  case (prepare n ws m p r ws')
  then show ?case using ws_fresh_prepare [of n ws m p r ws'] by simp
next
  case (single n ws i call)
  have ok: "ws_ok ws" using ws_steps_ok [OF single(1) ws_ok_new] .
  have fresh: "ws_fresh n ws" using single by simp
  then have "distinct (map fst (ws_ready ws))" by (simp add: ws_fresh_def ws_used_def)
  then have "remove1 (i, call) (ws_ready ws) = filter (\<lambda>r. r \<notin> {(i, call)}) (ws_ready ws)"
    by (auto simp: distinct_map distinct_remove1_removeAll removeAll_filter_not_eq intro: filter_cong)
  then show ?case
    using ws_fresh_take [OF fresh ok, of "{(i, call)}" i] single(3) by simp
next
  case (batch n ws rs i request)
  have ok: "ws_ok ws" using ws_steps_ok [OF batch(1) ws_ok_new] .
  have "set rs = {} \<and> i = 0 \<and> request = BatchRequest [] \<or> i \<in> fst ` set rs"
    using batch(4) by (cases rs) (auto simp: batch_request_def)
  then show ?case using batch by (intro ws_fresh_take [OF _ ok]) simp_all
qed (simp_all add: ws_fresh_receive ws_subscribe_def ws_unsubscribe_def)


subsection \<open>After the end of the connection\<close>

lemma ws_receive_stopped: "\<not> ws_running ws \<Longrightarrow> ws_receive ws msg = ws"
  by (simp add: ws_receive_def)

lemma ws_steps_stopped:
  "ws_steps n ws0 ws \<Longrightarrow> \<not> ws_running ws0 \<Longrightarrow>
    \<not> ws_running ws \<and> ws_delivered ws = ws_delivered ws0 \<and> ws_streamed ws = ws_streamed ws0"
  by (induction rule: ws_steps.induct)
    (auto simp: ws_prepare_def ws_send_request_def Let_def ws_receive_stopped ws_subscribe_def ws_unsubscribe_def)


subsection \<open>What texts are responses\<close>

lemma as_read_id [simp]: "output_id (as_read out) = output_id out"
  by (cases out) (simp_all add: as_read_def)

lemma output_no_notification: "de_notification (ser_output out) = mismatch"
  by (cases out)
    (auto simp: de_notification_def struct_fields_def ser_version_field_def mismatch_def split: option.splits)

lemma outputs_no_notification: "de_notification (JArr (map ser_output outs)) = mismatch"
proof (cases outs)
  case Nil
  then show ?thesis by (simp add: de_notification_def struct_fields_def mismatch_def)
next
  case (Cons out outs')
  obtain es where "ser_output out = JObj es" using ser_output_obj by blast
  then show ?thesis using Cons
    by (simp add: de_notification_def struct_fields_def mismatch_def de_version_def)
qed

lemma ws_receive_response:
  assumes "ws_running ws" "\<not> is_ok (and_then t de_notification)"
  shows "ws_receive ws (Ok (Text t)) = handle_pending_response ws t"
proof -
  have "handle_subscription ws t = Ok ws"
    using assms(2) by (cases "and_then t de_notification") (simp_all add: handle_subscription_def)
  then show ?thesis using assms(1) by (simp add: ws_receive_def handle_incoming_msg_def)
qed


subsection \<open>Properties\<close>

text \<open>
  C3: In every run of the WebSocket transport, with any interleaving of its callers and any messages from the
  server, every caller gets at most one response, and only one under the identifier of its request;
  every request is either answered, or its channel was dropped, or its caller is registered under its
  identifier. For fewer than \<open>2 ^ 64\<close> calls the only channels that are dropped are those of
  empty batches, which all share the identifier 0.
\<close>
theorem ws_correlation:
  assumes "ws_steps n (ws_new url) ws"
  shows "distinct (map fst (ws_delivered ws) @ ws_cancelled ws)
    \<and> (\<forall>(c, r) \<in> set (ws_delivered ws). c < length (ws_calls ws) \<and> response_id r = fst (ws_calls ws ! c))
    \<and> (\<forall>c < length (ws_calls ws). ws_pendings ws (fst (ws_calls ws ! c)) = Some c
         \<longleftrightarrow> c \<notin> set (map fst (ws_delivered ws) @ ws_cancelled ws))
    \<and> (n < 2 ^ 64 \<longrightarrow> (\<forall>c \<in> set (ws_cancelled ws). ws_calls ws ! c = (0, BatchRequest [])))"
proof -
  have ok: "ws_ok ws" by (rule ws_steps_ok [OF assms ws_ok_new])
  have "ws_calls ws ! c = (0, BatchRequest [])" if "n < 2 ^ 64" "c \<in> set (ws_cancelled ws)" for c
  proof -
    have "c < length (ws_calls ws)" using ws_okD(2) [OF ok] that(2) by (simp add: ws_resolved_def)
    then show ?thesis
      using ws_steps_fresh [OF assms that(1)] that(2) by (force simp: ws_fresh_def prod_eq_iff)
  qed
  moreover have "c < length (ws_calls ws) \<and> response_id r = fst (ws_calls ws ! c)"
    if "(c, r) \<in> set (ws_delivered ws)" for c r
    using that ws_okD(2,3) [OF ok] by (force simp: ws_resolved_def)
  moreover have "ws_pendings ws (fst (ws_calls ws ! c)) = Some c \<longleftrightarrow> c \<notin> set (map fst (ws_delivered ws) @ ws_cancelled ws)"
    if "c < length (ws_calls ws)" for c
    using that ws_ok_pending [OF ok] by (simp add: ws_resolved_def)
  ultimately show ?thesis using ws_okD(1) [OF ok] by (auto simp: ws_resolved_def)
qed

text \<open>Two tasks that each send an empty batch: the second one drops the channel of the first.\<close>

definition two_empty_batches :: WebSocketTransport where
  "two_empty_batches =
    snd (ws_send_request (snd (ws_send_request (ws_new ''u'') 0 (BatchRequest []))) 0 (BatchRequest []))"

lemma two_empty_batches_run: "ws_steps 0 (ws_new ''u'') two_empty_batches"
proof -
  have 1: "ws_steps 0 (ws_new ''u'') (snd (ws_send_request (ws_new ''u'') 0 (BatchRequest [])))"
    using ws_steps.batch [OF ws_steps.start, of "[]" "ws_new ''u''" 0 "BatchRequest []"]
    by (simp add: batch_request_def ws_new_def)
  show ?thesis
    using ws_steps.batch [OF 1, of "[]" 0 "BatchRequest []"]
    by (simp add: batch_request_def two_empty_batches_def ws_new_def ws_send_request_def Let_def)
qed

theorem ws_correlation_witness:
  "ws_cancelled two_empty_batches = [0] \<and> ws_calls two_empty_batches ! 0 = (0, BatchRequest [])
   \<and> ws_pendings two_empty_batches 0 = Some 1"
proof -
  have c: "ws_cancelled two_empty_batches = [0]" "ws_delivered two_empty_batches = []"
    and calls: "length (ws_calls two_empty_batches) = 2" "ws_calls two_empty_batches ! 1 = (0, BatchRequest [])"
    by (simp_all add: two_empty_batches_def ws_send_request_def ws_new_def Let_def)
  note run = ws_correlation [OF two_empty_batches_run]
  have "ws_pendings two_empty_batches (fst (ws_calls two_empty_batches ! 1)) = Some 1"
    using run c calls(1) by auto
  moreover have "ws_calls two_empty_batches ! 0 = (0, BatchRequest [])" using run c by simp
  ultimately show ?thesis using c calls(2) by simp
qed


text \<open>A batch of two calls whose responses arrive in the other order.\<close>

definition waiting_batch :: WebSocketTransport where
  "waiting_batch =
    snd (ws_send_request ((ws_new ''u'')\<lparr>ws_id := 3\<rparr>) 1
      (BatchRequest [method_call 1 ''a'' NoParams, method_call 2 ''b'' NoParams]))"

lemma waiting_batch_run: "ws_steps 2 (ws_new ''u'') waiting_batch"
proof -
  let ?a = "(1, method_call 1 ''a'' NoParams)" and ?b = "(2, method_call 2 ''b'' NoParams)"
  have "ws_steps (Suc 0) (ws_new ''u'') ((ws_new ''u'')\<lparr>ws_id := 2, ws_ready := [?a]\<rparr>)"
    using ws_steps.prepare [OF ws_steps.start, of "ws_new ''u''" "''a''" NoParams]
    by (simp add: ws_prepare_def ws_new_def)
  from ws_steps.prepare [OF this, of "''b''" NoParams]
  have "ws_steps (Suc (Suc 0)) (ws_new ''u'') ((ws_new ''u'')\<lparr>ws_id := 3, ws_ready := [?a, ?b]\<rparr>)"
    by (simp add: ws_prepare_def ws_new_def)
  from ws_steps.batch [OF this, of "[?a, ?b]"] show ?thesis
    by (simp add: waiting_batch_def batch_request_def ws_new_def numeral_2_eq_2)
qed

definition null_response :: "u64 \<Rightarrow> ResponseOutput" where
  "null_response i = output_from (Some V2) i (Inr JNull)"


text \<open>
  C17: A notification for a subscription whose stream the program has dropped without unsubscribing, or
  with a number that is no \<open>u64\<close>, ends the task of the connection. Whatever happens then, no caller and no
  stream ever receives anything again, and every further request panics.
\<close>
theorem ws_dropped_stream_ends:
  assumes "ws_running ws" "and_then t de_notification = Ok notification"
    and "nt_params notification = ArrayParams (i # v # rest)"
    and "as_u64 i = Some w \<and> ws_subscriptions ws w = Some s \<and> s \<in> set (ws_dropped ws) \<or> is_number i \<and> as_u64 i = None"
    and "ws_steps n (ws_receive ws (Ok (Text t))) ws'"
  shows "ws_delivered ws' = ws_delivered ws \<and> ws_streamed ws' = ws_streamed ws
    \<and> fst (ws_send_request ws' j request) = Panic"
proof -
  have "is_number i" using assms(4) by (cases i) auto
  then have "handle_subscription ws t = Panic"
    using assms(2-4) by (auto simp: handle_subscription_def)
  then have "ws_receive ws (Ok (Text t)) = ws\<lparr>ws_running := False\<rparr>"
    using assms(1) by (simp add: ws_receive_def handle_incoming_msg_def)
  then show ?thesis
    using ws_steps_stopped [OF assms(5)] by (simp add: ws_send_request_def Let_def)
qed

definition dropped_stream :: WebSocketTransport where
  "dropped_stream = (snd (ws_subscribe (ws_new ''u'') 7))\<lparr>ws_dropped := [0]\<rparr>"

definition notify7 :: "json de" where
  "notify7 = Ok (JObj [(''jsonrpc'', JStr ''2.0''), (''method'', JStr ''xrpc.ch.val''), (''params'', JArr [JInt 7, JNull])])"

theorem ws_dropped_stream_ends_witness:
  "fst (ws_send_request (ws_receive dropped_stream (Ok (Text notify7))) 1 (BatchRequest [])) = Panic"
proof -
  have "ws_running dropped_stream" "ws_subscriptions dropped_stream 7 = Some 0" "0 \<in> set (ws_dropped dropped_stream)"
    by (simp_all add: dropped_stream_def ws_subscribe_def ws_new_def)
  moreover have "and_then notify7 de_notification =
      Ok \<lparr>nt_jsonrpc = Some V2, nt_method = ''xrpc.ch.val'', nt_params = ArrayParams [JInt 7, JNull]\<rparr>"
    by (simp add: notify7_def de_notification_def struct_fields_def de_version_def de_string_def de_params_def)
  moreover have "as_u64 (JInt 7) = Some 7" by simp
  ultimately show ?thesis
    using ws_dropped_stream_ends [OF _ _ _ _ ws_steps.start, of dropped_stream notify7 _ "JInt 7" JNull "[]" 7 0] by simp
qed

end
