(* ===== verification/Api_Requests.thy ===== *)
theory Api_Requests
  imports Jsonrpc_Ws
begin

text \<open>
  The methods of the API client (\<open>src/api-client/src/interface\<close>) as the requests that they make of an
  \<open>RpcClient\<close>: one datatype and one function for each trait. A string, a number or a Boolean is
  passed as such; any other argument is the tree that \<open>helper::serialize\<close> makes of it, through its
  wrapper for the JSON form where the source has one. The type that a result is read as belongs to the
  caller.
\<close>

record api_request =
  req_method :: string
  req_params :: "json list"
  req_subscribes :: bool

definition request :: "string \<Rightarrow> json list \<Rightarrow> api_request" where
  "request method params = \<lparr>req_method = method, req_params = params, req_subscribes = False\<rparr>"

definition subscribe :: "string \<Rightarrow> json list \<Rightarrow> api_request" where
  "subscribe method params = \<lparr>req_method = method, req_params = params, req_subscribes = True\<rparr>"


subsection \<open>The traits\<close>

text \<open>\<open>CommonApi\<close> (\<open>interface/common/mod.rs\<close>).\<close>

datatype common_api =
    Common_auth_verify string
  | Common_auth_new json
  | Common_net_connectedness json
  | Common_net_peers
  | Common_net_connect json
  | Common_net_addrs_listen
  | Common_net_disconnect json
  | Common_net_find_peer json
  | Common_id
  | Common_version
  | Common_log_list
  | Common_log_set_level string string
  | Common_shutdown

primrec common_request :: "common_api \<Rightarrow> api_request" where
  "common_request (Common_auth_verify token) = request ''AuthVerify'' [JStr token]"
| "common_request (Common_auth_new permissions) = request ''AuthNew'' [permissions]"
| "common_request (Common_net_connectedness peer_id) = request ''NetConnectedness'' [peer_id]"
| "common_request Common_net_peers = request ''NetPeers'' []"
| "common_request (Common_net_connect addr_info) = request ''NetConnect'' [addr_info]"
| "common_request Common_net_addrs_listen = request ''NetAddrsListen'' []"
| "common_request (Common_net_disconnect peer_id) = request ''NetDisconnect'' [peer_id]"
| "common_request (Common_net_find_peer peer_id) = request ''NetFindPeer'' [peer_id]"
| "common_request Common_id = request ''ID'' []"
| "common_request Common_version = request ''Version'' []"
| "common_request Common_log_list = request ''LogList'' []"
| "common_request (Common_log_set_level subsystem level) = request ''LogSetLevel'' [JStr subsystem, JStr level]"
| "common_request Common_shutdown = request ''Shutdown'' []"

text \<open>\<open>ChainApi\<close> (\<open>interface/full/chain.rs\<close>).\<close>

datatype chain_api =
    Chain_notify
  | Chain_head
  | Chain_get_randomness json json u64 json
  | Chain_get_block json
  | Chain_get_tipset json
  | Chain_get_block_messages json
  | Chain_get_parent_receipts json
  | Chain_get_parent_messages json
  | Chain_get_tipset_by_height u64 json
  | Chain_read_obj json
  | Chain_has_obj json
  | Chain_stat_obj json json
  | Chain_set_head json
  | Chain_get_genesis
  | Chain_tipset_weight json
  | Chain_get_message json
  | Chain_get_path json json
  | Chain_export json

primrec chain_request :: "chain_api \<Rightarrow> api_request" where
  "chain_request Chain_notify = subscribe ''ChainNotify'' []"
| "chain_request Chain_head = request ''ChainHead'' []"
| "chain_request (Chain_get_randomness key personalization rand_epoch entropy) = request ''ChainGetRandomness'' [key, personalization, JInt (sint rand_epoch), entropy]"
| "chain_request (Chain_get_block cid) = request ''ChainGetBlock'' [cid]"
| "chain_request (Chain_get_tipset key) = request ''ChainGetTipSet'' [key]"
| "chain_request (Chain_get_block_messages cid) = request ''ChainGetBlockMessages'' [cid]"
| "chain_request (Chain_get_parent_receipts cid) = request ''ChainGetParentReceipts'' [cid]"
| "chain_request (Chain_get_parent_messages cid) = request ''ChainGetParentMessages'' [cid]"
| "chain_request (Chain_get_tipset_by_height height key) = request ''ChainGetTipSetByHeight'' [JInt (sint height), key]"
| "chain_request (Chain_read_obj cid) = request ''ChainReadObj'' [cid]"
| "chain_request (Chain_has_obj cid) = request ''ChainHasObj'' [cid]"
| "chain_request (Chain_stat_obj obj base) = request ''ChainHasObj'' [obj, base]"
| "chain_request (Chain_set_head key) = request ''ChainSetHead'' [key]"
| "chain_request Chain_get_genesis = request ''ChainGetGenesis'' []"
| "chain_request (Chain_tipset_weight key) = request ''ChainTipSetWeight'' [key]"
| "chain_request (Chain_get_message cid) = request ''ChainGetMessage'' [cid]"
| "chain_request (Chain_get_path src dst) = request ''ChainGetPath'' [src, dst]"
| "chain_request (Chain_export key) = subscribe ''ChainExport'' [key]"

text \<open>\<open>ClientApi\<close> (\<open>interface/full/client.rs\<close>).\<close>

datatype client_api =
    Client_import json
  | Client_has_local json
  | Client_find_data json
  | Client_retrieve json json
  | Client_calc_comm_p string json
  | Client_gen_car json string

primrec client_request :: "client_api \<Rightarrow> api_request" where
  "client_request (Client_import file) = request ''ClientImport'' [file]"
| "client_request (Client_has_local root) = request ''ClientHasLocal'' [root]"
| "client_request (Client_find_data root) = request ''ClientFindData'' [root]"
| "client_request (Client_retrieve order file) = request ''ClientFindData'' [order, file]"
| "client_request (Client_calc_comm_p inpath miner) = request ''ClientCalcCommP'' [JStr inpath, miner]"
| "client_request (Client_gen_car file outpath) = request ''ClientCalcCommP'' [file, JStr outpath]"

text \<open>\<open>MarketApi\<close> (\<open>interface/full/market.rs\<close>).\<close>

datatype market_api =
    Market_ensure_available json json json

primrec market_request :: "market_api \<Rightarrow> api_request" where
  "market_request (Market_ensure_available addr wallet amt) = request ''MarketEnsureAvailable'' [addr, wallet, amt]"

text \<open>\<open>MinerApi\<close> (\<open>interface/full/miner.rs\<close>).\<close>

datatype miner_api =
    Miner_get_base_info json u64 json
  | Miner_create_block json

primrec miner_request :: "miner_api \<Rightarrow> api_request" where
  "miner_request (Miner_get_base_info addr height key) = request ''MinerGetBaseInfo'' [addr, JInt (sint height), key]"
| "miner_request (Miner_create_block template) = request ''MinerCreateBlock'' [template]"

text \<open>\<open>MpoolApi\<close> (\<open>interface/full/mpool.rs\<close>).\<close>

datatype mpool_api =
    Mpool_pending json
  | Mpool_push json
  | Mpool_push_message json
  | Mpool_get_nonce json
  | Mpool_sub
  | Mpool_estimate_gas_price u64 json u64 json

primrec mpool_request :: "mpool_api \<Rightarrow> api_request" where
  "mpool_request (Mpool_pending key) = request ''MpoolPending'' [key]"
| "mpool_request (Mpool_push signed_msg) = request ''MpoolPush'' [signed_msg]"
| "mpool_request (Mpool_push_message msg) = request ''MpoolPushMessage'' [msg]"
| "mpool_request (Mpool_get_nonce addr) = request ''MpoolGetNonce'' [addr]"
| "mpool_request Mpool_sub = subscribe ''MpoolSub'' []"
| "mpool_request (Mpool_estimate_gas_price nblocksincl addr gas_limit key) = request ''MpoolEstimateGasPrice'' [JInt (uint nblocksincl), addr, JInt (sint gas_limit), key]"

text \<open>\<open>MultiSigApi\<close> (\<open>interface/full/multisig.rs\<close>).\<close>

datatype msig_api =
    Msig_get_available_balance json json
  | Msig_create u64 json json json json
  | Msig_propose json json json json u64 json
  | Msig_approve json u64 json json json json u64 json
  | Msig_cancel json u64 json json json json u64 json

primrec msig_request :: "msig_api \<Rightarrow> api_request" where
  "msig_request (Msig_get_available_balance addr key) = request ''MsigGetAvailableBalance'' [addr, key]"
| "msig_request (Msig_create req addrs val src gp) = request ''MsigCreate'' [JInt (sint req), addrs, val, src, gp]"
| "msig_request (Msig_propose msig dst amt src method params) = request ''MsigPropose'' [msig, dst, amt, src, JInt (uint method), params]"
| "msig_request (Msig_approve msig txid proposer dst amt src method params) = request ''MsigApprove'' [msig, JInt (uint txid), proposer, dst, amt, src, JInt (uint method), params]"
| "msig_request (Msig_cancel msig txid proposer dst amt src method params) = request ''MsigCancel'' [msig, JInt (uint txid), proposer, dst, amt, src, JInt (uint method), params]"

text \<open>\<open>PaychApi\<close> (\<open>interface/full/paych.rs\<close>).\<close>

datatype paych_api =
    Paych_get json json json
  | Paych_list
  | Paych_status json
  | Paych_close json
  | Paych_allocate_lane json
  | Paych_new_payment json json json
  | Paych_voucher_check_valid json json
  | Paych_voucher_check_spendable json json json json
  | Paych_voucher_create json json u64
  | Paych_voucher_add json json json json
  | Paych_voucher_list json
  | Paych_voucher_submit json json

primrec paych_request :: "paych_api \<Rightarrow> api_request" where
  "paych_request (Paych_get src dst ensure_funds) = request ''PaychGet'' [src, dst, ensure_funds]"
| "paych_request Paych_list = request ''PaychList'' []"
| "paych_request (Paych_status addr) = request ''PaychStatus'' [addr]"
| "paych_request (Paych_close addr) = request ''PaychClose'' [addr]"
| "paych_request (Paych_allocate_lane addr) = request ''PaychAllocateLane'' [addr]"
| "paych_request (Paych_new_payment src dst vouchers) = request ''PaychNewPayment'' [src, dst, vouchers]"
| "paych_request (Paych_voucher_check_valid addr sign_vouch) = request ''PaychVoucherCheckValid'' [addr, sign_vouch]"
| "paych_request (Paych_voucher_check_spendable addr sign_vouch secret proof) = request ''PaychVoucherCheckSpendable'' [addr, sign_vouch, secret, proof]"
| "paych_request (Paych_voucher_create addr amt lane) = request ''PaychVoucherCreate'' [addr, amt, JInt (uint lane)]"
| "paych_request (Paych_voucher_add addr signed_voucher proof min_delta) = request ''PaychVoucherAdd'' [addr, signed_voucher, proof, min_delta]"
| "paych_request (Paych_voucher_list addr) = request ''PayChVoucherList'' [addr]"
| "paych_request (Paych_voucher_submit addr signed_vouch) = request ''PaychVoucherSubmit'' [addr, signed_vouch]"

text \<open>\<open>StateApi\<close> (\<open>interface/full/state.rs\<close>, lines 28 to 144).\<close>

datatype state_api =
    State_call json json
  | State_replay json json
  | State_get_actor json json
  | State_list_messages json json u64
  | State_network_name
  | State_miner_sectors json json bool json
  | State_miner_proving_set json json
  | State_miner_proving_deadline json json
  | State_miner_power json json
  | State_miner_info json json

primrec state_request :: "state_api \<Rightarrow> api_request" where
  "state_request (State_call msg key) = request ''StateCall'' [msg, key]"
| "state_request (State_replay key cid) = request ''StateReplay'' [key, cid]"
| "state_request (State_get_actor addr key) = request ''StateGetActor'' [addr, key]"
| "state_request (State_list_messages msg key height) = request ''StateListMessages'' [msg, key, JInt (sint height)]"
| "state_request State_network_name = request ''StateNetworkName'' []"
| "state_request (State_miner_sectors addr bits filter_out key) = request ''StateMinerSectors'' [addr, bits, JBool filter_out, key]"
| "state_request (State_miner_proving_set addr key) = request ''StateMinerProvingSet'' [addr, key]"
| "state_request (State_miner_proving_deadline addr key) = request ''StateMinerProvingDeadline'' [addr, key]"
| "state_request (State_miner_power addr key) = request ''StateMinerPower'' [addr, key]"
| "state_request (State_miner_info addr key) = request ''StateMinerInfo'' [addr, key]"

text \<open>\<open>StateApi\<close> (\<open>interface/full/state.rs\<close>, lines 146 to 252).\<close>

datatype state_miner_api =
    State_miner_deadlines json json
  | State_miner_faults json json
  | State_all_miner_faults u64 json
  | State_miner_recoveries json json
  | State_miner_initial_pledge_collateral json u64 json
  | State_miner_available_balance json json
  | State_sector_pre_commit_info json u64 json
  | State_pledge_collateral json
  | State_wait_msg json
  | State_search_msg json

primrec state_miner_request :: "state_miner_api \<Rightarrow> api_request" where
  "state_miner_request (State_miner_deadlines addr key) = request ''StateMinerDeadlines'' [addr, key]"
| "state_miner_request (State_miner_faults addr key) = request ''StateMinerFaults'' [addr, key]"
| "state_miner_request (State_all_miner_faults lookback key) = request ''StateAllMinerFaults'' [JInt (sint lookback), key]"
| "state_miner_request (State_miner_recoveries addr key) = request ''StateMinerRecoveries'' [addr, key]"
| "state_miner_request (State_miner_initial_pledge_collateral addr sector_number key) = request ''StateMinerInitialPledgeCollateral'' [addr, JInt (uint sector_number), key]"
| "state_miner_request (State_miner_available_balance addr key) = request ''StateMinerAvailableBalance'' [addr, key]"
| "state_miner_request (State_sector_pre_commit_info addr sector_number key) = request ''StateSectorPreCommitInfo'' [addr, JInt (uint sector_number), key]"
| "state_miner_request (State_pledge_collateral key) = request ''StatePledgeCollateral'' [key]"
| "state_miner_request (State_wait_msg cid) = request ''StateWaitMsg'' [cid]"
| "state_miner_request (State_search_msg cid) = request ''StateSearchMsg'' [cid]"

text \<open>\<open>StateApi\<close> (\<open>interface/full/state.rs\<close>, lines 254 to 352).\<close>

datatype state_market_api =
    State_list_miners json
  | State_list_actors json
  | State_market_balance json json
  | State_market_participants json
  | State_market_deals json
  | State_market_storage_deal u64 json
  | State_lookup_id json json
  | State_account_key json json
  | State_changed_actors json json
  | State_get_receipt json json
  | State_miner_sector_count json json
  | State_compute u64 json json

primrec state_market_request :: "state_market_api \<Rightarrow> api_request" where
  "state_market_request (State_list_miners key) = request ''StateListMiners'' [key]"
| "state_market_request (State_list_actors key) = request ''StateListActors'' [key]"
| "state_market_request (State_market_balance addr key) = request ''StateMarketBalance'' [addr, key]"
| "state_market_request (State_market_participants key) = request ''StateMarketParticipants'' [key]"
| "state_market_request (State_market_deals key) = request ''StateMarketDeals'' [key]"
| "state_market_request (State_market_storage_deal deal_id key) = request ''StateMarketStorageDeal'' [JInt (uint deal_id), key]"
| "state_market_request (State_lookup_id addr key) = request ''StateLookupID'' [addr, key]"
| "state_market_request (State_account_key addr key) = request ''StateAccountKey'' [addr, key]"
| "state_market_request (State_changed_actors old new) = request ''StateChangedActors'' [old, new]"
| "state_market_request (State_get_receipt cid key) = request ''StateGetReceipt'' [cid, key]"
| "state_market_request (State_miner_sector_count addr key) = request ''StateMinerSectorCount'' [addr, key]"
| "state_market_request (State_compute height msgs key) = request ''StateCompute'' [JInt (sint height), msgs, key]"

text \<open>\<open>SyncApi\<close> (\<open>interface/full/sync.rs\<close>).\<close>

datatype sync_api =
    Sync_state
  | Sync_submit_block json
  | Sync_incoming_blocks
  | Sync_mark_bad json
  | Sync_check_bad json

primrec sync_request :: "sync_api \<Rightarrow> api_request" where
  "sync_request Sync_state = request ''SyncState'' []"
| "sync_request (Sync_submit_block block) = request ''SyncSubmitBlock'' [block]"
| "sync_request Sync_incoming_blocks = subscribe ''SyncIncomingBlocks'' []"
| "sync_request (Sync_mark_bad bad_cid) = request ''SyncMarkBad'' [bad_cid]"
| "sync_request (Sync_check_bad bad_cid) = request ''SyncCheckBad'' [bad_cid]"

text \<open>\<open>WalletApi\<close> (\<open>interface/full/wallet.rs\<close>).\<close>

datatype wallet_api =
    Wallet_new json
  | Wallet_has json
  | Wallet_list
  | Wallet_balance json
  | Wallet_sign json json
  | Wallet_sign_message json json
  | Wallet_verify json json json
  | Wallet_default_address
  | Wallet_set_default json
  | Wallet_export json
  | Wallet_import json

primrec wallet_request :: "wallet_api \<Rightarrow> api_request" where
  "wallet_request (Wallet_new sig_type) = request ''WalletNew'' [sig_type]"
| "wallet_request (Wallet_has addr) = request ''WalletHas'' [addr]"
| "wallet_request Wallet_list = request ''WalletList'' []"
| "wallet_request (Wallet_balance addr) = request ''WalletBalance'' [addr]"
| "wallet_request (Wallet_sign addr msg) = request ''WalletSign'' [addr, msg]"
| "wallet_request (Wallet_sign_message addr msg) = request ''WalletSignMessage'' [addr, msg]"
| "wallet_request (Wallet_verify addr msg signature) = request ''WalletVerify'' [addr, msg, signature]"
| "wallet_request Wallet_default_address = request ''WalletDefaultAddress'' []"
| "wallet_request (Wallet_set_default addr) = request ''WalletSetDefault'' [addr]"
| "wallet_request (Wallet_export addr) = request ''WalletExport'' [addr]"
| "wallet_request (Wallet_import info) = request ''WalletImport'' [info]"

text \<open>\<open>StorageMinerApi\<close> (\<open>interface/storage/mod.rs\<close>).\<close>

datatype storage_api =
    Storage_actor_address
  | Storage_actor_sector_size json
  | Storage_mining_base
  | Storage_pledge_sector
  | Storage_sectors_status u64
  | Storage_sectors_list
  | Storage_sectors_refs
  | Storage_sectors_update u64 string
  | Storage_worker_connect string
  | Storage_market_import_deal_data json string
  | Storage_market_set_price json
  | Storage_deals_import_data json string
  | Storage_storage_add_local string

primrec storage_request :: "storage_api \<Rightarrow> api_request" where
  "storage_request Storage_actor_address = request ''ActorAddress'' []"
| "storage_request (Storage_actor_sector_size addr) = request ''ActorSectorSize'' [addr]"
| "storage_request Storage_mining_base = request ''MiningBase'' []"
| "storage_request Storage_pledge_sector = request ''PledgeSector'' []"
| "storage_request (Storage_sectors_status number) = request ''SectorsStatus'' [JInt (uint number)]"
| "storage_request Storage_sectors_list = request ''SectorsList'' []"
| "storage_request Storage_sectors_refs = request ''SectorsRefs'' []"
| "storage_request (Storage_sectors_update number state) = request ''SectorsUpdate'' [JInt (uint number), JStr state]"
| "storage_request (Storage_worker_connect s) = request ''WorkerConnect'' [JStr s]"
| "storage_request (Storage_market_import_deal_data prop_cid path) = request ''MarketImportDealData'' [prop_cid, JStr path]"
| "storage_request (Storage_market_set_price price) = request ''MarketSetPrice'' [price]"
| "storage_request (Storage_deals_import_data deal_prop_cid file) = request ''DealsImportData'' [deal_prop_cid, JStr file]"
| "storage_request (Storage_storage_add_local path) = request ''StorageAddLocal'' [JStr path]"

subsection \<open>All calls\<close>

datatype api_call =
    CommonApi common_api
  | ChainApi chain_api
  | ClientApi client_api
  | MarketApi market_api
  | MinerApi miner_api
  | MpoolApi mpool_api
  | MultiSigApi msig_api
  | PaychApi paych_api
  | StateApi state_api
  | StateMinerApi state_miner_api
  | StateMarketApi state_market_api
  | SyncApi sync_api
  | WalletApi wallet_api
  | StorageMinerApi storage_api

primrec call_request :: "api_call \<Rightarrow> api_request" where
  "call_request (CommonApi c) = common_request c"
| "call_request (ChainApi c) = chain_request c"
| "call_request (ClientApi c) = client_request c"
| "call_request (MarketApi c) = market_request c"
| "call_request (MinerApi c) = miner_request c"
| "call_request (MpoolApi c) = mpool_request c"
| "call_request (MultiSigApi c) = msig_request c"
| "call_request (PaychApi c) = paych_request c"
| "call_request (StateApi c) = state_request c"
| "call_request (StateMinerApi c) = state_miner_request c"
| "call_request (StateMarketApi c) = state_market_request c"
| "call_request (SyncApi c) = sync_request c"
| "call_request (WalletApi c) = wallet_request c"
| "call_request (StorageMinerApi c) = storage_request c"


subsection \<open>Making the calls\<close>

text \<open>
  Over HTTP a subscription is \<open>unimplemented!\<close>; over a WebSocket both kinds of call start with a request.
\<close>

definition api_http ::
  "http_post \<Rightarrow> (json \<Rightarrow> 'a de) \<Rightarrow> HttpTransport \<Rightarrow> api_call \<Rightarrow> 'a rpc \<times> HttpTransport" where
  "api_http post from_value http call =
    (let r = call_request call
     in if req_subscribes r then (Panic, http)
        else http_request post from_value http (req_method r) (req_params r))"

definition api_ws :: "WebSocketTransport \<Rightarrow> api_call \<Rightarrow> nat rpc \<times> WebSocketTransport" where
  "api_ws ws call = (let r = call_request call in ws_request ws (req_method r) (req_params r))"


subsection \<open>The names of the methods\<close>

lemmas request_defs = request_def subscribe_def

definition api_names :: "string list" where
  "api_names =
    [''AuthVerify'', ''AuthNew'', ''NetConnectedness'', ''NetPeers'', ''NetConnect'', ''NetAddrsListen'',
     ''NetDisconnect'', ''NetFindPeer'', ''ID'', ''Version'', ''LogList'', ''LogSetLevel'', ''Shutdown'',
     ''ChainNotify'', ''ChainHead'', ''ChainGetRandomness'', ''ChainGetBlock'', ''ChainGetTipSet'',
     ''ChainGetBlockMessages'', ''ChainGetParentReceipts'', ''ChainGetParentMessages'',
     ''ChainGetTipSetByHeight'', ''ChainReadObj'', ''ChainHasObj'', ''ChainSetHead'', ''ChainGetGenesis'',
     ''ChainTipSetWeight'', ''ChainGetMessage'', ''ChainGetPath'', ''ChainExport'', ''ClientImport'',
     ''ClientHasLocal'', ''ClientFindData'', ''ClientCalcCommP'', ''MarketEnsureAvailable'',
     ''MinerGetBaseInfo'', ''MinerCreateBlock'', ''MpoolPending'', ''MpoolPush'', ''MpoolPushMessage'',
     ''MpoolGetNonce'', ''MpoolSub'', ''MpoolEstimateGasPrice'', ''MsigGetAvailableBalance'', ''MsigCreate'',
     ''MsigPropose'', ''MsigApprove'', ''MsigCancel'', ''PaychGet'', ''PaychList'', ''PaychStatus'',
     ''PaychClose'', ''PaychAllocateLane'', ''PaychNewPayment'', ''PaychVoucherCheckValid'',
     ''PaychVoucherCheckSpendable'', ''PaychVoucherCreate'', ''PaychVoucherAdd'', ''PayChVoucherList'',
     ''PaychVoucherSubmit'', ''StateCall'', ''StateReplay'', ''StateGetActor'', ''StateListMessages'',
     ''StateNetworkName'', ''StateMinerSectors'', ''StateMinerProvingSet'', ''StateMinerProvingDeadline'',
     ''StateMinerPower'', ''StateMinerInfo'', ''StateMinerDeadlines'', ''StateMinerFaults'',
     ''StateAllMinerFaults'', ''StateMinerRecoveries'', ''StateMinerInitialPledgeCollateral'',
     ''StateMinerAvailableBalance'', ''StateSectorPreCommitInfo'', ''StatePledgeCollateral'', ''StateWaitMsg'',
     ''StateSearchMsg'', ''StateListMiners'', ''StateListActors'', ''StateMarketBalance'',
     ''StateMarketParticipants'', ''StateMarketDeals'', ''StateMarketStorageDeal'', ''StateLookupID'',
     ''StateAccountKey'', ''StateChangedActors'', ''StateGetReceipt'', ''StateMinerSectorCount'',
     ''StateCompute'', ''SyncState'', ''SyncSubmitBlock'', ''SyncIncomingBlocks'', ''SyncMarkBad'',
     ''SyncCheckBad'', ''WalletNew'', ''WalletHas'', ''WalletList'', ''WalletBalance'', ''WalletSign'',
     ''WalletSignMessage'', ''WalletVerify'', ''WalletDefaultAddress'', ''WalletSetDefault'', ''WalletExport'',
     ''WalletImport'', ''ActorAddress'', ''ActorSectorSize'', ''MiningBase'', ''PledgeSector'',
     ''SectorsStatus'', ''SectorsList'', ''SectorsRefs'', ''SectorsUpdate'', ''WorkerConnect'',
     ''MarketImportDealData'', ''MarketSetPrice'', ''DealsImportData'', ''StorageAddLocal'']"


text \<open>A function takes only the values that it takes on a list of representatives.\<close>

lemma range_representatives:
  assumes "\<And>c. f c \<in> set (map f cs)"
  shows "range f = set (map f cs)"
  using assms by auto

lemma common_names: "range (req_method \<circ> common_request) = set
     [''AuthVerify'', ''AuthNew'', ''NetConnectedness'', ''NetPeers'', ''NetConnect'', ''NetAddrsListen'',
      ''NetDisconnect'', ''NetFindPeer'', ''ID'', ''Version'', ''LogList'', ''LogSetLevel'', ''Shutdown'']"
proof -
  have "(req_method \<circ> common_request) c \<in> set (map (req_method \<circ> common_request)
      [Common_auth_verify [], Common_auth_new JNull, Common_net_connectedness JNull, Common_net_peers,
       Common_net_connect JNull, Common_net_addrs_listen, Common_net_disconnect JNull,
       Common_net_find_peer JNull, Common_id, Common_version, Common_log_list, Common_log_set_level [] [],
       Common_shutdown])" for c
    by (cases c) (simp_all add: request_defs)
  from range_representatives [OF this] show ?thesis by (simp add: request_defs insert_commute)
qed

lemma chain_names: "range (req_method \<circ> chain_request) = set
     [''ChainNotify'', ''ChainHead'', ''ChainGetRandomness'', ''ChainGetBlock'', ''ChainGetTipSet'',
      ''ChainGetBlockMessages'', ''ChainGetParentReceipts'', ''ChainGetParentMessages'',
      ''ChainGetTipSetByHeight'', ''ChainReadObj'', ''ChainHasObj'', ''ChainSetHead'', ''ChainGetGenesis'',
      ''ChainTipSetWeight'', ''ChainGetMessage'', ''ChainGetPath'', ''ChainExport'']"
proof -
  have "(req_method \<circ> chain_request) c \<in> set (map (req_method \<circ> chain_request)
      [Chain_notify, Chain_head, Chain_get_randomness JNull JNull 0 JNull, Chain_get_block JNull,
       Chain_get_tipset JNull, Chain_get_block_messages JNull, Chain_get_parent_receipts JNull,
       Chain_get_parent_messages JNull, Chain_get_tipset_by_height 0 JNull, Chain_read_obj JNull,
       Chain_has_obj JNull, Chain_stat_obj JNull JNull, Chain_set_head JNull, Chain_get_genesis,
       Chain_tipset_weight JNull, Chain_get_message JNull, Chain_get_path JNull JNull, Chain_export JNull])" for c
    by (cases c) (simp_all add: request_defs)
  from range_representatives [OF this] show ?thesis by (simp add: request_defs insert_commute)
qed

lemma client_names: "range (req_method \<circ> client_request) = set
     [''ClientImport'', ''ClientHasLocal'', ''ClientFindData'', ''ClientCalcCommP'']"
proof -
  have "(req_method \<circ> client_request) c \<in> set (map (req_method \<circ> client_request)
      [Client_import JNull, Client_has_local JNull, Client_find_data JNull, Client_retrieve JNull JNull,
       Client_calc_comm_p [] JNull, Client_gen_car JNull []])" for c
    by (cases c) (simp_all add: request_defs)
  from range_representatives [OF this] show ?thesis by (simp add: request_defs insert_commute)
qed

lemma market_names: "range (req_method \<circ> market_request) = set
     [''MarketEnsureAvailable'']"
proof -
  have "(req_method \<circ> market_request) c \<in> set (map (req_method \<circ> market_request)
      [Market_ensure_available JNull JNull JNull])" for c
    by (cases c) (simp_all add: request_defs)
  from range_representatives [OF this] show ?thesis by (simp add: request_defs insert_commute)
qed

lemma miner_names: "range (req_method \<circ> miner_request) = set
     [''MinerGetBaseInfo'', ''MinerCreateBlock'']"
proof -
  have "(req_method \<circ> miner_request) c \<in> set (map (req_method \<circ> miner_request)
      [Miner_get_base_info JNull 0 JNull, Miner_create_block JNull])" for c
    by (cases c) (simp_all add: request_defs)
  from range_representatives [OF this] show ?thesis by (simp add: request_defs insert_commute)
qed

lemma mpool_names: "range (req_method \<circ> mpool_request) = set
     [''MpoolPending'', ''MpoolPush'', ''MpoolPushMessage'', ''MpoolGetNonce'', ''MpoolSub'',
      ''MpoolEstimateGasPrice'']"
proof -
  have "(req_method \<circ> mpool_request) c \<in> set (map (req_method \<circ> mpool_request)
      [Mpool_pending JNull, Mpool_push JNull, Mpool_push_message JNull, Mpool_get_nonce JNull, Mpool_sub,
       Mpool_estimate_gas_price 0 JNull 0 JNull])" for c
    by (cases c) (simp_all add: request_defs)
  from range_representatives [OF this] show ?thesis by (simp add: request_defs insert_commute)
qed

lemma msig_names: "range (req_method \<circ> msig_request) = set
     [''MsigGetAvailableBalance'', ''MsigCreate'', ''MsigPropose'', ''MsigApprove'', ''MsigCancel'']"
proof -
  have "(req_method \<circ> msig_request) c \<in> set (map (req_method \<circ> msig_request)
      [Msig_get_available_balance JNull JNull, Msig_create 0 JNull JNull JNull JNull,
       Msig_propose JNull JNull JNull JNull 0 JNull, Msig_approve JNull 0 JNull JNull JNull JNull 0 JNull,
       Msig_cancel JNull 0 JNull JNull JNull JNull 0 JNull])" for c
    by (cases c) (simp_all add: request_defs)
  from range_representatives [OF this] show ?thesis by (simp add: request_defs insert_commute)
qed

lemma paych_names: "range (req_method \<circ> paych_request) = set
     [''PaychGet'', ''PaychList'', ''PaychStatus'', ''PaychClose'', ''PaychAllocateLane'', ''PaychNewPayment'',
      ''PaychVoucherCheckValid'', ''PaychVoucherCheckSpendable'', ''PaychVoucherCreate'', ''PaychVoucherAdd'',
      ''PayChVoucherList'', ''PaychVoucherSubmit'']"
proof -
  have "(req_method \<circ> paych_request) c \<in> set (map (req_method \<circ> paych_request)
      [Paych_get JNull JNull JNull, Paych_list, Paych_status JNull, Paych_close JNull,
       Paych_allocate_lane JNull, Paych_new_payment JNull JNull JNull, Paych_voucher_check_valid JNull JNull,
       Paych_voucher_check_spendable JNull JNull JNull JNull, Paych_voucher_create JNull JNull 0,
       Paych_voucher_add JNull JNull JNull JNull, Paych_voucher_list JNull, Paych_voucher_submit JNull JNull])" for c
    by (cases c) (simp_all add: request_defs)
  from range_representatives [OF this] show ?thesis by (simp add: request_defs insert_commute)
qed

lemma state_names: "range (req_method \<circ> state_request) = set
     [''StateCall'', ''StateReplay'', ''StateGetActor'', ''StateListMessages'', ''StateNetworkName'',
      ''StateMinerSectors'', ''StateMinerProvingSet'', ''StateMinerProvingDeadline'', ''StateMinerPower'',
      ''StateMinerInfo'']"
proof -
  have "(req_method \<circ> state_request) c \<in> set (map (req_method \<circ> state_request)
      [State_call JNull JNull, State_replay JNull JNull, State_get_actor JNull JNull,
       State_list_messages JNull JNull 0, State_network_name, State_miner_sectors JNull JNull False JNull,
       State_miner_proving_set JNull JNull, State_miner_proving_deadline JNull JNull,
       State_miner_power JNull JNull, State_miner_info JNull JNull])" for c
    by (cases c) (simp_all add: request_defs)
  from range_representatives [OF this] show ?thesis by (simp add: request_defs insert_commute)
qed

lemma state_miner_names: "range (req_method \<circ> state_miner_request) = set
     [''StateMinerDeadlines'', ''StateMinerFaults'', ''StateAllMinerFaults'', ''StateMinerRecoveries'',
      ''StateMinerInitialPledgeCollateral'', ''StateMinerAvailableBalance'', ''StateSectorPreCommitInfo'',
      ''StatePledgeCollateral'', ''StateWaitMsg'', ''StateSearchMsg'']"
proof -
  have "(req_method \<circ> state_miner_request) c \<in> set (map (req_method \<circ> state_miner_request)
      [State_miner_deadlines JNull JNull, State_miner_faults JNull JNull, State_all_miner_faults 0 JNull,
       State_miner_recoveries JNull JNull, State_miner_initial_pledge_collateral JNull 0 JNull,
       State_miner_available_balance JNull JNull, State_sector_pre_commit_info JNull 0 JNull,
       State_pledge_collateral JNull, State_wait_msg JNull, State_search_msg JNull])" for c
    by (cases c) (simp_all add: request_defs)
  from range_representatives [OF this] show ?thesis by (simp add: request_defs insert_commute)
qed

lemma state_market_names: "range (req_method \<circ> state_market_request) = set
     [''StateListMiners'', ''StateListActors'', ''StateMarketBalance'', ''StateMarketParticipants'',
      ''StateMarketDeals'', ''StateMarketStorageDeal'', ''StateLookupID'', ''StateAccountKey'',
      ''StateChangedActors'', ''StateGetReceipt'', ''StateMinerSectorCount'', ''StateCompute'']"
proof -
  have "(req_method \<circ> state_market_request) c \<in> set (map (req_method \<circ> state_market_request)
      [State_list_miners JNull, State_list_actors JNull, State_market_balance JNull JNull,
       State_market_participants JNull, State_market_deals JNull, State_market_storage_deal 0 JNull,
       State_lookup_id JNull JNull, State_account_key JNull JNull, State_changed_actors JNull JNull,
       State_get_receipt JNull JNull, State_miner_sector_count JNull JNull, State_compute 0 JNull JNull])" for c
    by (cases c) (simp_all add: request_defs)
  from range_representatives [OF this] show ?thesis by (simp add: request_defs insert_commute)
qed

lemma sync_names: "range (req_method \<circ> sync_request) = set
     [''SyncState'', ''SyncSubmitBlock'', ''SyncIncomingBlocks'', ''SyncMarkBad'', ''SyncCheckBad'']"
proof -
  have "(req_method \<circ> sync_request) c \<in> set (map (req_method \<circ> sync_request)
      [Sync_state, Sync_submit_block JNull, Sync_incoming_blocks, Sync_mark_bad JNull, Sync_check_bad JNull])" for c
    by (cases c) (simp_all add: request_defs)
  from range_representatives [OF this] show ?thesis by (simp add: request_defs insert_commute)
qed

lemma wallet_names: "range (req_method \<circ> wallet_request) = set
     [''WalletNew'', ''WalletHas'', ''WalletList'', ''WalletBalance'', ''WalletSign'', ''WalletSignMessage'',
      ''WalletVerify'', ''WalletDefaultAddress'', ''WalletSetDefault'', ''WalletExport'', ''WalletImport'']"
proof -
  have "(req_method \<circ> wallet_request) c \<in> set (map (req_method \<circ> wallet_request)
      [Wallet_new JNull, Wallet_has JNull, Wallet_list, Wallet_balance JNull, Wallet_sign JNull JNull,
       Wallet_sign_message JNull JNull, Wallet_verify JNull JNull JNull, Wallet_default_address,
       Wallet_set_default JNull, Wallet_export JNull, Wallet_import JNull])" for c
    by (cases c) (simp_all add: request_defs)
  from range_representatives [OF this] show ?thesis by (simp add: request_defs insert_commute)
qed

lemma storage_names: "range (req_method \<circ> storage_request) = set
     [''ActorAddress'', ''ActorSectorSize'', ''MiningBase'', ''PledgeSector'', ''SectorsStatus'',
      ''SectorsList'', ''SectorsRefs'', ''SectorsUpdate'', ''WorkerConnect'', ''MarketImportDealData'',
      ''MarketSetPrice'', ''DealsImportData'', ''StorageAddLocal'']"
proof -
  have "(req_method \<circ> storage_request) c \<in> set (map (req_method \<circ> storage_request)
      [Storage_actor_address, Storage_actor_sector_size JNull, Storage_mining_base, Storage_pledge_sector,
       Storage_sectors_status 0, Storage_sectors_list, Storage_sectors_refs, Storage_sectors_update 0 [],
       Storage_worker_connect [], Storage_market_import_deal_data JNull [], Storage_market_set_price JNull,
       Storage_deals_import_data JNull [], Storage_storage_add_local []])" for c
    by (cases c) (simp_all add: request_defs)
  from range_representatives [OF this] show ?thesis by (simp add: request_defs insert_commute)
qed

lemmas trait_names = common_names chain_names client_names market_names miner_names mpool_names msig_names paych_names
  state_names state_miner_names state_market_names sync_names wallet_names storage_names

lemma range_call_request:
  "range (f \<circ> call_request) =
    range (f \<circ> common_request) \<union> range (f \<circ> chain_request) \<union> range (f \<circ> client_request) \<union>
    range (f \<circ> market_request) \<union> range (f \<circ> miner_request) \<union> range (f \<circ> mpool_request) \<union>
    range (f \<circ> msig_request) \<union> range (f \<circ> paych_request) \<union> range (f \<circ> state_request) \<union>
    range (f \<circ> state_miner_request) \<union> range (f \<circ> state_market_request) \<union>
    range (f \<circ> sync_request) \<union> range (f \<circ> wallet_request) \<union> range (f \<circ> storage_request)"
  (is "?l = ?r")
proof
  have "(f \<circ> call_request) c \<in> ?r" for c by (cases c) auto
  then show "?l \<subseteq> ?r" by blast
  show "?r \<subseteq> ?l" by (auto simp: image_iff) (metis call_request.simps)+
qed

lemma api_names_distinct: "distinct api_names"
  unfolding api_names_def by simp

lemma range_names: "range (req_method \<circ> call_request) = set api_names"
  unfolding range_call_request trait_names api_names_def by (simp only: set_append [symmetric] append.simps)


end
