(* ===== verification/Miner_State.thy ===== *)
theory Miner_State
  imports Bit_Field Block
begin

text \<open>
  The state of the miner actor with its CBOR form (\<open>src/actor/src/builtin/miner/state.rs\<close>) and the CBOR
  form of peer identifiers that it uses (\<open>src/primitives/peerid\<close>).

  The peer identifiers and their text form are those of \<open>libp2p_core\<close>, and the codec of
  \<open>WorkerKeyChange\<close> is derived by \<open>minicbor\<close>: both are arguments, in the record \<open>actor_libs\<close>, with the laws
  of the locale \<open>miner_codec\<close>.
\<close>

record WorkerKeyChange =
  new_worker :: Address
  effective_at :: u64

record 'peer actor_libs =
  peer_to_string :: "'peer \<Rightarrow> string"
  peer_parse :: "string \<Rightarrow> ('peer, string) result"
  e_worker_key :: "WorkerKeyChange \<Rightarrow> bytes"
  d_worker_key :: "bytes \<Rightarrow> (WorkerKeyChange \<times> bytes) cbor"

definition encode_peer_id :: "'cid libs \<Rightarrow> 'peer actor_libs \<Rightarrow> 'peer \<Rightarrow> bytes" where
  "encode_peer_id lib al p = e_str lib (peer_to_string al p)"

definition decode_peer_id :: "'cid libs \<Rightarrow> 'peer actor_libs \<Rightarrow> bytes \<Rightarrow> ('peer \<times> bytes) cbor" where
  "decode_peer_id lib al b =
    and_then (d_str lib b) (\<lambda>(s, b).
    and_then (map_err (\<lambda>_. Message ''Parse PeerId error'') (peer_parse al s)) (\<lambda>p. Ok (p, b)))"

record 'peer MinerInfo =
  mi_owner :: Address
  mi_worker :: Address
  mi_pending_worker_key :: WorkerKeyChange
  mi_peer_id :: 'peer
  mi_seal_proof_type :: RegisteredProof
  mi_sector_size :: u64
  mi_window_post_partition_sectors :: u64

definition encode_miner_info :: "'cid libs \<Rightarrow> 'peer actor_libs \<Rightarrow> 'peer MinerInfo \<Rightarrow> bytes" where
  "encode_miner_info lib al i =
    e_array lib 7 @ encode_address lib (mi_owner i) @ encode_address lib (mi_worker i) @
    e_worker_key al (mi_pending_worker_key i) @ encode_peer_id lib al (mi_peer_id i) @
    encode_registered_proof lib (mi_seal_proof_type i) @ e_u64 lib (mi_sector_size i) @
    e_u64 lib (mi_window_post_partition_sectors i)"

definition decode_miner_info :: "'cid libs \<Rightarrow> 'peer actor_libs \<Rightarrow> bytes \<Rightarrow> ('peer MinerInfo \<times> bytes) cbor" where
  "decode_miner_info lib al b =
    and_then (d_array_exact lib 7 b) (\<lambda>b.
    and_then (decode_address lib b) (\<lambda>(owner, b).
    and_then (decode_address lib b) (\<lambda>(worker, b).
    and_then (d_worker_key al b) (\<lambda>(pending, b).
    and_then (decode_peer_id lib al b) (\<lambda>(peer, b).
    and_then (decode_registered_proof lib b) (\<lambda>(seal, b).
    and_then (d_u64 lib b) (\<lambda>(sz, b).
    and_then (d_u64 lib b) (\<lambda>(partition_sectors, b).
      Ok (\<lparr>mi_owner = owner, mi_worker = worker, mi_pending_worker_key = pending, mi_peer_id = peer,
           mi_seal_proof_type = seal, mi_sector_size = sz,
           mi_window_post_partition_sectors = partition_sectors\<rparr>, b)))))))))"

record ('cid, 'peer) State =
  st_info :: "'peer MinerInfo"
  st_pre_commit_deposits :: int
  st_locked_funds :: int
  st_vesting_funds :: 'cid
  st_pre_committed_sectors :: 'cid
  st_sectors :: 'cid
  st_proving_period_start :: u64
  st_new_sectors :: BitField
  st_sector_expirations :: 'cid
  st_deadlines :: 'cid
  st_faults :: BitField
  st_fault_epochs :: 'cid
  st_recoveries :: BitField
  st_post_submissions :: BitField

definition encode_state :: "bool \<Rightarrow> 'cid libs \<Rightarrow> 'peer actor_libs \<Rightarrow> ('cid, 'peer) State \<Rightarrow> bytes rle_result" where
  "encode_state oc lib al s =
    and_then (encode_bit_field oc lib (st_new_sectors s)) (\<lambda>new_sectors.
    and_then (encode_bit_field oc lib (st_faults s)) (\<lambda>faults.
    and_then (encode_bit_field oc lib (st_recoveries s)) (\<lambda>recoveries.
    and_then (encode_bit_field oc lib (st_post_submissions s)) (\<lambda>post_submissions.
      Ok (e_array lib 14 @ encode_miner_info lib al (st_info s) @
          encode_bigint lib (st_pre_commit_deposits s) @ encode_bigint lib (st_locked_funds s) @
          e_cid lib (st_vesting_funds s) @ e_cid lib (st_pre_committed_sectors s) @ e_cid lib (st_sectors s) @
          e_i64 lib (st_proving_period_start s) @ new_sectors @ e_cid lib (st_sector_expirations s) @
          e_cid lib (st_deadlines s) @ faults @ e_cid lib (st_fault_epochs s) @ recoveries @ post_submissions)))))"

definition decode_state ::
  "bool \<Rightarrow> 'cid libs \<Rightarrow> 'peer actor_libs \<Rightarrow> bytes \<Rightarrow> (('cid, 'peer) State \<times> bytes) cbor" where
  "decode_state oc lib al b =
    and_then (d_array_exact lib 14 b) (\<lambda>b.
    and_then (decode_miner_info lib al b) (\<lambda>(info, b).
    and_then (decode_bigint lib b) (\<lambda>(deposits, b).
    and_then (decode_bigint lib b) (\<lambda>(locked, b).
    and_then (d_cid lib b) (\<lambda>(vesting, b).
    and_then (d_cid lib b) (\<lambda>(pre_committed, b).
    and_then (d_cid lib b) (\<lambda>(sectors, b).
    and_then (d_i64 lib b) (\<lambda>(period_start, b).
    and_then (decode_bit_field oc lib b) (\<lambda>(new_sectors, b).
    and_then (d_cid lib b) (\<lambda>(expirations, b).
    and_then (d_cid lib b) (\<lambda>(deadlines, b).
    and_then (decode_bit_field oc lib b) (\<lambda>(faults, b).
    and_then (d_cid lib b) (\<lambda>(fault_epochs, b).
    and_then (decode_bit_field oc lib b) (\<lambda>(recoveries, b).
    and_then (decode_bit_field oc lib b) (\<lambda>(post_submissions, b).
      Ok (\<lparr>st_info = info, st_pre_commit_deposits = deposits, st_locked_funds = locked,
           st_vesting_funds = vesting, st_pre_committed_sectors = pre_committed, st_sectors = sectors,
           st_proving_period_start = period_start, st_new_sectors = new_sectors,
           st_sector_expirations = expirations, st_deadlines = deadlines, st_faults = faults,
           st_fault_epochs = fault_epochs, st_recoveries = recoveries,
           st_post_submissions = post_submissions\<rparr>, b))))))))))))))))"


subsection \<open>Round trips\<close>

definition worker_key_ok :: "WorkerKeyChange \<Rightarrow> bool" where
  "worker_key_ok w \<longleftrightarrow> address_cbor_ok (new_worker w)"

definition miner_info_ok :: "'peer MinerInfo \<Rightarrow> bool" where
  "miner_info_ok i \<longleftrightarrow> address_cbor_ok (mi_owner i) \<and> address_cbor_ok (mi_worker i)
     \<and> worker_key_ok (mi_pending_worker_key i)"

definition state_ok :: "bool \<Rightarrow> ('cid, 'peer) State \<Rightarrow> bool" where
  "state_ok oc s \<longleftrightarrow> miner_info_ok (st_info s) \<and> bit_field_ok oc (st_new_sectors s) \<and> bit_field_ok oc (st_faults s)
     \<and> bit_field_ok oc (st_recoveries s) \<and> bit_field_ok oc (st_post_submissions s)"

locale miner_codec = codec_libs lib for lib :: "'cid libs" +
  fixes al :: "'peer actor_libs"
  assumes peer_rt: "peer_parse al (peer_to_string al p) = Ok p"
    and worker_key_rt: "worker_key_ok w \<Longrightarrow> d_worker_key al (e_worker_key al w @ r) = Ok (w, r)"
begin

lemma peer_id_codec: "codec anything (encode_peer_id lib al) (decode_peer_id lib al)"
  by (rule codecI) (simp add: encode_peer_id_def decode_peer_id_def rt peer_rt)

lemma miner_info_codec: "codec miner_info_ok (encode_miner_info lib al) (decode_miner_info lib al)"
  by (rule codecI)
    (simp add: encode_miner_info_def decode_miner_info_def rt address_rt registered_proof_rt worker_key_rt
      codecD [OF peer_id_codec TrueI] miner_info_ok_def)

lemma state_codec:
  assumes "state_ok oc s"
  obtains b where "encode_state oc' lib al s = Ok b" "\<And>r. decode_state oc lib al (b @ r) = Ok (s, r)"
proof -
  obtain n where n: "encode_bit_field oc' lib (st_new_sectors s) = Ok n"
      "\<And>r. decode_bit_field oc lib (n @ r) = Ok (st_new_sectors s, r)"
    using assms bit_field_codec by (metis state_ok_def)
  obtain f where f: "encode_bit_field oc' lib (st_faults s) = Ok f"
      "\<And>r. decode_bit_field oc lib (f @ r) = Ok (st_faults s, r)"
    using assms bit_field_codec by (metis state_ok_def)
  obtain c where c: "encode_bit_field oc' lib (st_recoveries s) = Ok c"
      "\<And>r. decode_bit_field oc lib (c @ r) = Ok (st_recoveries s, r)"
    using assms bit_field_codec by (metis state_ok_def)
  obtain p where p: "encode_bit_field oc' lib (st_post_submissions s) = Ok p"
      "\<And>r. decode_bit_field oc lib (p @ r) = Ok (st_post_submissions s, r)"
    using assms bit_field_codec by (metis state_ok_def)
  have info: "decode_miner_info lib al (encode_miner_info lib al (st_info s) @ r) = Ok (st_info s, r)" for r
    using assms codecD [OF miner_info_codec] by (simp add: state_ok_def)
  show thesis
  proof (rule that)
    show "encode_state oc' lib al s = Ok (e_array lib 14 @ encode_miner_info lib al (st_info s) @
        encode_bigint lib (st_pre_commit_deposits s) @ encode_bigint lib (st_locked_funds s) @
        e_cid lib (st_vesting_funds s) @ e_cid lib (st_pre_committed_sectors s) @ e_cid lib (st_sectors s) @
        e_i64 lib (st_proving_period_start s) @ n @ e_cid lib (st_sector_expirations s) @
        e_cid lib (st_deadlines s) @ f @ e_cid lib (st_fault_epochs s) @ c @ p)" (is "_ = Ok ?b")
      by (simp add: encode_state_def n f c p)
    show "decode_state oc lib al (?b @ r) = Ok (s, r)" for r
      by (simp add: decode_state_def rt info bigint_rt n f c p)
  qed
qed

end


subsection \<open>Properties\<close>

text \<open>
  An instance of the arguments: peer identifiers that are their text, and a pair for the derived
  codec.
\<close>

definition plain_actor :: "string actor_libs" where
  "plain_actor =
    \<lparr>peer_to_string = id, peer_parse = Ok,
     e_worker_key = (\<lambda>w. e_array rfc7049 2 @ encode_address rfc7049 (new_worker w) @ e_i64 rfc7049 (effective_at w)),
     d_worker_key = (\<lambda>b.
       and_then (d_array_exact rfc7049 2 b) (\<lambda>b.
       and_then (decode_address rfc7049 b) (\<lambda>(w, b).
       and_then (d_i64 rfc7049 b) (\<lambda>(e, b). Ok (\<lparr>new_worker = w, effective_at = e\<rparr>, b)))))\<rparr>"

interpretation plain_actor: miner_codec rfc7049 plain_actor
proof unfold_locales
  show "d_worker_key plain_actor (e_worker_key plain_actor w @ r) = Ok (w, r)" if "worker_key_ok w" for w r
    using that by (simp add: plain_actor_def worker_key_ok_def rfc.rt codec_libs.address_rt [OF rfc.codec_libs_axioms])
qed (simp add: plain_actor_def)

text \<open>
  C36: The state of a miner actor survives its CBOR form: encoding a state with proper addresses and bit
  fields of admissible size succeeds, and decoding gives the state back and leaves what follows.
  A decoder that finds an array of another length does not return an error but panics.
\<close>
theorem miner_state_roundtrip:
  assumes "miner_codec lib al" "state_ok oc s"
  shows "(\<exists>b. encode_state oc' lib al s = Ok b \<and> (\<forall>r. decode_state oc lib al (b @ r) = Ok (s, r)))
    \<and> (n \<noteq> 14 \<longrightarrow> decode_state oc lib al (e_array lib n @ r) = Panic)"
proof
  show "\<exists>b. encode_state oc' lib al s = Ok b \<and> (\<forall>r. decode_state oc lib al (b @ r) = Ok (s, r))"
    using miner_codec.state_codec [OF assms] by metis
  have "codec_libs lib" using assms(1) by (simp add: miner_codec_def)
  then show "n \<noteq> 14 \<longrightarrow> decode_state oc lib al (e_array lib n @ r) = Panic"
    by (simp add: decode_state_def codec_libs.array_exact_rt)
qed

definition sample_state :: "(bytes, string) State" where
  "sample_state =
    (let a = \<lparr>protocol = Bls, payload = replicate 48 7\<rparr>
     in \<lparr>st_info = \<lparr>mi_owner = a, mi_worker = a, mi_pending_worker_key = \<lparr>new_worker = a, effective_at = 5\<rparr>,
           mi_peer_id = ''peer'', mi_seal_proof_type = StackedDRG2KiBSeal, mi_sector_size = 2048,
           mi_window_post_partition_sectors = 2\<rparr>,
         st_pre_commit_deposits = 3, st_locked_funds = - 4, st_vesting_funds = [1], st_pre_committed_sectors = [2],
         st_sectors = [3], st_proving_period_start = 1, st_new_sectors = {2, 7}, st_sector_expirations = [4],
         st_deadlines = [5], st_faults = {}, st_fault_epochs = [6], st_recoveries = {}, st_post_submissions = {1}\<rparr>)"

theorem miner_state_roundtrip_witness:
  "\<exists>b. encode_state True rfc7049 plain_actor sample_state = Ok b
    \<and> (\<forall>r. decode_state True rfc7049 plain_actor (b @ r) = Ok (sample_state, r))"
proof -
  have "state_ok True sample_state"
    by (simp add: sample_state_def state_ok_def miner_info_ok_def worker_key_ok_def address_cbor_ok_def payload_len_ok_def
        bit_field_ok_def OBJECT_MAX_SIZE_def BLS_PUBLIC_KEY_LEN_def Let_def)
  from miner_state_roundtrip [OF plain_actor.miner_codec_axioms this] show ?thesis by blast
qed

end
