(* ===== verification/Net_Service.thy ===== *)
theory Net_Service
  imports Rpc_Protocol
begin

text \<open>
  The path of an event through the node: the behaviour of the swarm (\<open>src/libp2p/src/behaviour.rs\<close>), the
  stream of its events (\<open>src/libp2p/src/service.rs\<close>), the task that connects it with the channels
  (\<open>src/network/src/service.rs\<close>) and the task that handles messages
  (\<open>src/network/src/message_handler.rs\<close>).

  The swarm of \<open>libp2p\<close> returns the events that the behaviour generates when it is polled; what it does
  besides is not modelled. Topics are the strings of their hashes. \<open>nw_rpc\<close> is the queue of the request/response
  behaviour, of which this path only appends. The channels are unbounded: sending fails only when the receiving task has ended.
\<close>

definition HELLO_TOPIC :: string where "HELLO_TOPIC = ''/fil/hello''"
definition BLOCKS_TOPIC :: string where "BLOCKS_TOPIC = ''/fil/blocks''"
definition MESSAGES_TOPIC :: string where "MESSAGES_TOPIC = ''/fil/messages''"

lemmas topic_defs = HELLO_TOPIC_def BLOCKS_TOPIC_def MESSAGES_TOPIC_def

datatype ('peer, 'mid, 'cid) BehaviourEvent =
    EvRPC 'peer "'cid RPCEvent" | EvHelloSubscribed 'peer | EvDiscoveredPeer 'peer | EvExpiredPeer 'peer
  | EvGossipMessage 'mid 'peer "string list" bytes

datatype ('peer, 'mid, 'cid) Libp2pEvent =
    LpPubsubMessage 'mid 'peer "string list" bytes | LpHelloSubscribed 'peer | LpRPC 'peer "'cid RPCEvent"

datatype ('peer, 'mid, 'cid) HandlerMessage =
    SayHello 'peer | HmRPC 'peer "'cid RPCEvent" | HmPubsubMessage 'mid 'peer "string list" bytes

datatype ('peer, 'cid) NetworkMessage = NmPubsubMessage string bytes | NmRPC 'peer "'cid RPCEvent"

datatype 'peer MdnsEvent = Discovered "('peer \<times> string) list" | Expired "('peer \<times> string) list"

datatype ('peer, 'mid) GossipsubEvent =
    GossipMessage 'peer 'mid "string list" bytes | Subscribed 'peer string | Unsubscribed 'peer string

record ('peer, 'mid, 'cid) network =
  nw_events :: "('peer, 'mid, 'cid) BehaviourEvent list"
  nw_rpc :: "('peer, 'cid) RPC_behaviour"
  nw_published :: "(string \<times> bytes) list"
  nw_dialed :: "'peer list"
  nw_recv :: "('peer, 'cid) NetworkMessage list"
  nw_mail :: "('peer, 'mid, 'cid) HandlerMessage list"
  nw_service :: bool
  nw_handler :: bool


subsection \<open>The behaviour\<close>

definition inject_rpc :: "('peer, 'cid) RPCMessage \<Rightarrow> ('peer, 'mid, 'cid) network \<Rightarrow> ('peer, 'mid, 'cid) network" where
  "inject_rpc event nw =
    (case event of
       PeerDialed p \<Rightarrow> nw
     | PeerDisconnected p \<Rightarrow> nw
     | RPC p e \<Rightarrow> nw\<lparr>nw_events := nw_events nw @ [EvRPC p e]\<rparr>)"

definition inject_mdns ::
  "('peer \<Rightarrow> bool) \<Rightarrow> 'peer MdnsEvent \<Rightarrow> ('peer, 'mid, 'cid) network \<Rightarrow> ('peer, 'mid, 'cid) network" where
  "inject_mdns has_node event nw =
    (case event of
       Discovered ps \<Rightarrow> nw\<lparr>nw_events := nw_events nw @ map (EvDiscoveredPeer \<circ> fst) ps\<rparr>
     | Expired ps \<Rightarrow> nw\<lparr>nw_events := nw_events nw @ map EvExpiredPeer (filter (\<lambda>p. \<not> has_node p) (map fst ps))\<rparr>)"

definition inject_gossip :: "('peer, 'mid) GossipsubEvent \<Rightarrow> ('peer, 'mid, 'cid) network \<Rightarrow> ('peer, 'mid, 'cid) network" where
  "inject_gossip event nw =
    (case event of
       GossipMessage source i topics data \<Rightarrow> nw\<lparr>nw_events := nw_events nw @ [EvGossipMessage i source topics data]\<rparr>
     | Subscribed p topic \<Rightarrow>
         if topic = HELLO_TOPIC then nw\<lparr>nw_events := nw_events nw @ [EvHelloSubscribed p]\<rparr> else nw
     | Unsubscribed p topic \<Rightarrow> nw)"

definition swarm_poll ::
  "('peer, 'mid, 'cid) network \<Rightarrow> ('peer, 'mid, 'cid) network \<times> ('peer, 'mid, 'cid) BehaviourEvent option" where
  "swarm_poll nw =
    (case nw_events nw of [] \<Rightarrow> (nw, None) | e # es \<Rightarrow> (nw\<lparr>nw_events := es\<rparr>, Some e))"


subsection \<open>The stream of events\<close>

function libp2p_poll ::
  "('peer, 'mid, 'cid) network \<Rightarrow> ('peer, 'mid, 'cid) network \<times> ('peer, 'mid, 'cid) Libp2pEvent option" where
  "libp2p_poll nw =
    (case swarm_poll nw of
       (nw', Some (EvDiscoveredPeer p)) \<Rightarrow> libp2p_poll (nw'\<lparr>nw_dialed := nw_dialed nw' @ [p]\<rparr>)
     | (nw', Some (EvHelloSubscribed p)) \<Rightarrow> (nw', Some (LpHelloSubscribed p))
     | (nw', Some (EvRPC p e)) \<Rightarrow> (nw', Some (LpRPC p e))
     | (nw', Some (EvExpiredPeer p)) \<Rightarrow> libp2p_poll nw'
     | (nw', Some (EvGossipMessage i source topics data)) \<Rightarrow> (nw', Some (LpPubsubMessage i source topics data))
     | (nw', None) \<Rightarrow> (nw', None))"
  by pat_completeness auto
termination
  by (relation "measure (length \<circ> nw_events)") (auto simp: swarm_poll_def split: list.splits)

declare libp2p_poll.simps [simp del]

lemma libp2p_poll_Nil: "nw_events nw = [] \<Longrightarrow> libp2p_poll nw = (nw, None)"
  by (subst libp2p_poll.simps) (simp add: swarm_poll_def)

lemma libp2p_poll_Cons:
  "nw_events nw = e # es \<Longrightarrow> libp2p_poll nw =
    (case e of
       EvDiscoveredPeer p \<Rightarrow> libp2p_poll (nw\<lparr>nw_events := es, nw_dialed := nw_dialed nw @ [p]\<rparr>)
     | EvHelloSubscribed p \<Rightarrow> (nw\<lparr>nw_events := es\<rparr>, Some (LpHelloSubscribed p))
     | EvRPC p ev \<Rightarrow> (nw\<lparr>nw_events := es\<rparr>, Some (LpRPC p ev))
     | EvExpiredPeer p \<Rightarrow> libp2p_poll (nw\<lparr>nw_events := es\<rparr>)
     | EvGossipMessage i source topics data \<Rightarrow> (nw\<lparr>nw_events := es\<rparr>, Some (LpPubsubMessage i source topics data)))"
  by (subst libp2p_poll.simps) (simp add: swarm_poll_def split: BehaviourEvent.split)

lemma libp2p_poll_less: "libp2p_poll nw = (nw', Some e) \<Longrightarrow> length (nw_events nw') < length (nw_events nw)"
proof (induction "nw_events nw" arbitrary: nw)
  case Nil
  then show ?case by (simp add: libp2p_poll_Nil)
next
  case (Cons ev evs)
  note ev = Cons.hyps(2) [symmetric]
  show ?case
  proof (cases ev)
    case (EvDiscoveredPeer p)
    then show ?thesis
      using Cons.prems Cons.hyps(1) [of "nw\<lparr>nw_events := evs, nw_dialed := nw_dialed nw @ [p]\<rparr>"] ev
      by (simp add: libp2p_poll_Cons)
  next
    case (EvExpiredPeer p)
    then show ?thesis
      using Cons.prems Cons.hyps(1) [of "nw\<lparr>nw_events := evs\<rparr>"] ev by (simp add: libp2p_poll_Cons)
  qed (use Cons.prems ev in \<open>auto simp: libp2p_poll_Cons\<close>)
qed


subsection \<open>The network task\<close>

primrec network_send_event :: "('peer, 'cid) NetworkMessage \<Rightarrow> ('peer, 'mid, 'cid) network \<Rightarrow> ('peer, 'mid, 'cid) network" where
  "network_send_event (NmRPC p e) nw = nw\<lparr>nw_rpc := send_rpc (nw_rpc nw) p e\<rparr>"
| "network_send_event (NmPubsubMessage topic m) nw = nw\<lparr>nw_published := nw_published nw @ [(topic, m)]\<rparr>"

primrec handler_message :: "('peer, 'mid, 'cid) Libp2pEvent \<Rightarrow> ('peer, 'mid, 'cid) HandlerMessage" where
  "handler_message (LpPubsubMessage i source topics data) = HmPubsubMessage i source topics data"
| "handler_message (LpRPC p e) = HmRPC p e"
| "handler_message (LpHelloSubscribed p) = SayHello p"

definition handler_try_send :: "('peer, 'mid, 'cid) HandlerMessage \<Rightarrow> ('peer, 'mid, 'cid) network \<Rightarrow> ('peer, 'mid, 'cid) network" where
  "handler_try_send m nw = (if nw_handler nw then nw\<lparr>nw_mail := nw_mail nw @ [m]\<rparr> else nw)"

function deliver_events :: "('peer, 'mid, 'cid) network \<Rightarrow> ('peer, 'mid, 'cid) network" where
  "deliver_events nw =
    (case libp2p_poll nw of
       (nw', Some e) \<Rightarrow> deliver_events (handler_try_send (handler_message e) nw')
     | (nw', None) \<Rightarrow> nw')"
  by pat_completeness auto
termination
  by (relation "measure (length \<circ> nw_events)") (auto simp: handler_try_send_def dest!: libp2p_poll_less [OF sym])

declare deliver_events.simps [simp del]

text \<open>One poll of \<open>network_service\<close>: first what is to be sent, then what has been received.\<close>

definition network_service :: "('peer, 'mid, 'cid) network \<Rightarrow> ('peer, 'mid, 'cid) network" where
  "network_service nw =
    (if nw_service nw then deliver_events (fold network_send_event (nw_recv nw) (nw\<lparr>nw_recv := []\<rparr>)) else nw)"


subsection \<open>The message handler\<close>

definition network_try_send :: "('peer, 'cid) NetworkMessage \<Rightarrow> ('peer, 'mid, 'cid) network \<Rightarrow> ('peer, 'mid, 'cid) network" where
  "network_try_send m nw = (if nw_service nw then nw\<lparr>nw_recv := nw_recv nw @ [m]\<rparr> else nw)"

definition on_say_hello :: "'cid \<Rightarrow> 'peer \<Rightarrow> ('peer, 'mid, 'cid) network \<Rightarrow> ('peer, 'mid, 'cid) network" where
  "on_say_hello genesis p =
    network_try_send (NmRPC p (Request 0 (ReqStatus
      \<lparr>heaviest_tip_set = [], heaviest_tip_set_weight = 8888, genesis_hash = genesis\<rparr>)))"

definition process_hello_message :: "'peer \<Rightarrow> ('peer, 'mid, 'cid) network \<Rightarrow> ('peer, 'mid, 'cid) network" where
  "process_hello_message source =
    network_try_send (NmRPC source (Request 0 (ReqBlockSync \<lparr>bs_start = [], bs_length = 777, bs_options = 111\<rparr>)))"

text \<open>The flag says that a topic was reached whose processing is \<open>unimplemented!\<close>.\<close>

fun on_pubsub_message :: "'peer \<Rightarrow> string list \<Rightarrow> ('peer, 'mid, 'cid) network \<Rightarrow> ('peer, 'mid, 'cid) network \<times> bool" where
  "on_pubsub_message source [] nw = (nw, False)"
| "on_pubsub_message source (topic # topics) nw =
    (if topic = HELLO_TOPIC then on_pubsub_message source topics (process_hello_message source nw)
     else if topic = BLOCKS_TOPIC then (nw, True)
     else if topic = MESSAGES_TOPIC then (nw, True)
     else on_pubsub_message source topics nw)"

primrec handle_message ::
  "'cid \<Rightarrow> ('peer, 'mid, 'cid) HandlerMessage \<Rightarrow> ('peer, 'mid, 'cid) network \<Rightarrow> ('peer, 'mid, 'cid) network \<times> bool" where
  "handle_message genesis (SayHello p) nw = (on_say_hello genesis p nw, False)"
| "handle_message genesis (HmRPC p e) nw = (nw, False)"
| "handle_message genesis (HmPubsubMessage i source topics data) nw = on_pubsub_message source topics nw"

text \<open>One message of the handler's task: a panic ends the task and drops its channel.\<close>

definition handler_step :: "'cid \<Rightarrow> ('peer, 'mid, 'cid) network \<Rightarrow> ('peer, 'mid, 'cid) network" where
  "handler_step genesis nw =
    (case nw_mail nw of
       [] \<Rightarrow> nw
     | m # ms \<Rightarrow>
         (let (nw', panicked) = handle_message genesis m (nw\<lparr>nw_mail := ms\<rparr>)
          in if panicked then nw'\<lparr>nw_handler := False, nw_mail := []\<rparr> else nw'))"


subsection \<open>What the two tasks do\<close>

text \<open>The contract: which events reach the handler, which peers are dialed, what the handler answers.\<close>

fun forwarded :: "('peer, 'mid, 'cid) BehaviourEvent \<Rightarrow> ('peer, 'mid, 'cid) HandlerMessage list" where
  "forwarded (EvRPC p e) = [HmRPC p e]"
| "forwarded (EvHelloSubscribed p) = [SayHello p]"
| "forwarded (EvGossipMessage i source topics data) = [HmPubsubMessage i source topics data]"
| "forwarded _ = []"

fun discovered :: "('peer, 'mid, 'cid) BehaviourEvent \<Rightarrow> 'peer list" where
  "discovered (EvDiscoveredPeer p) = [p]"
| "discovered _ = []"

definition unimplemented_topic :: "string \<Rightarrow> bool" where
  "unimplemented_topic topic \<longleftrightarrow> topic \<in> {BLOCKS_TOPIC, MESSAGES_TOPIC}"

definition status_request :: "'cid \<Rightarrow> 'peer \<Rightarrow> ('peer, 'cid) NetworkMessage" where
  "status_request genesis p = NmRPC p (Request 0 (ReqStatus
     \<lparr>heaviest_tip_set = [], heaviest_tip_set_weight = 8888, genesis_hash = genesis\<rparr>))"

definition block_sync_request :: "'peer \<Rightarrow> ('peer, 'cid) NetworkMessage" where
  "block_sync_request p = NmRPC p (Request 0 (ReqBlockSync \<lparr>bs_start = [], bs_length = 777, bs_options = 111\<rparr>))"

primrec panics :: "('peer, 'mid, 'cid) HandlerMessage \<Rightarrow> bool" where
  "panics (SayHello p) = False"
| "panics (HmRPC p e) = False"
| "panics (HmPubsubMessage i source topics data) = list_ex unimplemented_topic topics"

primrec answers :: "'cid \<Rightarrow> ('peer, 'mid, 'cid) HandlerMessage \<Rightarrow> ('peer, 'cid) NetworkMessage list" where
  "answers genesis (SayHello p) = [status_request genesis p]"
| "answers genesis (HmRPC p e) = []"
| "answers genesis (HmPubsubMessage i source topics data) =
     map (\<lambda>_. block_sync_request source)
       (filter (\<lambda>t. t = HELLO_TOPIC) (takeWhile (\<lambda>t. \<not> unimplemented_topic t) topics))"

fun rpc_sends :: "('peer, 'cid) NetworkMessage list \<Rightarrow> ('peer, 'cid) BehaviourAction list" where
  "rpc_sends [] = []"
| "rpc_sends (NmRPC p e # ms) = SendEvent p e # rpc_sends ms"
| "rpc_sends (NmPubsubMessage t d # ms) = rpc_sends ms"

fun publications :: "('peer, 'cid) NetworkMessage list \<Rightarrow> (string \<times> bytes) list" where
  "publications [] = []"
| "publications (NmRPC p e # ms) = publications ms"
| "publications (NmPubsubMessage t d # ms) = (t, d) # publications ms"

lemma rpc_sends_append [simp]: "rpc_sends (xs @ ys) = rpc_sends xs @ rpc_sends ys"
  by (induction xs rule: rpc_sends.induct) simp_all

lemma publications_append [simp]: "publications (xs @ ys) = publications xs @ publications ys"
  by (induction xs rule: publications.induct) simp_all

lemma answers_requests: "publications (answers genesis m) = []"
proof -
  have "publications (map (\<lambda>_. block_sync_request p :: ('a, 'b) NetworkMessage) ts) = []" for p :: 'a and ts :: "string list"
    by (induction ts) (simp_all add: block_sync_request_def)
  then show ?thesis by (cases m) (simp_all add: status_request_def)
qed

lemma all_answers_requests: "publications (concat (map (answers genesis) ms)) = []"
  by (induction ms) (simp_all add: answers_requests)

lemma send_all:
  "fold network_send_event ms nw =
    nw\<lparr>nw_rpc := nw_rpc nw @ rpc_sends ms, nw_published := nw_published nw @ publications ms\<rparr>"
proof (induction ms arbitrary: nw)
  case (Cons m ms)
  then show ?case by (cases m) (simp_all add: send_rpc_def)
qed simp

lemma deliver_events_Cons:
  assumes "nw_events nw = e # es"
  shows "deliver_events nw = deliver_events
    (nw\<lparr>nw_events := es, nw_dialed := nw_dialed nw @ discovered e,
        nw_mail := if nw_handler nw then nw_mail nw @ forwarded e else nw_mail nw\<rparr>)"
proof (cases e)
  case (EvDiscoveredPeer p)
  then have "libp2p_poll nw = libp2p_poll (nw\<lparr>nw_events := es, nw_dialed := nw_dialed nw @ [p]\<rparr>)"
    using assms by (simp add: libp2p_poll_Cons)
  then show ?thesis using EvDiscoveredPeer by (subst (1 2) deliver_events.simps) simp
next
  case (EvExpiredPeer p)
  then have "libp2p_poll nw = libp2p_poll (nw\<lparr>nw_events := es\<rparr>)"
    using assms by (simp add: libp2p_poll_Cons)
  then show ?thesis using EvExpiredPeer by (subst (1 2) deliver_events.simps) simp
qed (use assms in \<open>subst deliver_events.simps, simp add: libp2p_poll_Cons handler_try_send_def\<close>)+

lemma deliver_all:
  "deliver_events nw =
    nw\<lparr>nw_events := [], nw_dialed := nw_dialed nw @ concat (map discovered (nw_events nw)),
       nw_mail := if nw_handler nw then nw_mail nw @ concat (map forwarded (nw_events nw)) else nw_mail nw\<rparr>"
proof (induction "nw_events nw" arbitrary: nw)
  case Nil
  then show ?case by (subst deliver_events.simps) (simp add: libp2p_poll_Nil)
next
  case (Cons e es)
  note ev = Cons.hyps(2) [symmetric]
  show ?case
    unfolding deliver_events_Cons [OF ev]
    by (subst Cons.hyps(1)) (simp_all add: ev)
qed

lemma network_service_result:
  "nw_service nw \<Longrightarrow> network_service nw =
    nw\<lparr>nw_events := [], nw_recv := [],
       nw_rpc := nw_rpc nw @ rpc_sends (nw_recv nw),
       nw_published := nw_published nw @ publications (nw_recv nw),
       nw_dialed := nw_dialed nw @ concat (map discovered (nw_events nw)),
       nw_mail := if nw_handler nw then nw_mail nw @ concat (map forwarded (nw_events nw)) else nw_mail nw\<rparr>"
  by (simp add: network_service_def send_all deliver_all)

lemma pubsub_result:
  "nw_service nw \<Longrightarrow> on_pubsub_message source topics nw =
    (nw\<lparr>nw_recv := nw_recv nw @ map (\<lambda>_. block_sync_request source)
       (filter (\<lambda>t. t = HELLO_TOPIC) (takeWhile (\<lambda>t. \<not> unimplemented_topic t) topics))\<rparr>,
     list_ex unimplemented_topic topics)"
  by (induction source topics nw rule: on_pubsub_message.induct)
    (simp_all add: process_hello_message_def network_try_send_def block_sync_request_def unimplemented_topic_def topic_defs)

lemma handle_message_result:
  "nw_service nw \<Longrightarrow>
    handle_message genesis m nw = (nw\<lparr>nw_recv := nw_recv nw @ answers genesis m\<rparr>, panics m)"
  by (cases m) (simp_all add: pubsub_result on_say_hello_def network_try_send_def status_request_def)

lemma handler_step_result:
  "nw_service nw \<Longrightarrow> nw_mail nw = m # ms \<Longrightarrow> handler_step genesis nw =
    nw\<lparr>nw_recv := nw_recv nw @ answers genesis m, nw_mail := if panics m then [] else ms,
       nw_handler := nw_handler nw \<and> \<not> panics m\<rparr>"
  by (simp add: handler_step_def handle_message_result)

lemma handler_steps_result:
  "nw_service nw \<Longrightarrow> list_all (\<lambda>m. \<not> panics m) (nw_mail nw) \<Longrightarrow>
    (handler_step genesis ^^ length (nw_mail nw)) nw =
    nw\<lparr>nw_recv := nw_recv nw @ concat (map (answers genesis) (nw_mail nw)), nw_mail := []\<rparr>"
proof (induction "nw_mail nw" arbitrary: nw)
  case (Cons m ms)
  note mail = Cons.hyps(2) [symmetric]
  show ?case
    using Cons.prems Cons.hyps(1) [of "handler_step genesis nw"]
    by (simp add: mail handler_step_result funpow_swap1 [symmetric] del: funpow.simps(2) add: funpow_Suc_right)
qed simp


subsection \<open>Runs\<close>

text \<open>\<open>network_steps genesis nw ms nw'\<close>: a run in which other parts of the node send \<open>ms\<close> to the network task.\<close>

inductive network_steps ::
  "'cid \<Rightarrow> ('peer, 'mid, 'cid) network \<Rightarrow> ('peer, 'cid) NetworkMessage list \<Rightarrow> ('peer, 'mid, 'cid) network \<Rightarrow> bool"
  for genesis nw0 where
  start: "network_steps genesis nw0 [] nw0"
| rpc: "network_steps genesis nw0 ms nw \<Longrightarrow> network_steps genesis nw0 ms (inject_rpc r nw)"
| mdns: "network_steps genesis nw0 ms nw \<Longrightarrow> network_steps genesis nw0 ms (inject_mdns has_node d nw)"
| gossip: "network_steps genesis nw0 ms nw \<Longrightarrow> network_steps genesis nw0 ms (inject_gossip g nw)"
| service: "network_steps genesis nw0 ms nw \<Longrightarrow> network_steps genesis nw0 ms (network_service nw)"
| handler: "network_steps genesis nw0 ms nw \<Longrightarrow> network_steps genesis nw0 ms (handler_step genesis nw)"
| send: "network_steps genesis nw0 ms nw \<Longrightarrow> nw_service nw \<Longrightarrow> network_steps genesis nw0 (ms @ [m]) (network_try_send m nw)"


text \<open>With the handler's task ended, its channel stays closed and every request comes from elsewhere in the node.\<close>

definition handler_ended :: "('peer, 'mid, 'cid) network \<Rightarrow> bool" where
  "handler_ended nw \<longleftrightarrow> \<not> nw_handler nw \<and> nw_mail nw = []"

definition outgoing :: "('peer, 'mid, 'cid) network \<Rightarrow> ('peer, 'cid) BehaviourAction list" where
  "outgoing nw = nw_rpc nw @ rpc_sends (nw_recv nw)"

lemma inject_outgoing [simp]:
  "handler_ended (inject_rpc r nw) = handler_ended nw" "outgoing (inject_rpc r nw) = outgoing nw"
  "handler_ended (inject_mdns h d nw) = handler_ended nw" "outgoing (inject_mdns h d nw) = outgoing nw"
  "handler_ended (inject_gossip g nw) = handler_ended nw" "outgoing (inject_gossip g nw) = outgoing nw"
  by (simp_all add: handler_ended_def outgoing_def inject_rpc_def inject_mdns_def inject_gossip_def
      split: RPCMessage.split MdnsEvent.split GossipsubEvent.split)

lemma service_outgoing [simp]:
  "handler_ended nw \<Longrightarrow> handler_ended (network_service nw)" "outgoing (network_service nw) = outgoing nw"
  by (cases "nw_service nw";
      simp add: handler_ended_def outgoing_def network_service_result; simp add: network_service_def)+

lemma ended_run:
  "network_steps genesis nw0 ms nw \<Longrightarrow> handler_ended nw0 \<Longrightarrow>
    handler_ended nw \<and> outgoing nw = outgoing nw0 @ rpc_sends ms"
proof (induction rule: network_steps.induct)
  case (handler ms nw)
  then show ?case by (simp add: handler_step_def handler_ended_def)
next
  case (send ms nw m)
  then show ?case by (simp add: network_try_send_def handler_ended_def outgoing_def)
qed simp_all


subsection \<open>Properties\<close>

definition quiet_network :: "('peer, 'mid, 'cid) network" where
  "quiet_network = \<lparr>nw_events = [], nw_rpc = [], nw_published = [], nw_dialed = [], nw_recv = [], nw_mail = [],
     nw_service = True, nw_handler = True\<rparr>"



text \<open>C19: A gossip on the topic for blocks or the one for messages, both of which the node subscribes to, ends the
  handler's task for good: the answers to the topics before it are still sent, and in every run that follows nothing is left for
  a handler and the requests sent are exactly those that other parts of the node hand to the network task.\<close>

theorem gossip_ends_handler:
  fixes nw :: "('peer, 'mid, 'cid) network"
  assumes "nw_service nw" "nw_mail nw = HmPubsubMessage i source topics data # ms"
    and "BLOCKS_TOPIC \<in> set topics \<or> MESSAGES_TOPIC \<in> set topics"
    and "network_steps genesis (handler_step genesis nw) sent nw'"
  shows "\<not> nw_handler nw' \<and> nw_mail nw' = [] \<and>
    nw_rpc nw' @ rpc_sends (nw_recv nw') =
      nw_rpc nw @ rpc_sends (nw_recv nw) @
      rpc_sends (answers genesis (HmPubsubMessage i source topics data :: ('peer, 'mid, 'cid) HandlerMessage)) @
      rpc_sends sent"
proof -
  have "panics (HmPubsubMessage i source topics data :: ('peer, 'mid, 'cid) HandlerMessage)"
    using assms(3) by (auto simp: list_ex_iff unimplemented_topic_def)
  then have step: "handler_step genesis nw =
    nw\<lparr>nw_recv := nw_recv nw @ answers genesis (HmPubsubMessage i source topics data :: ('peer, 'mid, 'cid) HandlerMessage),
       nw_mail := [], nw_handler := False\<rparr>"
    using handler_step_result [OF assms(1,2), of genesis] by simp
  then show ?thesis
    using ended_run [OF assms(4)] by (simp add: handler_ended_def outgoing_def)
qed

theorem gossip_ends_handler_witness:
  "let nw = quiet_network\<lparr>nw_mail := [HmPubsubMessage (7 :: nat) (2 :: nat) [HELLO_TOPIC, BLOCKS_TOPIC] [], SayHello 3]\<rparr>;
       nw' = network_service (handler_step (5 :: nat) nw)
   in \<not> nw_handler nw' \<and> nw_mail nw' = [] \<and> nw_rpc nw' = rpc_sends [block_sync_request 2]"
proof -
  define nw :: "(nat, nat, nat) network" where
    "nw = quiet_network\<lparr>nw_mail := [HmPubsubMessage (7 :: nat) (2 :: nat) [HELLO_TOPIC, BLOCKS_TOPIC] [], SayHello 3]\<rparr>"
  have recv: "nw_recv (network_service (handler_step 5 nw)) = []"
    by (simp add: nw_def quiet_network_def handler_step_result network_service_result)
  have run: "network_steps 5 (handler_step 5 nw) [] (network_service (handler_step 5 nw))"
    by (intro network_steps.service network_steps.start)
  have "\<not> nw_handler (network_service (handler_step 5 nw)) \<and> nw_mail (network_service (handler_step 5 nw)) = [] \<and>
    nw_rpc (network_service (handler_step 5 nw)) = rpc_sends [block_sync_request 2]"
    using gossip_ends_handler [OF _ _ _ run, of 7 2 "[HELLO_TOPIC, BLOCKS_TOPIC]" "[]" "[SayHello 3]"] recv
    by (simp add: nw_def quiet_network_def unimplemented_topic_def topic_defs)
  then show ?thesis by (simp add: nw_def Let_def)
qed

end
