(* ===== verification/Net_Params.thy ===== *)
theory Net_Params
  imports Plum_Prelude
begin

text \<open>
  The parameters of a network (\<open>src/params/src/lib.rs\<close>) and their initialisation behind a \<open>Once\<close> of the
  standard library. Epochs (\<open>i64\<close>) and the other numbers are integers: every value is a constant, and
  \<open>Params_init_bounds\<close> shows that each fits its width. A call that panics leaves the \<open>Once\<close> poisoned, and every
  later call panics.
\<close>

datatype Network = Mainnet | Testnet | Dev

record Fil =
  total_filecoin :: int
  mining_reward_total :: int
  initial_reward :: int
  filecoin_precision :: int

record Chain =
  sector_sizes :: "int list"
  block_delay :: int
  propagation_delay :: int
  fallback_po_st_delay :: int
  slashable_power_delay :: int
  interactive_po_rep_delay :: int
  interactive_po_rep_confidence :: int
  minimum_miner_power :: int

record Params =
  unixfs_chunk_size :: int
  unixfs_links_per_level :: int
  sector_challenge_ratio_div :: int
  payment_channel_closing_delay :: int
  allowable_clock_drift :: int
  fork_length_threshold :: int
  blocks_per_epoch :: int
  finality :: int
  wratio_num :: int
  wratio_den :: int
  seal_randomness_lookback :: int
  seal_randomness_lookback_limit :: int
  max_seal_lookback :: int
  ec_randomness_lookback :: int
  power_collateral_proportion :: int
  per_capita_collateral_proportion :: int
  collateral_precision :: int
  bad_block_cache_size :: int
  bls_signature_cache_size :: int
  block_message_limit :: int
  miner_max_sectors :: int
  chain :: Chain
  fil :: Fil

definition testnet_chain :: Chain where
  "testnet_chain =
    \<lparr>sector_sizes = [32 * 2 ^ 30, 0, 0, 0, 0, 0, 0, 0], block_delay = 45, propagation_delay = 6,
     fallback_po_st_delay = 30, slashable_power_delay = 200, interactive_po_rep_delay = 8,
     interactive_po_rep_confidence = 6, minimum_miner_power = 512 * 2 ^ 30\<rparr>"

definition dev_chain :: Chain where
  "dev_chain =
    \<lparr>sector_sizes = [1024, 0, 0, 0, 0, 0, 0, 0], block_delay = 6, propagation_delay = 3,
     fallback_po_st_delay = 10, slashable_power_delay = 20, interactive_po_rep_delay = 2,
     interactive_po_rep_confidence = 6, minimum_miner_power = 2 * 2 ^ 10\<rparr>"

definition dev_fil :: Fil where
  "dev_fil =
    \<lparr>total_filecoin = 2000000000, mining_reward_total = 1400000000, initial_reward = 153856861913558700202,
     filecoin_precision = 1000000000000000000\<rparr>"

definition testnet_fil :: Fil where "testnet_fil = dev_fil"

definition params_of :: "Chain \<Rightarrow> Fil \<Rightarrow> Params" where
  "params_of c f =
    (let fin = 500; lookback = fin; limit = lookback + 2000
     in \<lparr>unixfs_chunk_size = 2 ^ 20, unixfs_links_per_level = 1024, sector_challenge_ratio_div = 25,
         payment_channel_closing_delay = 6 * 60 * 60 div block_delay c, allowable_clock_drift = 1,
         fork_length_threshold = fin, blocks_per_epoch = 5, finality = fin, wratio_num = 1, wratio_den = 2,
         seal_randomness_lookback = lookback, seal_randomness_lookback_limit = limit,
         max_seal_lookback = limit + 2000, ec_randomness_lookback = 300, power_collateral_proportion = 5,
         per_capita_collateral_proportion = 1, collateral_precision = 1000, bad_block_cache_size = 2 ^ 15,
         bls_signature_cache_size = 40000, block_message_limit = 512, miner_max_sectors = 2 ^ 48,
         chain = c, fil = f\<rparr>)"

definition Params_init :: "Network \<Rightarrow> (Params, unit) result" where
  "Params_init network =
    (case network of
       Mainnet \<Rightarrow> Panic
     | Testnet \<Rightarrow> Ok (params_of testnet_chain testnet_fil)
     | Dev \<Rightarrow> Ok (params_of dev_chain dev_fil))"

lemma Params_init_bounds:
  "Params_init network = Ok p \<Longrightarrow>
    0 < block_delay (chain p) \<and> length (sector_sizes (chain p)) = 8 \<and>
    (\<forall>x \<in> set (sector_sizes (chain p)) \<union> {payment_channel_closing_delay p, finality p, seal_randomness_lookback p,
        seal_randomness_lookback_limit p, max_seal_lookback p, miner_max_sectors p, minimum_miner_power (chain p),
        filecoin_precision (fil p)}. 0 \<le> x \<and> x < 2 ^ 63) \<and>
    initial_reward (fil p) < 2 ^ 128 \<and>
    seal_randomness_lookback p < seal_randomness_lookback_limit p \<and> seal_randomness_lookback_limit p < max_seal_lookback p"
  by (cases network)
    (auto simp: Params_init_def params_of_def testnet_chain_def dev_chain_def testnet_fil_def dev_fil_def)


subsection \<open>The initialisation\<close>

datatype Once = Incomplete | Complete | Poisoned

record params_state =
  INIT :: Once
  PARAMS :: Params

definition PARAMS_static :: params_state where
  "PARAMS_static =
    \<lparr>INIT = Incomplete,
     PARAMS =
      \<lparr>unixfs_chunk_size = 0, unixfs_links_per_level = 0, sector_challenge_ratio_div = 0,
       payment_channel_closing_delay = 0, allowable_clock_drift = 0, fork_length_threshold = 0,
       blocks_per_epoch = 0, finality = 0, wratio_num = 0, wratio_den = 0, seal_randomness_lookback = 0,
       seal_randomness_lookback_limit = 0, max_seal_lookback = 0, ec_randomness_lookback = 0,
       power_collateral_proportion = 0, per_capita_collateral_proportion = 0, collateral_precision = 0,
       bad_block_cache_size = 0, bls_signature_cache_size = 0, block_message_limit = 0, miner_max_sectors = 0,
       chain =
        \<lparr>sector_sizes = replicate 8 0, block_delay = 0, propagation_delay = 0, fallback_po_st_delay = 0,
         slashable_power_delay = 0, interactive_po_rep_delay = 0, interactive_po_rep_confidence = 0,
         minimum_miner_power = 0\<rparr>,
       fil = \<lparr>total_filecoin = 0, mining_reward_total = 0, initial_reward = 0, filecoin_precision = 0\<rparr>\<rparr>\<rparr>"

definition init_params :: "Network \<Rightarrow> params_state \<Rightarrow> params_state \<times> (unit, unit) result" where
  "init_params network st =
    (case INIT st of
       Incomplete \<Rightarrow>
         (case Params_init network of
            Ok p \<Rightarrow> (st\<lparr>INIT := Complete, PARAMS := p\<rparr>, Ok ())
          | _ \<Rightarrow> (st\<lparr>INIT := Poisoned\<rparr>, Panic))
     | Complete \<Rightarrow> (st, Ok ())
     | Poisoned \<Rightarrow> (st, Panic))"

definition params :: "params_state \<Rightarrow> params_state \<times> (Params, unit) result" where
  "params st = (let (st', r) = init_params Testnet st in (st', and_then r (\<lambda>_. Ok (PARAMS st'))))"


text \<open>The calls of a program, in the order in which the \<open>Once\<close> admits them, and what each of them yields.\<close>

datatype params_call = CallInit Network | CallParams

primrec params_calls :: "params_call list \<Rightarrow> params_state \<Rightarrow> (Params option, unit) result list" where
  "params_calls [] st = []"
| "params_calls (c # cs) st =
    (case c of
       CallInit n \<Rightarrow> (let (st', r) = init_params n st in map_ok (\<lambda>_. None) r # params_calls cs st')
     | CallParams \<Rightarrow> (let (st', r) = params st in map_ok Some r # params_calls cs st'))"

primrec call_network :: "params_call \<Rightarrow> Network" where
  "call_network (CallInit n) = n"
| "call_network CallParams = Testnet"

definition call_result :: "(Params, unit) result \<Rightarrow> params_call \<Rightarrow> (Params option, unit) result" where
  "call_result r c = map_ok (\<lambda>p. case c of CallInit _ \<Rightarrow> None | CallParams \<Rightarrow> Some p) r"

lemma calls_settled:
  "INIT st = Complete \<Longrightarrow> params_calls cs st = map (call_result (Ok (PARAMS st))) cs"
  by (induction cs) (auto simp: init_params_def params_def call_result_def split: params_call.split)

lemma calls_poisoned: "INIT st = Poisoned \<Longrightarrow> params_calls cs st = map (call_result Panic) cs"
  by (induction cs) (auto simp: init_params_def params_def call_result_def split: params_call.split)

text \<open>The first call, whichever it is, fixes the parameters for good: every call of \<open>params\<close> yields the parameters of
  the network of the first call (the test network when that is \<open>params\<close> itself), whatever networks later calls of
  \<open>init_params\<close> name; and when the first call names the main network, that call and all later ones panic.\<close>

lemma params_first_call:
  "params_calls (c # cs) PARAMS_static = map (call_result (Params_init (call_network c))) (c # cs)"
proof (cases "Params_init (call_network c)")
  case (Ok p)
  then show ?thesis
    by (cases c) (simp_all add: params_def init_params_def PARAMS_static_def calls_settled call_result_def)
next
  case (Err e)
  then show ?thesis by (simp add: Params_init_def split: Network.splits)
next
  case Panic
  then show ?thesis
    by (cases c) (simp_all add: params_def init_params_def PARAMS_static_def calls_poisoned call_result_def)
qed

end
