(* ===== verification/Comm_Cid.thy ===== *)
theory Comm_Cid
  imports Plum_Prelude
begin

text \<open>
  The conversion between commitments and content identifiers (\<open>src/primitives/fc/src/commcid.rs\<close>). Identifiers and
  multihashes are those of the \<open>cid\<close> package, which \<open>comm_libs\<close> stands for; \<open>comm_laws\<close> is what its
  documentation promises: the two Filecoin hashes wrap a commitment unchanged under codes of their own, and an identifier
  holds the multihash it was made of.
\<close>

datatype ('code, 'other) ExtCode = FL 'code | OtherCode 'other

record ('code, 'other, 'mh, 'cid) comm_libs =
  FcUnsealedV1 :: 'code
  FcSealedV1 :: 'code
  unsealed_digest :: "bytes \<Rightarrow> 'mh"
  sealed_digest :: "bytes \<Rightarrow> 'mh"
  new_v1_raw :: "'mh \<Rightarrow> 'cid"
  hash_of :: "'cid \<Rightarrow> 'mh"
  algorithm :: "'mh \<Rightarrow> ('code, 'other) ExtCode"
  digest_of :: "'mh \<Rightarrow> bytes"

definition comm_laws :: "('code, 'other, 'mh, 'cid) comm_libs \<Rightarrow> bool" where
  "comm_laws L \<longleftrightarrow>
    FcUnsealedV1 L \<noteq> FcSealedV1 L \<and> (\<forall>h. hash_of L (new_v1_raw L h) = h) \<and>
    (\<forall>c. algorithm L (unsealed_digest L c) = FL (FcUnsealedV1 L) \<and> digest_of L (unsealed_digest L c) = c) \<and>
    (\<forall>c. algorithm L (sealed_digest L c) = FL (FcSealedV1 L) \<and> digest_of L (sealed_digest L c) = c)"

datatype ('code, 'other) CommCidErr =
    InvalidHash "('code, 'other) ExtCode" | UnsupportedMultihashCode 'code | UnexpectedMultihashCode 'code 'code

definition commitment_to_cid ::
  "('code, 'other, 'mh, 'cid) comm_libs \<Rightarrow> bytes \<Rightarrow> 'code \<Rightarrow> ('cid, ('code, 'other) CommCidErr) result" where
  "commitment_to_cid L commitment code =
    (if code = FcUnsealedV1 L then Ok (new_v1_raw L (unsealed_digest L commitment))
     else if code = FcSealedV1 L then Ok (new_v1_raw L (sealed_digest L commitment))
     else Err (UnsupportedMultihashCode code))"

definition cid_to_multihash ::
  "('code, 'other, 'mh, 'cid) comm_libs \<Rightarrow> 'cid \<Rightarrow> 'code \<Rightarrow> ('mh, ('code, 'other) CommCidErr) result" where
  "cid_to_multihash L cid expected =
    (let hash = hash_of L cid
     in case algorithm L hash of
          FL fl_code \<Rightarrow> if fl_code \<noteq> expected then Err (UnexpectedMultihashCode expected fl_code) else Ok hash
        | OtherCode k \<Rightarrow> Err (InvalidHash (OtherCode k)))"

definition cid_to_commitment ::
  "('code, 'other, 'mh, 'cid) comm_libs \<Rightarrow> 'cid \<Rightarrow> 'code \<Rightarrow> (bytes, ('code, 'other) CommCidErr) result" where
  "cid_to_commitment L cid code =
    and_then (cid_to_multihash L cid code) (\<lambda>hash.
    and_then (assertion (length (digest_of L hash) = 32)) (\<lambda>_.
    Ok (digest_of L hash)))"

definition replica_commitment_v1_to_cid where
  "replica_commitment_v1_to_cid L commitment = unwrap (commitment_to_cid L commitment (FcSealedV1 L))"

definition data_commitment_v1_to_cid where
  "data_commitment_v1_to_cid L commitment = unwrap (commitment_to_cid L commitment (FcUnsealedV1 L))"

definition piece_commitment_v1_to_cid where
  "piece_commitment_v1_to_cid L commitment = data_commitment_v1_to_cid L commitment"

definition cid_to_replica_commitment_v1 where
  "cid_to_replica_commitment_v1 L cid = cid_to_commitment L cid (FcSealedV1 L)"

definition cid_to_data_commitment_v1 where
  "cid_to_data_commitment_v1 L cid = cid_to_commitment L cid (FcUnsealedV1 L)"

definition cid_to_piece_commitment_v1 where
  "cid_to_piece_commitment_v1 L cid = cid_to_data_commitment_v1 L cid"

lemmas commcid_defs =
  commitment_to_cid_def cid_to_multihash_def cid_to_commitment_def replica_commitment_v1_to_cid_def
  data_commitment_v1_to_cid_def piece_commitment_v1_to_cid_def cid_to_replica_commitment_v1_def
  cid_to_data_commitment_v1_def cid_to_piece_commitment_v1_def

text \<open>A commitment of 32 bytes is read back from its identifier, and only under its own code.\<close>

lemma commitment_roundtrip:
  assumes "comm_laws L" "length c = 32" "commitment_to_cid L c code = Ok cid"
  shows "cid_to_commitment L cid code' =
    (if code' = code then Ok c else Err (UnexpectedMultihashCode code' code))"
  using assms
  by (auto simp: comm_laws_def commitment_to_cid_def cid_to_commitment_def cid_to_multihash_def assertion_def
      split: if_splits)

lemma versioned_roundtrips:
  assumes "comm_laws L" "length c = 32"
  shows "\<exists>cid. replica_commitment_v1_to_cid L c = (Ok cid :: (_, 'e) result) \<and>
           cid_to_replica_commitment_v1 L cid = Ok c \<and>
           cid_to_data_commitment_v1 L cid = Err (UnexpectedMultihashCode (FcUnsealedV1 L) (FcSealedV1 L))"
    and "\<exists>cid. piece_commitment_v1_to_cid L c = (Ok cid :: (_, 'e) result) \<and>
           cid_to_piece_commitment_v1 L cid = Ok c \<and>
           cid_to_replica_commitment_v1 L cid = Err (UnexpectedMultihashCode (FcSealedV1 L) (FcUnsealedV1 L))"
  using assms by (auto simp: comm_laws_def commcid_defs assertion_def)

text \<open>Reading panics exactly on a digest of another length under the expected code.\<close>

lemma cid_to_commitment_panics:
  "cid_to_commitment L cid code = Panic \<longleftrightarrow>
    algorithm L (hash_of L cid) = FL code \<and> length (digest_of L (hash_of L cid)) \<noteq> 32"
  by (auto simp: cid_to_commitment_def cid_to_multihash_def assertion_def Let_def split: ExtCode.split)

definition plain_comm :: "(bool, unit, bool \<times> bytes, bool \<times> bytes) comm_libs" where
  "plain_comm =
    \<lparr>FcUnsealedV1 = False, FcSealedV1 = True, unsealed_digest = Pair False, sealed_digest = Pair True,
     new_v1_raw = id, hash_of = id, algorithm = FL \<circ> fst, digest_of = snd\<rparr>"

lemma plain_comm_laws: "comm_laws plain_comm"
  by (simp add: comm_laws_def plain_comm_def)

end
