(* ===== verification/Spec2Isabelle.thy ===== *)
theory Spec2Isabelle
  imports Bit_Field Address_Instance Piece Tipset Datastore_Wrappers Store_Query Wallet Rpc_Handler Gas Peer_Mgr
    Ipld_Instance Rocks_Store Jsonrpc_Ws_Runs Api_Requests Miner_State Net_Service Net_Params
    Comm_Cid
begin

text \<open>
  A model of plum, an implementation of the Filecoin protocol in Rust, and the theorems that make
  its components correct.

  \<^bold>\<open>Conventions.\<close> A fallible operation returns the type \<open>result\<close> of \<open>Plum_Prelude\<close>: \<open>Ok\<close>, \<open>Err\<close> with
  the error value of the source, or \<open>Panic\<close>. Arithmetic that Rust checks only in debug builds takes
  a flag \<open>oc\<close> (overflow checks on or off): with it an overflow is a panic, without it the result wraps.
  Machine integers are words, big integers are \<open>int\<close>, strings are the list of their UTF-8
  bytes. Code outside the repository is a record of functions passed to the definitions: \<open>libs\<close>
  (CBOR primitives, content identifiers, big-integer bytes) with the laws of the locale
  \<open>codec_libs\<close>, and \<open>addr_libs\<close> (hash, base 32, varints) with the laws \<open>addr_laws\<close>; each has a concrete
  instance that satisfies its laws, \<open>rfc7049\<close> and \<open>address_rfc\<close>.

  \<^bold>\<open>Components.\<close>
  \<^item> \<open>Rle_Bitset\<close>, \<open>Rle_Encode\<close>, \<open>Rle_Decode\<close> (\<open>src/primitives/bitfield/rle\<close>): the bit set refines a list of
    bits, the encoder writes the header and the blocks of the run lengths, the decoder reads them
    back; the decoder is total and its output is ascending. \<open>Bit_Field\<close> adds the CBOR form.
  \<^item> \<open>Codec_Libs\<close>, \<open>Codec_Rfc7049\<close>: the interface of the external codec functions and its instance.
  \<^item> \<open>Rust_Str\<close>, \<open>Address\<close>, \<open>Address_Instance\<close> (\<open>src/primitives/address\<close>): text, byte and CBOR forms.
  \<^item> \<open>Chain_Types\<close>, \<open>Piece\<close>, \<open>Sector\<close>, \<open>Message\<close>, \<open>Block\<close> (\<open>src/primitives/{types,bigint,hash,bytes,piece,sector,
    crypto,message,block}\<close>): data, validation and CBOR forms of the chain's objects.
  \<^item> \<open>Tipset\<close> (\<open>src/primitives/tipset\<close>): construction by sorting and checking headers, minimum ticket.

  \<^item> \<open>Store_Key\<close> (\<open>src/ipfs/datastore/src/key.rs\<close>): keys are canonical paths and refine lists of namespaces; the
    external path cleaner is an argument with the laws of the locale \<open>path_cleaner\<close>.
  \<^item> \<open>Datastore\<close>, \<open>Datastore_Basic\<close>, \<open>Datastore_Wrappers\<close> (\<open>src/ipfs/datastore/src/{store,impls}\<close>,
    \<open>src/ipfs/datastore-memory\<close>): the store traits are records of methods over the state of a store, and the
    locale \<open>store_contract\<close> is their contract, which the map store satisfies. Batches and transactions refine
    applying their writes, for every order in which the pending operations are iterated; a store that may refuse writes
    has the weaker contract \<open>flaky_store\<close>, under which a failed commit can be repeated. The wrappers (failing, delaying, logging,
    key-transforming, shared) are functions on stores.
  \<^item> \<open>Store_Query\<close> (\<open>src/ipfs/datastore/src/query\<close>): filters and orders of entries and their agreement.
  \<^item> \<open>Crypto\<close> (\<open>src/primitives/crypto\<close>, \<open>src/chain\<close>): keys, signing, verification, verifiable random values and
    the randomness of the chain, over the records \<open>secp_libs\<close> and \<open>bls_libs\<close> of the external curve operations with the
    laws of the locale \<open>signature_schemes\<close>.
  \<^item> \<open>Wallet\<close> (\<open>src/wallet\<close>): key stores with the contract \<open>key_store\<close>, which the memory store satisfies, and the wallet. Its
    calls are the steps of \<open>wallet_step\<close>; the invariant \<open>wallet_inv\<close> holds after every sequence of calls and
    gives that signatures verify and that memory and store agree.
  \<^item> \<open>Rpc_Protocol\<close>, \<open>Rpc_Handler\<close> (\<open>src/libp2p/src/rpc\<close>): the protocol's data, the queue of the behaviour, and the connection
    handler. The handler's operations are functions on its record; \<open>rpc_exec\<close> is one event of the swarm and \<open>rpc_steps\<close> the
    reachable systems. The external timer queues have the laws of the locale \<open>delay_contract\<close>.
  \<^item> \<open>Net_Service\<close> (\<open>src/libp2p/src/{behaviour,service}.rs\<close>, \<open>src/network\<close>): the path of an event from the behaviour of the swarm
    through the network task to the message handler, and of its answers back. The two tasks and the events of the network interleave
    in the runs \<open>network_steps\<close>, which end before the signal that stops the network task.
  \<^item> \<open>Miner_State\<close> (\<open>src/actor/src/builtin/miner/state.rs\<close>, \<open>src/primitives/peerid\<close>): the state of the miner actor and its CBOR form.
  \<^item> \<open>Comm_Cid\<close> (\<open>src/primitives/fc\<close>): commitments and their content identifiers, over an argument for the \<open>cid\<close> package.
  \<^item> \<open>Net_Params\<close> (\<open>src/params\<close>): the parameters of the networks and their initialisation, which the first call fixes.
  \<^item> \<open>Ipld_Value\<close>, \<open>Ipld_Cbor\<close>, \<open>Ipld_Json\<close>, \<open>Ipld_Instance\<close> (\<open>src/ipld\<close>): IPLD values with the order of their map keys, and
    their CBOR and JSON codecs over the external \<open>minicbor\<close> and \<open>serde_json\<close>, whose documented behaviour is in the locales
    \<open>ipld_codec\<close>, \<open>ipld_reader\<close> and \<open>json_laws\<close>. The reader reports the smallest type that holds an integer.
  \<^item> \<open>Rocks_Stats\<close>, \<open>Rocks_Database\<close>, \<open>Rocks_Store\<close> (\<open>src/ipfs/datastore-rocksdb\<close>): statistics, the database with its
    columns, and the store with its batches and transactions. The engine is the record \<open>rocks\<close> of functions on a world,
    with the laws \<open>rocks_laws\<close>, of which \<open>mem_rocks\<close> is an instance. The store refines a map of keys and a
    commit is atomic.
  \<^item> \<open>Json_Tree\<close>, \<open>Jsonrpc_Types\<close>, \<open>Jsonrpc_Transport\<close>, \<open>Jsonrpc_Ws\<close>, \<open>Jsonrpc_Ws_Runs\<close>, \<open>Api_Requests\<close> (\<open>src/api-client\<close>): JSON trees
    and the reading of derived structs, the types of JSON-RPC, the HTTP transport over an argument for the exchange, the WebSocket
    transport as a state with the steps \<open>ws_steps\<close> of its tasks, and the requests of all the methods of the API. Both transports
    satisfy the locale \<open>numbered_calls\<close>.
  \<^item> \<open>Gas\<close> (\<open>src/vm\<close>) and \<open>Peer_Mgr\<close> (\<open>src/peermgr\<close>): gas prices and their lookup by epoch, and the bounded set of peers.

  \<^bold>\<open>Interaction.\<close> Blocks and tipsets contain messages and addresses, whose CBOR forms they use. The wallet makes addresses from keys,
  stores them under their text form and signs with the crypto component, whose verification recomputes the address.
  Prefixed and shared datastores wrap any store with the contract. The handler takes its requests from the application's queue
  of the behaviour, which the network task fills with the answers of the message handler. The RocksDB store has the contract of a store that may refuse writes. The client's requests go through either transport.

  \<^bold>\<open>Fuel and bounds.\<close> The decoder of IPLD values takes the number of its stack frames, and running out is a panic; more frames than
  bytes of input are proved to be enough. No other fuel is used. The loops over bits and slices end by the number of remaining
  bits, the loop over queued responses of the handler by the length of the queue, the others structurally. Two loops are partial
  functions with \<open>None\<close> for not returning: the loop over expired timers, which is proved to return, and the commits and
  the discard of the logging stores, which are proved not to. The handler is considered for fewer than \<open>2 ^ 64\<close> inbound requests on one
  connection; the WebSocket client for any number of calls, and its freedom from cancelled callers for fewer than
  \<open>2 ^ 64\<close>.

  \<^bold>\<open>Not modelled.\<close> The JSON forms of the chain's objects, which serde derives or which hand the text form on; the block and block
  store interfaces, which have no implementation; the swarm, the transports and the start-up of the services, the command line and the logging
  set-up, which are input and output over external crates; the WebSocket handshake. The rates that are derived from the
  statistics of a database are floating-point quotients and are left out, as is the search for the rotational flag of a drive. Logging and metrics are left
  out except where the logging store writes its lines.
\<close>

end
